theory Spec2Isabelle
  imports Main "HOL-Library.Word"
begin

section \<open>nspDump: the package assembly and streaming pipeline\<close>

text \<open>
  A shallow embedding of \<^verbatim>\<open>nspDump\<close> (code_templates/nsp_dumper_usb.c).
  The routine is an orchestration of collaborators declared in other files of the
  repository (nca.h, cnmt.h, program_info.h, nacp.h, legal_info.h, tik.h, cert.h,
  usb.h, pfs.h). Their bodies are taken as parameters, gathered in the record
  \<open>env\<close>; every call that reaches the transport, the clock, the credential source
  or a per-unit collaborator is appended to a trace, in program order. Each
  \<^verbatim>\<open>goto end\<close> is a result \<open>Inl (label, trace)\<close>, the label being the text
  that the routine prints there.

  Byte counts (\<^verbatim>\<open>u64\<close>) are natural numbers: no content size or package size
  comes near \<open>2 ^ 64\<close>, and the one narrowing cast, \<^verbatim>\<open>(u32)nsp_header_size\<close>,
  is written out.
\<close>

subsection \<open>Data\<close>

type_synonym byte = "8 word"
type_synonym bytes = "byte list"

datatype NcmContentType =
    NcmContentType_Meta
  | NcmContentType_Program
  | NcmContentType_Data
  | NcmContentType_Control
  | NcmContentType_HtmlDocument
  | NcmContentType_LegalInformation
  | NcmContentType_DeltaFragment

datatype NcmStorageId =
    NcmStorageId_None
  | NcmStorageId_Host
  | NcmStorageId_GameCard
  | NcmStorageId_BuiltInSystem
  | NcmStorageId_BuiltInUser
  | NcmStorageId_SdCard
  | NcmStorageId_Any

text \<open>The third argument of \<^verbatim>\<open>ncaInitializeContext\<close>: the secure partition for a
  gamecard title, the literal 0 otherwise.\<close>

datatype hfs_partition = GameCardHashFileSystemPartitionType_Secure | Hfs_Zero

datatype TikTitleKeyType = TikTitleKeyType_Common | TikTitleKeyType_Personalized

record NcmContentInfo =
  ci_content_type :: NcmContentType
  ci_id_offset :: nat
  ci_rest :: bytes

record TitleInfo =
  storage_id :: NcmStorageId
  version_value :: nat
  content_infos :: "NcmContentInfo list"

definition content_count :: "TitleInfo \<Rightarrow> nat" where
  "content_count title_info = length (content_infos title_info)"

record Ticket =
  tik_size :: nat
  tik_data :: bytes
  rights_id_str :: string

record TikCommonBlock =
  titlekey_type :: TikTitleKeyType
  rights_id :: bytes
  issuer :: string

record ProgramInfoContext =
  pi_authoring_tool_xml :: bytes
  pi_authoring_tool_xml_size :: nat
  pi_rest :: bytes

record NacpIconContext =
  language :: nat
  icon_size :: nat
  icon_data :: bytes

text \<open>\<^verbatim>\<open>icon_count\<close> is the length of \<open>icon_ctx\<close>.\<close>

record NacpContext =
  icon_ctx :: "NacpIconContext list"
  nacp_authoring_tool_xml :: bytes
  nacp_authoring_tool_xml_size :: nat
  nacp_rest :: bytes

record LegalInfoContext =
  li_authoring_tool_xml :: bytes
  li_authoring_tool_xml_size :: nat
  li_rest :: bytes

text \<open>\<^verbatim>\<open>void *content_type_ctx\<close>: the metadata context a unit owns. The source
  casts it by the unit's \<^verbatim>\<open>content_type\<close>.\<close>

datatype type_ctx =
    ProgramInfoCtx ProgramInfoContext
  | NacpCtx NacpContext
  | LegalInfoCtx LegalInfoContext

text \<open>The fields of \<^verbatim>\<open>NcaContext\<close> that \<^verbatim>\<open>nspDump\<close> reads, and \<open>nca_rest\<close> for
  everything else the collaborators keep in it (header, keys, hash).\<close>

record NcaContext =
  content_id_str :: string
  content_type :: NcmContentType
  content_size :: nat
  rights_id_available :: bool
  titlekey_retrieved :: bool
  header_written :: bool
  content_type_ctx :: "type_ctx option"
  content_type_ctx_patch :: bool
  content_type_ctx_data_idx :: nat
  nca_rest :: bytes

record ContentMetaContext =
  authoring_tool_xml :: bytes
  authoring_tool_xml_size :: nat
  cnmt_rest :: bytes

record options =
  set_download_type :: bool
  remove_console_data :: bool
  remove_titlekey_crypto :: bool
  change_acid_rsa :: bool

record PartitionFileSystemEntry =
  pfs_entry_name :: string
  pfs_entry_size :: nat

text \<open>\<^verbatim>\<open>header.entry_count\<close> is the length of \<open>pfs_entries\<close>.\<close>

record PartitionFileSystemFileContext =
  pfs_entries :: "PartitionFileSystemEntry list"
  fs_size :: nat

subsection \<open>The trace of collaborator calls\<close>

datatype call =
    NcaInitializeContext NcmContentType nat
  | CnmtInitializeContext
  | NcaSetDownloadDistributionType nat
  | NcaRemoveTitlekeyCrypto nat
  | ProgramInfoInitializeContext nat
  | ProgramInfoGenerateNcaPatch nat
  | ProgramInfoGenerateAuthoringToolXml nat
  | NacpInitializeContext nat
  | NacpGenerateAuthoringToolXml nat
  | LegalInfoInitializeContext nat
  | NcaEncryptHeader nat
  | CnmtGenerateAuthoringToolXml "string list"
  | TikGetCommonBlock
  | TikConvertPersonalizedTicketToCommonTicket
  | CertRetrieveRawCertificateChainFromGameCardByRightsId bytes
  | CertGenerateRawCertificateChainBySignatureIssuer string
  | UsbIsReady
  | UtilsSleep nat
  | UsbSendFileProperties nat string nat
  | UsbSendFilePropertiesCommon nat "string option"
  | UsbSendFileData bytes nat
  | UsbSendNspHeader bytes nat
  | CnmtGenerateNcaPatch
  | NcaUpdateContentIdAndHash nat bytes

type_synonym failure = "string \<times> call list"

subsection \<open>The collaborators\<close>

text \<open>
  One field per function that \<^verbatim>\<open>nspDump\<close> calls and whose body is in another
  file. A function that can fail returns \<open>None\<close> where the C function returns
  \<^verbatim>\<open>false\<close> or \<^verbatim>\<open>NULL\<close>. A function that writes through a pointer returns
  what it may write: the collaborators of a content unit write the unit's
  private part (\<open>nca_rest\<close>) and the flags named in their result, never its
  size, kind or identifier. The transport answers a call after a history:
  \<open>e_usb env tr c\<close> is the result of call \<open>c\<close> issued after the trace \<open>tr\<close>.
\<close>

record env =
  e_alloc_ok :: "string \<Rightarrow> bool"
  e_titleGenerateFileName :: "TitleInfo \<Rightarrow> string option"
  e_utilsGeneratePath :: "string \<Rightarrow> string \<Rightarrow> string option"
  e_ncaOpen :: "NcmStorageId \<Rightarrow> hfs_partition \<Rightarrow> NcmContentInfo \<Rightarrow> Ticket \<Rightarrow> (NcaContext \<times> Ticket) option"
  e_cnmtInitializeContext :: "NcaContext \<Rightarrow> (ContentMetaContext \<times> bytes) option"
  e_ncaSetDownloadDistributionType :: "NcaContext \<Rightarrow> bytes"
  e_ncaRemoveTitlekeyCrypto :: "NcaContext \<Rightarrow> bytes option"
  e_programInfoInitializeContext :: "NcaContext \<Rightarrow> (ProgramInfoContext \<times> bytes) option"
  e_programInfoGenerateNcaPatch :: "ProgramInfoContext \<Rightarrow> NcaContext \<Rightarrow> (ProgramInfoContext \<times> bool \<times> bytes) option"
  e_programInfoGenerateAuthoringToolXml :: "ProgramInfoContext \<Rightarrow> ProgramInfoContext option"
  e_nacpInitializeContext :: "NcaContext \<Rightarrow> (NacpContext \<times> bytes) option"
  e_cnmtGetRequiredTitleVersion :: "ContentMetaContext \<Rightarrow> nat"
  e_nacpGenerateAuthoringToolXml :: "NacpContext \<Rightarrow> nat \<Rightarrow> nat \<Rightarrow> NacpContext option"
  e_nacpGetLanguageString :: "nat \<Rightarrow> string"
  e_legalInfoInitializeContext :: "NcaContext \<Rightarrow> (LegalInfoContext \<times> bytes) option"
  e_ncaEncryptHeader :: "NcaContext \<Rightarrow> bytes option"
  e_cnmtGenerateAuthoringToolXml :: "ContentMetaContext \<Rightarrow> NcaContext list \<Rightarrow> nat \<Rightarrow> ContentMetaContext option"
  e_tikGetCommonBlock :: "bytes \<Rightarrow> TikCommonBlock option"
  e_tikConvertPersonalizedTicketToCommonTicket :: "Ticket \<Rightarrow> (Ticket \<times> bytes \<times> nat) option"
  e_certRetrieveRawCertificateChainFromGameCardByRightsId :: "bytes \<Rightarrow> (bytes \<times> nat) option"
  e_certGenerateRawCertificateChainBySignatureIssuer :: "string \<Rightarrow> (bytes \<times> nat) option"
  e_pfs_add_ok :: "PartitionFileSystemFileContext \<Rightarrow> string \<Rightarrow> nat \<Rightarrow> bool"
  e_pfs_fixed_header_size :: nat
  e_pfs_entry_record_size :: nat
  e_pfs_alignment :: nat
  e_pfs_header_bytes :: "PartitionFileSystemFileContext \<Rightarrow> bytes"
  e_time :: nat
  e_usb :: "call list \<Rightarrow> call \<Rightarrow> bool"
  e_cnmtGenerateNcaPatch :: "ContentMetaContext \<Rightarrow> NcaContext \<Rightarrow> (ContentMetaContext \<times> bool \<times> bytes) option"
  e_ncaIsHeaderDirty :: "NcaContext \<Rightarrow> bool"
  e_ncaReadContentFile :: "NcaContext \<Rightarrow> nat \<Rightarrow> nat \<Rightarrow> bytes option"
  e_ncaWriteEncryptedHeaderDataToMemoryBuffer :: "NcaContext \<Rightarrow> bytes \<Rightarrow> nat \<Rightarrow> nat \<Rightarrow> bytes \<times> bool \<times> bytes"
  e_cnmtWriteNcaPatch :: "ContentMetaContext \<Rightarrow> NcaContext \<Rightarrow> bytes \<Rightarrow> nat \<Rightarrow> nat \<Rightarrow> bytes \<times> ContentMetaContext \<times> bool \<times> bytes"
  e_programInfoWriteNcaPatch :: "ProgramInfoContext \<Rightarrow> NcaContext \<Rightarrow> bytes \<Rightarrow> nat \<Rightarrow> nat \<Rightarrow> bytes \<times> ProgramInfoContext \<times> bool \<times> bytes"
  e_sha256 :: "bytes \<Rightarrow> bytes"
  e_ncaUpdateContentIdAndHash :: "NcaContext \<Rightarrow> bytes \<Rightarrow> string \<times> bytes"
  e_cnmtUpdateContentInfo :: "ContentMetaContext \<Rightarrow> NcaContext \<Rightarrow> ContentMetaContext option"

subsection \<open>The container layout builder\<close>

text \<open>
  The functions of pfs.h, whose bodies are not part of this file.
\<close>

definition pfsInitializeFileContext :: PartitionFileSystemFileContext where
  "pfsInitializeFileContext = \<lparr>pfs_entries = [], fs_size = 0\<rparr>"

definition entry_count :: "PartitionFileSystemFileContext \<Rightarrow> nat" where
  "entry_count ctx = length (pfs_entries ctx)"

text \<open>Modelled from the spec: \<^verbatim>\<open>pfsAddEntryInformationToFileContext\<close>
  (\<open>add_entry\<close>) appends one named, sized entry and reports its table index; the
  total payload size grows by the entry's size. The call can fail (\<open>e_pfs_add_ok\<close>).\<close>

definition pfsAddEntryInformationToFileContext ::
  "env \<Rightarrow> PartitionFileSystemFileContext \<Rightarrow> string \<Rightarrow> nat \<Rightarrow> (PartitionFileSystemFileContext \<times> nat) option" where
  "pfsAddEntryInformationToFileContext env ctx entry_name entry_size =
     (if \<not> e_pfs_add_ok env ctx entry_name entry_size then None
      else Some (ctx\<lparr>pfs_entries := pfs_entries ctx @ [\<lparr>pfs_entry_name = entry_name, pfs_entry_size = entry_size\<rparr>],
                      fs_size := fs_size ctx + entry_size\<rparr>,
                 entry_count ctx))"

text \<open>Modelled from the spec: \<^verbatim>\<open>pfsGetEntryNameByIndexFromFileContext\<close> gives
  the name of the entry at an index, \<^verbatim>\<open>NULL\<close> out of range.\<close>

definition pfsGetEntryNameByIndexFromFileContext ::
  "PartitionFileSystemFileContext \<Rightarrow> nat \<Rightarrow> string option" where
  "pfsGetEntryNameByIndexFromFileContext ctx idx =
     (if idx < entry_count ctx then Some (pfs_entry_name (pfs_entries ctx ! idx)) else None)"

text \<open>Modelled from the spec: \<^verbatim>\<open>pfsUpdateEntryNameFromFileContext\<close>
  (\<open>rename_entry\<close>) replaces only the name string of an existing entry and fails
  when the index is out of bounds. \<^verbatim>\<open>nspDump\<close> passes a unit's identifier, and an
  entry name is an identifier followed by its extension: the identifier at the
  start of the name is replaced by the one passed, the rest of the name stays.\<close>

definition pfsUpdateEntryNameFromFileContext ::
  "PartitionFileSystemFileContext \<Rightarrow> nat \<Rightarrow> string \<Rightarrow> PartitionFileSystemFileContext option" where
  "pfsUpdateEntryNameFromFileContext ctx idx new_entry_name =
     (if idx < entry_count ctx
      then Some (ctx\<lparr>pfs_entries := (pfs_entries ctx)
             [idx := (pfs_entries ctx ! idx)\<lparr>pfs_entry_name :=
                new_entry_name @ drop (length new_entry_name) (pfs_entry_name (pfs_entries ctx ! idx))\<rparr>]\<rparr>)
      else None)"

definition align_up :: "nat \<Rightarrow> nat \<Rightarrow> nat" where
  "align_up x a = (if a = 0 then x else ((x + a - 1) div a) * a)"

text \<open>Modelled from the spec: the header size is the fixed preamble, one record
  per entry and every name with its terminator, padded to the alignment of the
  format. The three constants of the format are parameters.\<close>

definition pfs_header_size :: "env \<Rightarrow> PartitionFileSystemFileContext \<Rightarrow> nat" where
  "pfs_header_size env ctx =
     align_up (e_pfs_fixed_header_size env + entry_count ctx * e_pfs_entry_record_size env
               + sum_list (map (\<lambda>e. length (pfs_entry_name e) + 1) (pfs_entries ctx)))
              (e_pfs_alignment env)"

text \<open>Modelled from the spec: \<^verbatim>\<open>pfsWriteFileContextHeaderToMemoryBuffer\<close>
  (\<open>materialize_header\<close>) serializes the header into a buffer of the given
  capacity and reports its size; it fails when the header exceeds the capacity.\<close>

definition pfsWriteFileContextHeaderToMemoryBuffer ::
  "env \<Rightarrow> PartitionFileSystemFileContext \<Rightarrow> nat \<Rightarrow> (bytes \<times> nat) option" where
  "pfsWriteFileContextHeaderToMemoryBuffer env ctx buf_size =
     (if pfs_header_size env ctx > buf_size then None
      else Some (e_pfs_header_bytes env ctx, pfs_header_size env ctx))"

subsection \<open>Content units\<close>

text \<open>Modelled from the spec: \<^verbatim>\<open>titleGetContentInfoByTypeAndIdOffset\<close> (title.h)
  gives the title's content descriptor of a kind and id offset, \<^verbatim>\<open>NULL\<close> when the
  title has none.\<close>

definition titleGetContentInfoByTypeAndIdOffset ::
  "TitleInfo \<Rightarrow> NcmContentType \<Rightarrow> nat \<Rightarrow> NcmContentInfo option" where
  "titleGetContentInfoByTypeAndIdOffset title_info t id_off =
     find (\<lambda>ci. ci_content_type ci = t \<and> ci_id_offset ci = id_off) (content_infos title_info)"

text \<open>Modelled from the spec: \<^verbatim>\<open>ncaInitializeContext\<close> (nca.h) opens the unit
  that a content descriptor names (\<open>e_ncaOpen\<close>); it fails without a descriptor.
  The unit has the kind of its descriptor and owns no metadata context yet.\<close>

definition ncaInitializeContext ::
  "env \<Rightarrow> NcmStorageId \<Rightarrow> hfs_partition \<Rightarrow> NcmContentInfo option \<Rightarrow> Ticket \<Rightarrow> (NcaContext \<times> Ticket) option" where
  "ncaInitializeContext env sid hfs content_info tik =
     (case content_info of
        None \<Rightarrow> None
      | Some ci \<Rightarrow>
          (case e_ncaOpen env sid hfs ci tik of
             None \<Rightarrow> None
           | Some (ctx, tik') \<Rightarrow>
               Some (ctx\<lparr>content_type := ci_content_type ci, content_type_ctx := None\<rparr>, tik')))"

text \<open>A slot of the \<^verbatim>\<open>calloc\<close>ed array \<^verbatim>\<open>nca_ctx\<close> before it is initialized: every
  field is zero, and the enumerator 0 of \<^verbatim>\<open>NcmContentType\<close> is
  \<^verbatim>\<open>NcmContentType_Meta\<close>.\<close>

definition zero_nca_ctx :: NcaContext where
  "zero_nca_ctx = \<lparr>content_id_str = [], content_type = NcmContentType_Meta, content_size = 0,
     rights_id_available = False, titlekey_retrieved = False, header_written = False,
     content_type_ctx = None, content_type_ctx_patch = False, content_type_ctx_data_idx = 0,
     nca_rest = []\<rparr>"

subsection \<open>The state of a run\<close>

record dump_state =
  nca_ctx :: "NcaContext list"
  cnmt_ctx :: ContentMetaContext
  program_idx :: nat
  control_idx :: nat
  legal_info_idx :: nat
  tik :: Ticket
  retrieve_tik_cert :: bool
  raw_cert_chain :: bytes
  raw_cert_chain_size :: nat
  pfs_file_ctx :: PartitionFileSystemFileContext
  nsp_header_size :: nat
  nsp_size :: nat
  nsp_offset :: nat
  path :: string
  trace :: "call list"

definition BLOCK_SIZE :: nat where
  "BLOCK_SIZE = 0x800000"

text \<open>A \<^verbatim>\<open>for\<close> loop whose body can \<^verbatim>\<open>goto end\<close>.\<close>

fun for_each :: "('s \<Rightarrow> 'a \<Rightarrow> 'e + 's) \<Rightarrow> 'a list \<Rightarrow> 's \<Rightarrow> 'e + 's" where
  "for_each f [] s = Inr s"
| "for_each f (x # xs) s = (case f s x of Inl e \<Rightarrow> Inl e | Inr s' \<Rightarrow> for_each f xs s')"

definition log :: "call \<Rightarrow> dump_state \<Rightarrow> dump_state" where
  "log c s = s\<lparr>trace := trace s @ [c]\<rparr>"

definition set_nca :: "nat \<Rightarrow> NcaContext \<Rightarrow> dump_state \<Rightarrow> dump_state" where
  "set_nca i ctx s = s\<lparr>nca_ctx := (nca_ctx s)[i := ctx]\<rparr>"

subsection \<open>Pass 1: contexts, credentials, layout\<close>

text \<open>Modelled from the spec: \<^verbatim>\<open>titleGetContentCountByType\<close> (title.h) counts
  the title's content descriptors of a kind.\<close>

definition titleGetContentCountByType :: "TitleInfo \<Rightarrow> NcmContentType \<Rightarrow> nat" where
  "titleGetContentCountByType title_info t =
     length (filter (\<lambda>ci. ci_content_type ci = t) (content_infos title_info))"

definition hfs_of :: "TitleInfo \<Rightarrow> hfs_partition" where
  "hfs_of title_info =
     (if storage_id title_info = NcmStorageId_GameCard
      then GameCardHashFileSystemPartitionType_Secure else Hfs_Zero)"

text \<open>Lines 122-164: the buffer, the output path and the context arrays.\<close>

definition allocate :: "env \<Rightarrow> TitleInfo \<Rightarrow> failure + dump_state" where
  "allocate env title_info =
     (if \<not> e_alloc_ok env ''buf'' then Inl (''buf alloc failed'', [])
      else case e_titleGenerateFileName env title_info of
        None \<Rightarrow> Inl (''title generate file name failed'', [])
      | Some dump_name \<Rightarrow>
        (case e_utilsGeneratePath env dump_name ''.nsp'' of
           None \<Rightarrow> Inl (''generate path failed'', [])
         | Some p \<Rightarrow>
           if \<not> e_alloc_ok env ''nca_ctx'' then Inl (''nca ctx calloc failed'', [])
           else if titleGetContentCountByType title_info NcmContentType_Program \<noteq> 0
                   \<and> \<not> e_alloc_ok env ''program_info_ctx''
             then Inl (''program info ctx calloc failed'', [])
           else if titleGetContentCountByType title_info NcmContentType_Control \<noteq> 0
                   \<and> \<not> e_alloc_ok env ''nacp_ctx''
             then Inl (''nacp ctx calloc failed'', [])
           else if titleGetContentCountByType title_info NcmContentType_LegalInformation \<noteq> 0
                   \<and> \<not> e_alloc_ok env ''legal_info_ctx''
             then Inl (''legal info ctx calloc failed'', [])
           else Inr \<lparr>nca_ctx = replicate (content_count title_info) zero_nca_ctx,
                     cnmt_ctx = \<lparr>authoring_tool_xml = [], authoring_tool_xml_size = 0, cnmt_rest = []\<rparr>,
                     program_idx = 0, control_idx = 0, legal_info_idx = 0,
                     tik = \<lparr>tik_size = 0, tik_data = [], rights_id_str = []\<rparr>,
                     retrieve_tik_cert = False, raw_cert_chain = [], raw_cert_chain_size = 0,
                     pfs_file_ctx = pfsInitializeFileContext,
                     nsp_header_size = 0, nsp_size = 0, nsp_offset = 0,
                     path = p, trace = []\<rparr>))"

text \<open>Lines 166-184: the meta unit is opened first, into the last slot.\<close>

definition init_meta :: "env \<Rightarrow> TitleInfo \<Rightarrow> dump_state \<Rightarrow> failure + dump_state" where
  "init_meta env title_info s =
     (let s1 = log (NcaInitializeContext NcmContentType_Meta 0) s in
      case ncaInitializeContext env (storage_id title_info) (hfs_of title_info)
             (titleGetContentInfoByTypeAndIdOffset title_info NcmContentType_Meta 0) (tik s) of
        None \<Rightarrow> Inl (''Meta nca initialize ctx failed'', trace s1)
      | Some (meta_nca_ctx, tik') \<Rightarrow>
        (let s2 = log CnmtInitializeContext (s1\<lparr>tik := tik'\<rparr>) in
         case e_cnmtInitializeContext env meta_nca_ctx of
           None \<Rightarrow> Inl (''cnmt initialize ctx failed'', trace s2)
         | Some (cnmt, r) \<Rightarrow>
             Inr (set_nca (content_count title_info - 1) (meta_nca_ctx\<lparr>nca_rest := r\<rparr>)
                    (s2\<lparr>cnmt_ctx := cnmt\<rparr>))))"

text \<open>Lines 213-223: the option-driven transformations of a unit.\<close>

definition transform_content ::
  "env \<Rightarrow> options \<Rightarrow> nat \<Rightarrow> NcaContext \<times> dump_state \<Rightarrow> failure + NcaContext \<times> dump_state" where
  "transform_content env opts j cs =
     (case cs of (cur, s) \<Rightarrow>
       (let (cur1, s1) =
              (if set_download_type opts
               then (cur\<lparr>nca_rest := e_ncaSetDownloadDistributionType env cur\<rparr>,
                     log (NcaSetDownloadDistributionType j) s)
               else (cur, s)) in
        if remove_titlekey_crypto opts
        then (case e_ncaRemoveTitlekeyCrypto env cur1 of
                None \<Rightarrow> Inl (''nca remove titlekey crypto failed'', trace (log (NcaRemoveTitlekeyCrypto j) s1))
              | Some r \<Rightarrow> Inr (cur1\<lparr>nca_rest := r\<rparr>, log (NcaRemoveTitlekeyCrypto j) s1))
        else Inr (cur1, s1)))"

text \<open>Lines 227-254: \<^verbatim>\<open>case NcmContentType_Program\<close>.\<close>

definition program_case ::
  "env \<Rightarrow> options \<Rightarrow> nat \<Rightarrow> NcaContext \<times> dump_state \<Rightarrow> failure + NcaContext \<times> dump_state" where
  "program_case env opts j cs =
     (case cs of (cur, s) \<Rightarrow>
       (let s1 = log (ProgramInfoInitializeContext j) s in
        case e_programInfoInitializeContext env cur of
          None \<Rightarrow> Inl (''initialize program info ctx failed'', trace s1)
        | Some (p, r) \<Rightarrow>
          (let cur1 = cur\<lparr>content_type_ctx := Some (ProgramInfoCtx p), nca_rest := r\<rparr> in
           case (if change_acid_rsa opts
                 then (case e_programInfoGenerateNcaPatch env p cur1 of
                         None \<Rightarrow> Inl (''program info nca patch failed'', trace (log (ProgramInfoGenerateNcaPatch j) s1))
                       | Some (p', patch, r') \<Rightarrow>
                           Inr (p', cur1\<lparr>content_type_ctx := Some (ProgramInfoCtx p'),
                                         content_type_ctx_patch := patch, nca_rest := r'\<rparr>,
                                log (ProgramInfoGenerateNcaPatch j) s1))
                 else Inr (p, cur1, s1)) of
             Inl e \<Rightarrow> Inl e
           | Inr (p2, cur2, s2) \<Rightarrow>
             (let s3 = log (ProgramInfoGenerateAuthoringToolXml j) s2 in
              case e_programInfoGenerateAuthoringToolXml env p2 of
                None \<Rightarrow> Inl (''program info xml failed'', trace s3)
              | Some p3 \<Rightarrow>
                  Inr (cur2\<lparr>content_type_ctx := Some (ProgramInfoCtx p3)\<rparr>,
                       s3\<lparr>program_idx := program_idx s3 + 1\<rparr>)))))"

text \<open>Lines 255-278: \<^verbatim>\<open>case NcmContentType_Control\<close>.\<close>

definition control_case ::
  "env \<Rightarrow> TitleInfo \<Rightarrow> nat \<Rightarrow> NcaContext \<times> dump_state \<Rightarrow> failure + NcaContext \<times> dump_state" where
  "control_case env title_info j cs =
     (case cs of (cur, s) \<Rightarrow>
       (let s1 = log (NacpInitializeContext j) s in
        case e_nacpInitializeContext env cur of
          None \<Rightarrow> Inl (''initialize nacp ctx failed'', trace s1)
        | Some (n, r) \<Rightarrow>
          (let s2 = log (NacpGenerateAuthoringToolXml j) s1 in
           case e_nacpGenerateAuthoringToolXml env n (version_value title_info)
                  (e_cnmtGetRequiredTitleVersion env (cnmt_ctx s)) of
             None \<Rightarrow> Inl (''nacp xml failed'', trace s2)
           | Some n' \<Rightarrow>
               Inr (cur\<lparr>content_type_ctx := Some (NacpCtx n'), nca_rest := r\<rparr>,
                    s2\<lparr>control_idx := control_idx s2 + 1\<rparr>))))"

text \<open>Lines 279-294: \<^verbatim>\<open>case NcmContentType_LegalInformation\<close>.\<close>

definition legal_info_case ::
  "env \<Rightarrow> nat \<Rightarrow> NcaContext \<times> dump_state \<Rightarrow> failure + NcaContext \<times> dump_state" where
  "legal_info_case env j cs =
     (case cs of (cur, s) \<Rightarrow>
       (let s1 = log (LegalInfoInitializeContext j) s in
        case e_legalInfoInitializeContext env cur of
          None \<Rightarrow> Inl (''initialize legal info ctx failed'', trace s1)
        | Some (l, r) \<Rightarrow>
            Inr (cur\<lparr>content_type_ctx := Some (LegalInfoCtx l), nca_rest := r\<rparr>,
                 s1\<lparr>legal_info_idx := legal_info_idx s1 + 1\<rparr>)))"

text \<open>Lines 225-303: the \<^verbatim>\<open>switch\<close> on the content type, then the re-encryption
  of the unit's header.\<close>

definition process_content ::
  "env \<Rightarrow> options \<Rightarrow> TitleInfo \<Rightarrow> nat \<Rightarrow> NcmContentInfo \<Rightarrow> NcaContext \<times> dump_state
     \<Rightarrow> failure + NcaContext \<times> dump_state" where
  "process_content env opts title_info j content_info cs =
     (case (case ci_content_type content_info of
              NcmContentType_Program \<Rightarrow> program_case env opts j cs
            | NcmContentType_Control \<Rightarrow> control_case env title_info j cs
            | NcmContentType_LegalInformation \<Rightarrow> legal_info_case env j cs
            | _ \<Rightarrow> Inr cs) of
        Inl e \<Rightarrow> Inl e
      | Inr (cur, s) \<Rightarrow>
        (let s1 = log (NcaEncryptHeader j) s in
         case e_ncaEncryptHeader env cur of
           None \<Rightarrow> Inl (''encrypt nca header failed'', trace s1)
         | Some r \<Rightarrow> Inr (cur\<lparr>nca_rest := r\<rparr>, s1)))"

text \<open>Lines 190-306: one iteration of the loop over \<^verbatim>\<open>content_infos\<close>; the loop
  variable \<^verbatim>\<open>j\<close> is the first component of the loop state. The context is built
  in place in slot \<^verbatim>\<open>j\<close>.\<close>

definition init_content ::
  "env \<Rightarrow> options \<Rightarrow> TitleInfo \<Rightarrow> nat \<times> dump_state \<Rightarrow> NcmContentInfo \<Rightarrow> failure + nat \<times> dump_state" where
  "init_content env opts title_info js content_info =
     (case js of (j, s) \<Rightarrow>
       if ci_content_type content_info = NcmContentType_Meta then Inr (j, s)
       else
        (let s1 = log (NcaInitializeContext (ci_content_type content_info) (ci_id_offset content_info)) s in
         case ncaInitializeContext env (storage_id title_info) (hfs_of title_info)
                (Some content_info) (tik s) of
           None \<Rightarrow> Inl (''initialize nca ctx failed'', trace s1)
         | Some (cur, tik') \<Rightarrow>
             if rights_id_available cur \<and> \<not> titlekey_retrieved cur
             then Inr (j + 1, set_nca j cur (s1\<lparr>tik := tik'\<rparr>))
             else
              (case transform_content env opts j (cur, s1\<lparr>tik := tik'\<rparr>) of
                 Inl e \<Rightarrow> Inl e
               | Inr cs \<Rightarrow>
                 (case process_content env opts title_info j content_info cs of
                    Inl e \<Rightarrow> Inl e
                  | Inr (cur', s') \<Rightarrow> Inr (j + 1, set_nca j cur' s')))))"

definition init_contents :: "env \<Rightarrow> options \<Rightarrow> TitleInfo \<Rightarrow> dump_state \<Rightarrow> failure + dump_state" where
  "init_contents env opts title_info s =
     (case for_each (init_content env opts title_info) (content_infos title_info) (0, s) of
        Inl e \<Rightarrow> Inl e
      | Inr (j, s') \<Rightarrow> Inr s')"

text \<open>Lines 308-314 and 580-585: \<^verbatim>\<open>cnmtGenerateAuthoringToolXml\<close>. The trace
  records the identifiers that the units carry at the time of the call.\<close>

definition generate_cnmt_xml ::
  "env \<Rightarrow> TitleInfo \<Rightarrow> string \<Rightarrow> dump_state \<Rightarrow> failure + dump_state" where
  "generate_cnmt_xml env title_info label s =
     (let s1 = log (CnmtGenerateAuthoringToolXml (map content_id_str (nca_ctx s))) s in
      case e_cnmtGenerateAuthoringToolXml env (cnmt_ctx s) (nca_ctx s) (content_count title_info) of
        None \<Rightarrow> Inl (label, trace s1)
      | Some cnmt \<Rightarrow> Inr (s1\<lparr>cnmt_ctx := cnmt\<rparr>))"

text \<open>Lines 316-341: the ticket and the certificate chain.\<close>

definition resolve_credentials ::
  "env \<Rightarrow> options \<Rightarrow> TitleInfo \<Rightarrow> dump_state \<Rightarrow> failure + dump_state" where
  "resolve_credentials env opts title_info s =
     (let s0 = s\<lparr>retrieve_tik_cert := (\<not> remove_titlekey_crypto opts \<and> tik_size (tik s) > 0)\<rparr> in
      if \<not> retrieve_tik_cert s0 then Inr s0
      else
       (let s1 = log TikGetCommonBlock s0 in
        case e_tikGetCommonBlock env (tik_data (tik s1)) of
          None \<Rightarrow> Inl (''tik common block failed'', trace s1)
        | Some tik_common_block \<Rightarrow>
            if remove_console_data opts \<and> titlekey_type tik_common_block = TikTitleKeyType_Personalized
            then
             (let s2 = log TikConvertPersonalizedTicketToCommonTicket s1 in
              case e_tikConvertPersonalizedTicketToCommonTicket env (tik s2) of
                None \<Rightarrow> Inl (''tik convert failed'', trace s2)
              | Some (tik', chain, chain_size) \<Rightarrow>
                  Inr (s2\<lparr>tik := tik', raw_cert_chain := chain, raw_cert_chain_size := chain_size\<rparr>))
            else if storage_id title_info = NcmStorageId_GameCard
            then
             (let s2 = log (CertRetrieveRawCertificateChainFromGameCardByRightsId (rights_id tik_common_block)) s1 in
              case e_certRetrieveRawCertificateChainFromGameCardByRightsId env (rights_id tik_common_block) of
                None \<Rightarrow> Inl (''cert failed'', trace s2)
              | Some (chain, chain_size) \<Rightarrow>
                  Inr (s2\<lparr>raw_cert_chain := chain, raw_cert_chain_size := chain_size\<rparr>))
            else
             (let s2 = log (CertGenerateRawCertificateChainBySignatureIssuer (issuer tik_common_block)) s1 in
              case e_certGenerateRawCertificateChainBySignatureIssuer env (issuer tik_common_block) of
                None \<Rightarrow> Inl (''cert failed'', trace s2)
              | Some (chain, chain_size) \<Rightarrow>
                  Inr (s2\<lparr>raw_cert_chain := chain, raw_cert_chain_size := chain_size\<rparr>))))"

text \<open>Lines 343-433: the entry table.\<close>

definition add_entry :: "env \<Rightarrow> string \<Rightarrow> nat \<Rightarrow> dump_state \<Rightarrow> failure + nat \<times> dump_state" where
  "add_entry env entry_name entry_size s =
     (case pfsAddEntryInformationToFileContext env (pfs_file_ctx s) entry_name entry_size of
        None \<Rightarrow> Inl (''pfs add entry failed'', trace s)
      | Some (pfs, idx) \<Rightarrow> Inr (idx, s\<lparr>pfs_file_ctx := pfs\<rparr>))"

definition set_data_idx :: "nat \<Rightarrow> nat \<Rightarrow> dump_state \<Rightarrow> dump_state" where
  "set_data_idx i idx s = set_nca i ((nca_ctx s ! i)\<lparr>content_type_ctx_data_idx := idx\<rparr>) s"

definition nca_entry_name :: "NcaContext \<Rightarrow> string" where
  "nca_entry_name cur =
     content_id_str cur @ ''.'' @ (if content_type cur = NcmContentType_Meta then ''cnmt.nca'' else ''nca'')"

definition add_nca_info :: "env \<Rightarrow> dump_state \<Rightarrow> nat \<Rightarrow> failure + dump_state" where
  "add_nca_info env s i =
     (let cur = nca_ctx s ! i in
      case add_entry env (nca_entry_name cur) (content_size cur) s of
        Inl e \<Rightarrow> Inl e
      | Inr (idx, s') \<Rightarrow> Inr s')"

definition add_cnmt_xml_info :: "env \<Rightarrow> TitleInfo \<Rightarrow> dump_state \<Rightarrow> failure + dump_state" where
  "add_cnmt_xml_info env title_info s =
     (let m = content_count title_info - 1 in
      case add_entry env (content_id_str (nca_ctx s ! m) @ ''.cnmt.xml'')
             (authoring_tool_xml_size (cnmt_ctx s)) s of
        Inl e \<Rightarrow> Inl e
      | Inr (idx, s') \<Rightarrow> Inr (set_data_idx m idx s'))"

definition add_icon_info :: "env \<Rightarrow> nat \<Rightarrow> dump_state \<Rightarrow> nat \<times> NacpIconContext \<Rightarrow> failure + dump_state" where
  "add_icon_info env i s ji =
     (case ji of (j, icon) \<Rightarrow>
       (case add_entry env
               (content_id_str (nca_ctx s ! i) @ ''.nx.'' @ e_nacpGetLanguageString env (language icon) @ ''.jpg'')
               (icon_size icon) s of
          Inl e \<Rightarrow> Inl e
        | Inr (idx, s') \<Rightarrow> Inr (if j = 0 then set_data_idx i idx s' else s')))"

text \<open>The cast of \<^verbatim>\<open>content_type_ctx\<close> to a context type that the unit does not
  own has no defined behaviour in C; the model stops there with this label.\<close>

definition bad_cast :: string where
  "bad_cast = ''content type ctx of another kind''"

definition add_ctx_data_info :: "env \<Rightarrow> dump_state \<Rightarrow> nat \<Rightarrow> failure + dump_state" where
  "add_ctx_data_info env s i =
     (let cur = nca_ctx s ! i in
      case content_type_ctx cur of
        None \<Rightarrow> Inr s
      | Some tc \<Rightarrow>
        (case content_type cur of
           NcmContentType_Program \<Rightarrow>
             (case tc of
                ProgramInfoCtx p \<Rightarrow>
                  (case add_entry env (content_id_str cur @ ''.programinfo.xml'')
                          (pi_authoring_tool_xml_size p) s of
                     Inl e \<Rightarrow> Inl e
                   | Inr (idx, s') \<Rightarrow> Inr (set_data_idx i idx s'))
              | _ \<Rightarrow> Inl (bad_cast, trace s))
         | NcmContentType_Control \<Rightarrow>
             (case tc of
                NacpCtx n \<Rightarrow>
                  (case for_each (add_icon_info env i) (enumerate 0 (icon_ctx n)) s of
                     Inl e \<Rightarrow> Inl e
                   | Inr s1 \<Rightarrow>
                     (case add_entry env (content_id_str cur @ ''.nacp.xml'')
                             (nacp_authoring_tool_xml_size n) s1 of
                        Inl e \<Rightarrow> Inl e
                      | Inr (idx, s') \<Rightarrow> Inr s'))
              | _ \<Rightarrow> Inl (bad_cast, trace s))
         | NcmContentType_LegalInformation \<Rightarrow>
             (case tc of
                LegalInfoCtx l \<Rightarrow>
                  (case add_entry env (content_id_str cur @ ''.legalinfo.xml'')
                          (li_authoring_tool_xml_size l) s of
                     Inl e \<Rightarrow> Inl e
                   | Inr (idx, s') \<Rightarrow> Inr (set_data_idx i idx s'))
              | _ \<Rightarrow> Inl (bad_cast, trace s))
         | _ \<Rightarrow> Inl (''pfs add entry failed'', trace s)))"

definition add_tik_cert_info :: "env \<Rightarrow> dump_state \<Rightarrow> failure + dump_state" where
  "add_tik_cert_info env s =
     (if retrieve_tik_cert s
      then (case add_entry env (rights_id_str (tik s) @ ''.tik'') (tik_size (tik s)) s of
              Inl e \<Rightarrow> Inl e
            | Inr (idx, s1) \<Rightarrow>
              (case add_entry env (rights_id_str (tik s1) @ ''.cert'') (raw_cert_chain_size s1) s1 of
                 Inl e \<Rightarrow> Inl e
               | Inr (idx', s2) \<Rightarrow> Inr s2))
      else Inr s)"

text \<open>Lines 435-443: the provisional header and the size of the package.\<close>

definition write_header_1 :: "env \<Rightarrow> dump_state \<Rightarrow> failure + dump_state" where
  "write_header_1 env s =
     (case pfsWriteFileContextHeaderToMemoryBuffer env (pfs_file_ctx s) BLOCK_SIZE of
        None \<Rightarrow> Inl (''pfs write header to mem #1 failed'', trace s)
      | Some (buf, header_size) \<Rightarrow>
          Inr (s\<lparr>nsp_header_size := header_size,
                 nsp_size := header_size + fs_size (pfs_file_ctx s)\<rparr>))"

definition steps :: "('s \<Rightarrow> 'e + 's) list \<Rightarrow> 's \<Rightarrow> 'e + 's" where
  "steps fs s = for_each (\<lambda>s f. f s) fs s"

text \<open>Lines 343-433 in order.\<close>

definition add_entries :: "env \<Rightarrow> TitleInfo \<Rightarrow> dump_state \<Rightarrow> failure + dump_state" where
  "add_entries env title_info =
     steps [for_each (add_nca_info env) [0..<content_count title_info],
            add_cnmt_xml_info env title_info,
            for_each (add_ctx_data_info env) [0..<content_count title_info - 1],
            add_tik_cert_info env]"

text \<open>Lines 166-443: everything up to the provisional header.\<close>

definition layout :: "env \<Rightarrow> options \<Rightarrow> TitleInfo \<Rightarrow> dump_state \<Rightarrow> failure + dump_state" where
  "layout env opts title_info =
     steps [init_meta env title_info,
            init_contents env opts title_info,
            generate_cnmt_xml env title_info ''cnmt xml #1 failed'',
            resolve_credentials env opts title_info,
            add_entries env title_info,
            write_header_1 env]"

subsection \<open>The connection\<close>

text \<open>Lines 447-466. \<^verbatim>\<open>time(NULL)\<close> is a clock in seconds that \<^verbatim>\<open>utilsSleep(1)\<close>
  advances by one; the other statements of the loop take no time. The result
  is \<^verbatim>\<open>usb_conn\<close>.\<close>

function usb_wait :: "env \<Rightarrow> nat \<Rightarrow> nat \<Rightarrow> call list \<Rightarrow> bool \<times> call list" where
  "usb_wait env start now tr =
     (if now - start \<ge> 10 then (False, tr)
      else if e_usb env tr UsbIsReady then (True, tr @ [UsbIsReady])
      else usb_wait env start (now + 1) (tr @ [UsbIsReady, UtilsSleep 1]))"
  by pat_completeness auto
termination
  by (relation "measure (\<lambda>(env, start, now, tr). start + 10 - now)") auto

definition connect :: "env \<Rightarrow> dump_state \<Rightarrow> failure + dump_state" where
  "connect env s =
     (case usb_wait env (e_time env) (e_time env) (trace s) of
        (usb_conn, tr) \<Rightarrow>
          if \<not> usb_conn then Inl (''usb connection failed'', tr)
          else Inr (s\<lparr>trace := tr\<rparr>))"

text \<open>Lines 472-478: the package is announced with its size and the size of
  its header.\<close>

definition send_file_properties :: "env \<Rightarrow> dump_state \<Rightarrow> failure + dump_state" where
  "send_file_properties env s =
     (let c = UsbSendFileProperties (nsp_size s) (path s) (nsp_header_size s mod 2 ^ 32) in
      if \<not> e_usb env (trace s) c
      then Inl (''usb send file properties (header) failed'', trace (log c s))
      else Inr ((log c s)\<lparr>nsp_offset := nsp_offset s + nsp_header_size s\<rparr>))"

subsection \<open>Pass 2: streaming\<close>

text \<open>
  The hash context of libnx holds the bytes it has absorbed:
  \<^verbatim>\<open>sha256ContextCreate\<close> starts from none, \<^verbatim>\<open>sha256ContextUpdate(ctx, buf, n)\<close>
  absorbs the first \<open>n\<close> bytes of \<open>buf\<close>, and \<^verbatim>\<open>sha256ContextGetHash\<close> is the
  digest \<open>e_sha256\<close> of everything absorbed.
\<close>

definition sha256ContextCreate :: bytes where
  "sha256ContextCreate = []"

definition sha256ContextUpdate :: "bytes \<Rightarrow> bytes \<Rightarrow> nat \<Rightarrow> bytes" where
  "sha256ContextUpdate ctx buf n = ctx @ take n buf"

definition sha256ContextGetHash :: "env \<Rightarrow> bytes \<Rightarrow> bytes" where
  "sha256ContextGetHash env ctx = e_sha256 env ctx"

text \<open>Lines 517-542: the re-encrypted header and the patch of the unit's
  metadata context are written over the block just read. \<^verbatim>\<open>cnmt_ctx\<close> refers to
  the meta unit, which is the current unit in its case. The buffer is its first
  \<^verbatim>\<open>blksize\<close> bytes, which \<^verbatim>\<open>ncaReadContentFile\<close> has filled.\<close>

definition patch_block ::
  "env \<Rightarrow> ContentMetaContext \<Rightarrow> NcaContext \<Rightarrow> bytes \<Rightarrow> nat \<Rightarrow> nat
     \<Rightarrow> bytes \<times> ContentMetaContext \<times> NcaContext" where
  "patch_block env cnmt cur buf blksize offset =
     (let (buf1, cur1) =
            (if \<not> header_written cur
             then (case e_ncaWriteEncryptedHeaderDataToMemoryBuffer env cur buf blksize offset of
                     (b, hw, r) \<Rightarrow> (b, cur\<lparr>header_written := hw, nca_rest := r\<rparr>))
             else (buf, cur)) in
      if content_type_ctx_patch cur1
      then (case content_type cur1 of
              NcmContentType_Meta \<Rightarrow>
                (case e_cnmtWriteNcaPatch env cnmt cur1 buf1 blksize offset of
                   (b, cnmt', patch, r) \<Rightarrow>
                     (b, cnmt', cur1\<lparr>content_type_ctx_patch := patch, nca_rest := r\<rparr>))
            | NcmContentType_Program \<Rightarrow>
                (case content_type_ctx cur1 of
                   Some (ProgramInfoCtx p) \<Rightarrow>
                     (case e_programInfoWriteNcaPatch env p cur1 buf1 blksize offset of
                        (b, p', patch, r) \<Rightarrow>
                          (b, cnmt, cur1\<lparr>content_type_ctx := Some (ProgramInfoCtx p'),
                                          content_type_ctx_patch := patch, nca_rest := r\<rparr>))
                 | _ \<Rightarrow> (buf1, cnmt, cur1))
            | _ \<Rightarrow> (buf1, cnmt, cur1))
      else (buf1, cnmt, cur1))"

text \<open>Line 506: the last block of a unit is shorter.\<close>

definition next_blksize :: "NcaContext \<Rightarrow> nat \<Rightarrow> nat \<Rightarrow> nat" where
  "next_blksize cur offset blksize =
     (if content_size cur - offset < blksize then content_size cur - offset else blksize)"

text \<open>Lines 515-546: a block is patched while \<^verbatim>\<open>dirty_header\<close> holds, and the
  flag is computed again from the unit.\<close>

definition patched ::
  "env \<Rightarrow> ContentMetaContext \<Rightarrow> NcaContext \<Rightarrow> bool \<Rightarrow> bytes \<Rightarrow> nat \<Rightarrow> nat
     \<Rightarrow> bytes \<times> ContentMetaContext \<times> NcaContext \<times> bool" where
  "patched env cnmt cur dirty_header buf blksize offset =
     (if dirty_header
      then (case patch_block env cnmt cur buf blksize offset of
              (b, cnmt', cur') \<Rightarrow> (b, cnmt', cur', \<not> header_written cur' \<or> content_type_ctx_patch cur'))
      else (buf, cnmt, cur, dirty_header))"

lemma patch_block_content_size:
  "patch_block env cnmt cur buf blksize offset = (b, cnmt', cur') \<Longrightarrow> content_size cur' = content_size cur"
  by (auto simp: patch_block_def Let_def
           split: if_splits prod.splits NcmContentType.splits option.splits type_ctx.splits)

lemma patched_content_size:
  "patched env cnmt cur dirty buf n offset = (buf1, cnmt1, cur1, dirty1) \<Longrightarrow>
   content_size cur1 = content_size cur"
  by (auto simp: patched_def split: if_splits prod.splits dest: patch_block_content_size)

text \<open>Lines 504-557: the block loop of one unit. \<^verbatim>\<open>blksize\<close> starts at
  \<^verbatim>\<open>BLOCK_SIZE\<close> and is only ever lowered to a positive remainder, so it is never
  0 where the loop tests its condition.\<close>

function stream_blocks ::
  "env \<Rightarrow> ContentMetaContext \<Rightarrow> NcaContext \<Rightarrow> bool \<Rightarrow> bytes \<Rightarrow> nat \<Rightarrow> nat \<Rightarrow> nat \<Rightarrow> call list
     \<Rightarrow> failure + ContentMetaContext \<times> NcaContext \<times> bytes \<times> nat \<times> call list" where
  "stream_blocks env cnmt cur dirty_header sha256_ctx blksize offset nsp_off tr =
     (if offset < content_size cur \<and> 0 < blksize
      then
       (case e_ncaReadContentFile env cur (next_blksize cur offset blksize) offset of
          None \<Rightarrow> Inl (''nca read failed'', tr)
        | Some buf \<Rightarrow>
          (case patched env cnmt cur dirty_header buf (next_blksize cur offset blksize) offset of
             (buf1, cnmt1, cur1, dirty1) \<Rightarrow>
               if \<not> e_usb env tr (UsbSendFileData buf1 (next_blksize cur offset blksize))
               then Inl (''send file data failed'',
                         tr @ [UsbSendFileData buf1 (next_blksize cur offset blksize)])
               else stream_blocks env cnmt1 cur1 dirty1
                      (sha256ContextUpdate sha256_ctx buf1 (next_blksize cur offset blksize))
                      (next_blksize cur offset blksize)
                      (offset + next_blksize cur offset blksize)
                      (nsp_off + next_blksize cur offset blksize)
                      (tr @ [UsbSendFileData buf1 (next_blksize cur offset blksize)])))
      else Inr (cnmt, cur, sha256_ctx, nsp_off, tr))"
  by pat_completeness auto
termination stream_blocks
  by (relation "measure (\<lambda>(env, cnmt, cur, dirty, sha, blksize, offset, nsp_off, tr). content_size cur - offset)")
     (auto simp: next_blksize_def split: if_splits dest: patched_content_size[OF sym])

text \<open>Lines 489-493: the patch of the meta unit is generated and its header
  encrypted again just before the unit is streamed.\<close>

definition prepare_nca ::
  "env \<Rightarrow> nat \<Rightarrow> ContentMetaContext \<Rightarrow> NcaContext \<Rightarrow> call list
     \<Rightarrow> failure + ContentMetaContext \<times> NcaContext \<times> call list" where
  "prepare_nca env i cnmt cur tr =
     (if content_type cur = NcmContentType_Meta
      then (case e_cnmtGenerateNcaPatch env cnmt cur of
              None \<Rightarrow> Inl (''cnmt generate patch failed'', tr @ [CnmtGenerateNcaPatch])
            | Some (cnmt', patch, r) \<Rightarrow>
              (case e_ncaEncryptHeader env (cur\<lparr>content_type_ctx_patch := patch, nca_rest := r\<rparr>) of
                 None \<Rightarrow> Inl (''cnmt generate patch failed'', tr @ [CnmtGenerateNcaPatch, NcaEncryptHeader i])
               | Some r' \<Rightarrow>
                   Inr (cnmt', cur\<lparr>content_type_ctx_patch := patch, nca_rest := r'\<rparr>,
                        tr @ [CnmtGenerateNcaPatch, NcaEncryptHeader i])))
      else Inr (cnmt, cur, tr))"

text \<open>Lines 481-578: one iteration of the loop that writes the units.\<close>

definition write_nca :: "env \<Rightarrow> dump_state \<Rightarrow> nat \<Rightarrow> failure + dump_state" where
  "write_nca env s i =
     (case prepare_nca env i (cnmt_ctx s) (nca_ctx s ! i) (trace s) of
        Inl e \<Rightarrow> Inl e
      | Inr (cnmt1, cur1, tr1) \<Rightarrow>
        (let dirty_header = e_ncaIsHeaderDirty env cur1;
             tmp_name = pfsGetEntryNameByIndexFromFileContext (pfs_file_ctx s) i;
             c = UsbSendFilePropertiesCommon (content_size cur1) tmp_name in
         if \<not> e_usb env tr1 c then Inl (''usb send file properties failed'', tr1 @ [c])
         else
          (case stream_blocks env cnmt1 cur1 dirty_header sha256ContextCreate BLOCK_SIZE 0
                  (nsp_offset s) (tr1 @ [c]) of
             Inl e \<Rightarrow> Inl e
           | Inr (cnmt2, cur2, sha256_ctx, nsp_off, tr) \<Rightarrow>
             (let sha256_hash = sha256ContextGetHash env sha256_ctx;
                  tr' = tr @ [NcaUpdateContentIdAndHash i sha256_hash];
                  cur3 = (case e_ncaUpdateContentIdAndHash env cur2 sha256_hash of
                            (cid, r) \<Rightarrow> cur2\<lparr>content_id_str := cid, nca_rest := r\<rparr>) in
              case e_cnmtUpdateContentInfo env cnmt2 cur3 of
                None \<Rightarrow> Inl (''cnmt update content info failed'', tr')
              | Some cnmt3 \<Rightarrow>
                (case pfsUpdateEntryNameFromFileContext (pfs_file_ctx s) i (content_id_str cur3) of
                   None \<Rightarrow> Inl (''pfs update entry name failed for nca'', tr')
                 | Some pfs \<Rightarrow>
                     Inr (s\<lparr>nca_ctx := (nca_ctx s)[i := cur3], cnmt_ctx := cnmt3,
                            pfs_file_ctx := pfs, nsp_offset := nsp_off, trace := tr'\<rparr>))))))"

text \<open>The pattern \<^verbatim>\<open>!usbSendFilePropertiesCommon(size, name) || !usbSendFileData(data, size)\<close>.\<close>

definition send_entry ::
  "env \<Rightarrow> nat \<Rightarrow> string option \<Rightarrow> bytes \<Rightarrow> dump_state \<Rightarrow> failure + dump_state" where
  "send_entry env entry_size tmp_name entry_data s =
     (let c1 = UsbSendFilePropertiesCommon entry_size tmp_name;
          c2 = UsbSendFileData entry_data entry_size in
      if \<not> e_usb env (trace s) c1 then Inl (''send failed'', trace s @ [c1])
      else if \<not> e_usb env (trace s @ [c1]) c2 then Inl (''send failed'', trace s @ [c1, c2])
      else Inr (s\<lparr>trace := trace s @ [c1, c2]\<rparr>))"

text \<open>The pattern: send an entry, advance \<^verbatim>\<open>nsp_offset\<close>, then put the unit's
  identifier into the entry's name.\<close>

definition send_and_rename ::
  "env \<Rightarrow> nat \<Rightarrow> nat \<Rightarrow> bytes \<Rightarrow> string \<Rightarrow> string \<Rightarrow> dump_state \<Rightarrow> failure + dump_state" where
  "send_and_rename env data_idx entry_size entry_data cid label s =
     (case send_entry env entry_size
             (pfsGetEntryNameByIndexFromFileContext (pfs_file_ctx s) data_idx) entry_data s of
        Inl e \<Rightarrow> Inl e
      | Inr s1 \<Rightarrow>
        (case pfsUpdateEntryNameFromFileContext (pfs_file_ctx s1) data_idx cid of
           None \<Rightarrow> Inl (label, trace s1)
         | Some pfs \<Rightarrow> Inr (s1\<lparr>nsp_offset := nsp_offset s1 + entry_size, pfs_file_ctx := pfs\<rparr>)))"

text \<open>Lines 580-602: the title-meta XML is generated again and sent.\<close>

definition write_cnmt_xml :: "env \<Rightarrow> TitleInfo \<Rightarrow> dump_state \<Rightarrow> failure + dump_state" where
  "write_cnmt_xml env title_info s =
     (case generate_cnmt_xml env title_info ''cnmt xml #2 failed'' s of
        Inl e \<Rightarrow> Inl e
      | Inr s1 \<Rightarrow>
        (let meta_nca_ctx = nca_ctx s1 ! (content_count title_info - 1) in
         send_and_rename env (content_type_ctx_data_idx meta_nca_ctx)
           (authoring_tool_xml_size (cnmt_ctx s1)) (authoring_tool_xml (cnmt_ctx s1))
           (content_id_str meta_nca_ctx) ''pfs update entry name cnmt xml failed'' s1))"

text \<open>Lines 630-650: the icons of a control unit; \<^verbatim>\<open>data_idx\<close> is the first
  component of the loop state.\<close>

definition write_icon ::
  "env \<Rightarrow> string \<Rightarrow> nat \<times> dump_state \<Rightarrow> NacpIconContext \<Rightarrow> failure + nat \<times> dump_state" where
  "write_icon env cid ds icon =
     (case ds of (data_idx, s) \<Rightarrow>
       (case send_and_rename env data_idx (icon_size icon) (icon_data icon) cid
               ''pfs update entry name failed for icon'' s of
          Inl e \<Rightarrow> Inl e
        | Inr s' \<Rightarrow> Inr (data_idx + 1, s')))"

text \<open>Lines 605-681: one iteration of the loop that writes the data of the
  metadata contexts.\<close>

definition write_ctx_data :: "env \<Rightarrow> dump_state \<Rightarrow> nat \<Rightarrow> failure + dump_state" where
  "write_ctx_data env s i =
     (let cur = nca_ctx s ! i in
      case content_type_ctx cur of
        None \<Rightarrow> Inr s
      | Some tc \<Rightarrow>
        (case (case content_type cur of
                 NcmContentType_Program \<Rightarrow>
                   (case tc of
                      ProgramInfoCtx p \<Rightarrow>
                        Inr (pi_authoring_tool_xml p, pi_authoring_tool_xml_size p,
                             content_type_ctx_data_idx cur, s)
                    | _ \<Rightarrow> Inl (bad_cast, trace s))
               | NcmContentType_Control \<Rightarrow>
                   (case tc of
                      NacpCtx n \<Rightarrow>
                        (case for_each (write_icon env (content_id_str cur)) (icon_ctx n)
                                (content_type_ctx_data_idx cur, s) of
                           Inl e \<Rightarrow> Inl e
                         | Inr (data_idx, s') \<Rightarrow>
                             Inr (nacp_authoring_tool_xml n, nacp_authoring_tool_xml_size n, data_idx, s'))
                    | _ \<Rightarrow> Inl (bad_cast, trace s))
               | NcmContentType_LegalInformation \<Rightarrow>
                   (case tc of
                      LegalInfoCtx l \<Rightarrow>
                        Inr (li_authoring_tool_xml l, li_authoring_tool_xml_size l,
                             content_type_ctx_data_idx cur, s)
                    | _ \<Rightarrow> Inl (bad_cast, trace s))
               | _ \<Rightarrow> Inr ([], 0, content_type_ctx_data_idx cur, s)) of
           Inl e \<Rightarrow> Inl e
         | Inr (xml, xml_size, data_idx, s1) \<Rightarrow>
             send_and_rename env data_idx xml_size xml (content_id_str cur)
               ''pfs update entry name failed for xml'' s1))"

text \<open>Lines 683-704: the ticket and the certificate chain are the last two
  entries.\<close>

definition write_tik_cert :: "env \<Rightarrow> dump_state \<Rightarrow> failure + dump_state" where
  "write_tik_cert env s =
     (if retrieve_tik_cert s
      then (case send_entry env (tik_size (tik s))
                   (pfsGetEntryNameByIndexFromFileContext (pfs_file_ctx s) (entry_count (pfs_file_ctx s) - 2))
                   (tik_data (tik s)) s of
              Inl e \<Rightarrow> Inl e
            | Inr s1 \<Rightarrow>
              (case send_entry env (raw_cert_chain_size s1)
                      (pfsGetEntryNameByIndexFromFileContext (pfs_file_ctx s1) (entry_count (pfs_file_ctx s1) - 1))
                      (raw_cert_chain s1) (s1\<lparr>nsp_offset := nsp_offset s1 + tik_size (tik s1)\<rparr>) of
                 Inl e \<Rightarrow> Inl e
               | Inr s2 \<Rightarrow> Inr (s2\<lparr>nsp_offset := nsp_offset s2 + raw_cert_chain_size s2\<rparr>)))
      else Inr s)"

text \<open>Lines 706-717: the header is written again, with the final names, and
  sent.\<close>

definition write_header_2 :: "env \<Rightarrow> dump_state \<Rightarrow> failure + dump_state" where
  "write_header_2 env s =
     (case pfsWriteFileContextHeaderToMemoryBuffer env (pfs_file_ctx s) BLOCK_SIZE of
        None \<Rightarrow> Inl (''pfs write header to mem #2 failed'', trace s)
      | Some (buf, header_size) \<Rightarrow>
        (let c = UsbSendNspHeader buf (header_size mod 2 ^ 32) in
         if \<not> e_usb env (trace s) c then Inl (''send nsp header failed'', trace s @ [c])
         else Inr (s\<lparr>nsp_header_size := header_size, trace := trace s @ [c]\<rparr>)))"

text \<open>Lines 480-704: everything that is streamed before the final header.\<close>

definition stream :: "env \<Rightarrow> TitleInfo \<Rightarrow> dump_state \<Rightarrow> failure + dump_state" where
  "stream env title_info =
     steps [for_each (write_nca env) [0..<content_count title_info],
            write_cnmt_xml env title_info,
            for_each (write_ctx_data env) [0..<content_count title_info - 1],
            write_tik_cert env]"

subsection \<open>The dump routine\<close>

text \<open>\<^verbatim>\<open>nspDump\<close>. The routine returns at once, printing nothing, for a title
  without content.\<close>

definition nspDump :: "env \<Rightarrow> options \<Rightarrow> TitleInfo \<Rightarrow> failure + dump_state" where
  "nspDump env opts title_info =
     (if content_infos title_info = [] then Inl ([], [])
      else case allocate env title_info of
        Inl e \<Rightarrow> Inl e
      | Inr s \<Rightarrow>
          steps [layout env opts title_info,
                 connect env,
                 send_file_properties env,
                 stream env title_info,
                 write_header_2 env] s)"

section \<open>Properties\<close>

declare stream_blocks.simps [simp del]
declare usb_wait.simps [simp del]

subsection \<open>Loops with an early exit\<close>

lemma steps_Nil [simp]: "steps [] s = Inr s"
  by (simp add: steps_def)

lemma steps_Cons [simp]:
  "steps (f # fs) s = (case f s of Inl e \<Rightarrow> Inl e | Inr s' \<Rightarrow> steps fs s')"
  by (simp add: steps_def split: sum.splits)

lemma for_each_append:
  "for_each f (xs @ ys) s = (case for_each f xs s of Inl e \<Rightarrow> Inl e | Inr s' \<Rightarrow> for_each f ys s')"
  by (induction xs arbitrary: s) (auto split: sum.splits)

lemma for_each_inv:
  assumes "for_each f xs s = Inr s'" and "P s"
    and "\<And>s x s'. x \<in> set xs \<Longrightarrow> P s \<Longrightarrow> f s x = Inr s' \<Longrightarrow> P s'"
  shows "P s'"
  using assms
proof (induction xs arbitrary: s)
  case Nil
  then show ?case by simp
next
  case (Cons x xs)
  from Cons.prems(1) obtain s1 where s1: "f s x = Inr s1" and rest: "for_each f xs s1 = Inr s'"
    by (cases "f s x") auto
  have p1: "P s1" using Cons.prems(3)[of x s s1] Cons.prems(2) s1 by simp
  show ?case
  proof (rule Cons.IH[OF rest p1])
    fix t y t'
    assume "y \<in> set xs" "P t" "f t y = Inr t'"
    then show "P t'" using Cons.prems(3)[of y t t'] by simp
  qed
qed

lemma for_each_inv_fail:
  assumes "for_each f xs s = Inl e" and "P s"
    and "\<And>s x s'. x \<in> set xs \<Longrightarrow> P s \<Longrightarrow> f s x = Inr s' \<Longrightarrow> P s'"
    and "\<And>s x e. x \<in> set xs \<Longrightarrow> P s \<Longrightarrow> f s x = Inl e \<Longrightarrow> Q e"
  shows "Q e"
  using assms
proof (induction xs arbitrary: s)
  case Nil
  then show ?case by simp
next
  case (Cons x xs)
  show ?case
  proof (cases "f s x")
    case (Inl e')
    with Cons.prems(1) have "e' = e" by simp
    with Inl Cons.prems(2) Cons.prems(4)[of x s e] show ?thesis by simp
  next
    case (Inr s1)
    with Cons.prems(1) have rest: "for_each f xs s1 = Inl e" by simp
    have s1: "P s1" using Cons.prems(3)[of x s s1] Cons.prems(2) Inr by simp
    show ?thesis
    proof (rule Cons.IH[OF rest s1])
      fix t y t'
      assume "y \<in> set xs" "P t" "f t y = Inr t'"
      then show "P t'" using Cons.prems(3)[of y t t'] by simp
    next
      fix t y e'
      assume "y \<in> set xs" "P t" "f t y = Inl e'"
      then show "Q e'" using Cons.prems(4)[of y t e'] by simp
    qed
  qed
qed

subsection \<open>The bytes a unit sends and the bytes it hashes\<close>

text \<open>What the claim says of one block, written from its words over the
  collaborators and not over \<^verbatim>\<open>patch_block\<close>: the re-encrypted header bytes are
  written into the block unless the header is already written; then the patch
  of the unit's content type, when one is pending, is written into what the
  header left.\<close>

definition header_bytes_written ::
  "env \<Rightarrow> NcaContext \<Rightarrow> bytes \<Rightarrow> nat \<Rightarrow> nat \<Rightarrow> bytes \<times> NcaContext" where
  "header_bytes_written env cur buf n offset =
     (if header_written cur then (buf, cur)
      else (case e_ncaWriteEncryptedHeaderDataToMemoryBuffer env cur buf n offset of
              (b, hw, r) \<Rightarrow> (b, cur\<lparr>header_written := hw, nca_rest := r\<rparr>)))"

definition patch_bytes_written ::
  "env \<Rightarrow> ContentMetaContext \<Rightarrow> NcaContext \<Rightarrow> bytes \<Rightarrow> nat \<Rightarrow> nat
     \<Rightarrow> bytes \<times> ContentMetaContext \<times> NcaContext" where
  "patch_bytes_written env cnmt cur buf n offset =
     (if content_type_ctx_patch cur \<and> content_type cur = NcmContentType_Meta
      then (case e_cnmtWriteNcaPatch env cnmt cur buf n offset of
              (b, cnmt', patch, r) \<Rightarrow>
                (b, cnmt', cur\<lparr>content_type_ctx_patch := patch, nca_rest := r\<rparr>))
      else if content_type_ctx_patch cur \<and> content_type cur = NcmContentType_Program
      then (case content_type_ctx cur of
              Some (ProgramInfoCtx p) \<Rightarrow>
                (case e_programInfoWriteNcaPatch env p cur buf n offset of
                   (b, p', patch, r) \<Rightarrow>
                     (b, cnmt, cur\<lparr>content_type_ctx := Some (ProgramInfoCtx p'),
                                    content_type_ctx_patch := patch, nca_rest := r\<rparr>))
            | _ \<Rightarrow> (buf, cnmt, cur))
      else (buf, cnmt, cur))"

text \<open>The bytes of one block as they must be hashed and sent, with the state
  the next block starts from: a unit that is not dirty keeps the bytes read; a
  dirty one gets the header bytes, then the patch bytes, and stays dirty while
  its header is not written or a patch is pending.\<close>

definition final_block ::
  "env \<Rightarrow> ContentMetaContext \<Rightarrow> NcaContext \<Rightarrow> bool \<Rightarrow> bytes \<Rightarrow> nat \<Rightarrow> nat
     \<Rightarrow> bytes \<times> ContentMetaContext \<times> NcaContext \<times> bool" where
  "final_block env cnmt cur dirty buf n offset =
     (if dirty
      then (case header_bytes_written env cur buf n offset of
              (b1, cur1) \<Rightarrow>
                (case patch_bytes_written env cnmt cur1 b1 n offset of
                   (b2, cnmt2, cur2) \<Rightarrow>
                     (b2, cnmt2, cur2, \<not> header_written cur2 \<or> content_type_ctx_patch cur2)))
      else (buf, cnmt, cur, False))"

lemma final_block_content_size:
  "final_block env cnmt cur dirty buf n offset = (b, cnmt', cur', dirty') \<Longrightarrow>
   content_size cur' = content_size cur"
  by (auto simp: final_block_def header_bytes_written_def patch_bytes_written_def
           split: if_splits prod.splits option.splits type_ctx.splits)

text \<open>The blocks of a unit as the claim has them, from \<^verbatim>\<open>offset\<close> on: blocks of
  \<^verbatim>\<open>blksize\<close> bytes and a shorter last one, each read at its offset and
  finished by \<^verbatim>\<open>final_block\<close>. \<^verbatim>\<open>None\<close> when a block cannot be read.\<close>

function final_blocks ::
  "env \<Rightarrow> ContentMetaContext \<Rightarrow> NcaContext \<Rightarrow> bool \<Rightarrow> nat \<Rightarrow> nat \<Rightarrow> (bytes \<times> nat) list option" where
  "final_blocks env cnmt cur dirty blksize offset =
     (if offset < content_size cur \<and> 0 < blksize
      then
       (case e_ncaReadContentFile env cur (min blksize (content_size cur - offset)) offset of
          None \<Rightarrow> None
        | Some buf \<Rightarrow>
          (case final_block env cnmt cur dirty buf (min blksize (content_size cur - offset)) offset of
             (b, cnmt1, cur1, dirty1) \<Rightarrow>
               (case final_blocks env cnmt1 cur1 dirty1 blksize
                       (offset + min blksize (content_size cur - offset)) of
                  None \<Rightarrow> None
                | Some bs \<Rightarrow> Some ((b, min blksize (content_size cur - offset)) # bs))))
      else Some [])"
  by pat_completeness auto
termination final_blocks
  by (relation "measure (\<lambda>(env, cnmt, cur, dirty, blksize, offset). content_size cur - offset)")
     (auto dest: final_block_content_size[OF sym])

declare final_blocks.simps [simp del]

definition send_block :: "bytes \<times> nat \<Rightarrow> call" where
  "send_block bn = UsbSendFileData (fst bn) (snd bn)"

text \<open>\<^verbatim>\<open>usbSendFileData(buf, n)\<close> forwards the first \<open>n\<close> bytes of \<open>buf\<close>, and
  \<^verbatim>\<open>sha256ContextUpdate(ctx, buf, n)\<close> absorbs the same.\<close>

definition block_bytes :: "bytes \<times> nat \<Rightarrow> bytes" where
  "block_bytes bn = take (snd bn) (fst bn)"

lemma block_simps [simp]:
  "send_block (b, n) = UsbSendFileData b n"
  "block_bytes (b, n) = take n b"
  by (simp_all add: send_block_def block_bytes_def)

lemma patched_final_block:
  "patched env cnmt cur dirty buf n offset = final_block env cnmt cur dirty buf n offset"
  by (auto simp: patched_def patch_block_def final_block_def header_bytes_written_def
                 patch_bytes_written_def Let_def
           split: prod.splits NcmContentType.splits option.splits type_ctx.splits)

lemma next_blksize_min: "next_blksize cur offset blksize = min blksize (content_size cur - offset)"
  by (simp add: next_blksize_def min_def)

lemma final_blocks_done:
  "\<not> (offset < content_size cur \<and> 0 < blksize) \<Longrightarrow> final_blocks env cnmt cur dirty blksize offset = Some []"
  by (subst final_blocks.simps) auto

lemma final_blocks_step:
  "offset < content_size cur \<Longrightarrow> 0 < blksize \<Longrightarrow>
   e_ncaReadContentFile env cur (min blksize (content_size cur - offset)) offset = Some buf \<Longrightarrow>
   final_block env cnmt cur dirty buf (min blksize (content_size cur - offset)) offset = (b, cnmt1, cur1, dirty1) \<Longrightarrow>
   final_blocks env cnmt cur dirty blksize offset =
     (case final_blocks env cnmt1 cur1 dirty1 blksize (offset + min blksize (content_size cur - offset)) of
        None \<Rightarrow> None
      | Some bs \<Rightarrow> Some ((b, min blksize (content_size cur - offset)) # bs))"
  by (subst final_blocks.simps) simp

text \<open>The block size is lowered once, for the last block, after which the loop
  ends: a lowered size and the full one give the same remaining blocks.\<close>

lemma final_blocks_lowered:
  assumes "offset < content_size cur" and "0 < blksize" and "content_size cur1 = content_size cur"
  shows "final_blocks env cnmt1 cur1 dirty1 (min blksize (content_size cur - offset))
           (offset + min blksize (content_size cur - offset))
       = final_blocks env cnmt1 cur1 dirty1 blksize (offset + min blksize (content_size cur - offset))"
proof (cases "blksize \<le> content_size cur - offset")
  case True
  then show ?thesis by (simp add: min_def)
next
  case False
  then have "\<not> offset + min blksize (content_size cur - offset) < content_size cur1"
    using assms by (simp add: min_def)
  then show ?thesis
    by (simp add: final_blocks_done)
qed

lemma stream_blocks_done:
  "\<not> (offset < content_size cur \<and> 0 < blksize) \<Longrightarrow>
   stream_blocks env cnmt cur dirty sha blksize offset nsp_off tr = Inr (cnmt, cur, sha, nsp_off, tr)"
  by (subst stream_blocks.simps) auto

lemma stream_blocks_read_failed:
  "offset < content_size cur \<Longrightarrow> 0 < blksize \<Longrightarrow>
   e_ncaReadContentFile env cur (next_blksize cur offset blksize) offset = None \<Longrightarrow>
   stream_blocks env cnmt cur dirty sha blksize offset nsp_off tr = Inl (''nca read failed'', tr)"
  by (subst stream_blocks.simps) simp

lemma stream_blocks_step:
  "offset < content_size cur \<Longrightarrow> 0 < blksize \<Longrightarrow>
   e_ncaReadContentFile env cur (next_blksize cur offset blksize) offset = Some buf \<Longrightarrow>
   patched env cnmt cur dirty buf (next_blksize cur offset blksize) offset = (buf1, cnmt1, cur1, dirty1) \<Longrightarrow>
   stream_blocks env cnmt cur dirty sha blksize offset nsp_off tr =
     (if \<not> e_usb env tr (UsbSendFileData buf1 (next_blksize cur offset blksize))
      then Inl (''send file data failed'', tr @ [UsbSendFileData buf1 (next_blksize cur offset blksize)])
      else stream_blocks env cnmt1 cur1 dirty1 (sha256ContextUpdate sha buf1 (next_blksize cur offset blksize))
             (next_blksize cur offset blksize) (offset + next_blksize cur offset blksize)
             (nsp_off + next_blksize cur offset blksize)
             (tr @ [UsbSendFileData buf1 (next_blksize cur offset blksize)]))"
  by (subst stream_blocks.simps) simp

lemma next_blksize_pos:
  "offset < content_size cur \<Longrightarrow> 0 < blksize \<Longrightarrow> 0 < next_blksize cur offset blksize"
  by (simp add: next_blksize_def)

lemma next_blksize_le: "next_blksize cur offset blksize \<le> content_size cur - offset"
  by (simp add: next_blksize_def)

text \<open>The invariant of the block loop: the transport has received, and the
  hash context has absorbed, exactly the finished blocks, in order.\<close>

lemma stream_blocks_sends:
  "stream_blocks env cnmt cur dirty sha blksize offset nsp_off tr = Inr (cnmt', cur', sha', nsp_off', tr') \<Longrightarrow>
   0 < blksize \<Longrightarrow>
   \<exists>blocks. final_blocks env cnmt cur dirty blksize offset = Some blocks
      \<and> tr' = tr @ map send_block blocks
      \<and> sha' = sha @ concat (map block_bytes blocks)
      \<and> sum_list (map snd blocks) = content_size cur - offset
      \<and> nsp_off' = nsp_off + (content_size cur - offset)
      \<and> content_size cur' = content_size cur"
proof (induction env cnmt cur dirty sha blksize offset nsp_off tr rule: stream_blocks.induct)
  case (1 env cnmt cur dirty sha blksize offset nsp_off tr)
  show ?case
  proof (cases "offset < content_size cur \<and> 0 < blksize")
    case False
    with "1.prems" show ?thesis
      by (auto simp: stream_blocks_done final_blocks_done)
  next
    case True
    let ?n = "next_blksize cur offset blksize"
    have n: "?n = min blksize (content_size cur - offset)"
      by (rule next_blksize_min)
    from True "1.prems"(1) obtain buf where rd: "e_ncaReadContentFile env cur ?n offset = Some buf"
      by (cases "e_ncaReadContentFile env cur ?n offset") (simp_all add: stream_blocks_read_failed)
    obtain buf1 cnmt1 cur1 dirty1 where pb: "patched env cnmt cur dirty buf ?n offset = (buf1, cnmt1, cur1, dirty1)"
      by (cases "patched env cnmt cur dirty buf ?n offset") auto
    have sz: "content_size cur1 = content_size cur"
      using pb by (rule patched_content_size)
    have pos1: "0 < ?n" using True by (simp add: next_blksize_pos)
    from "1.prems"(1) have rec: "stream_blocks env cnmt1 cur1 dirty1 (sha256ContextUpdate sha buf1 ?n) ?n
                  (offset + ?n) (nsp_off + ?n) (tr @ [UsbSendFileData buf1 ?n])
                = Inr (cnmt', cur', sha', nsp_off', tr')"
      and ok: "e_usb env tr (UsbSendFileData buf1 ?n)"
      using True rd pb by (simp_all add: stream_blocks_step[OF _ _ rd pb] split: if_splits)
    have "\<exists>blocks. final_blocks env cnmt1 cur1 dirty1 ?n (offset + ?n) = Some blocks \<and>
            tr' = (tr @ [UsbSendFileData buf1 ?n]) @ map send_block blocks \<and>
            sha' = sha256ContextUpdate sha buf1 ?n @ concat (map block_bytes blocks) \<and>
            sum_list (map snd blocks) = content_size cur1 - (offset + ?n) \<and>
            nsp_off' = nsp_off + ?n + (content_size cur1 - (offset + ?n)) \<and>
            content_size cur' = content_size cur1"
    proof (rule "1.IH"[OF True rd pb[symmetric] refl refl _ rec pos1])
      show "\<not> \<not> e_usb env tr (UsbSendFileData buf1 ?n)"
        using ok by simp
    qed
    then obtain blocks where b: "final_blocks env cnmt1 cur1 dirty1 ?n (offset + ?n) = Some blocks"
      "tr' = (tr @ [UsbSendFileData buf1 ?n]) @ map send_block blocks"
      "sha' = sha256ContextUpdate sha buf1 ?n @ concat (map block_bytes blocks)"
      "sum_list (map snd blocks) = content_size cur1 - (offset + ?n)"
      "nsp_off' = nsp_off + ?n + (content_size cur1 - (offset + ?n))"
      "content_size cur' = content_size cur1"
      by blast
    have le: "?n \<le> content_size cur - offset" by (rule next_blksize_le)
    have rest: "final_blocks env cnmt1 cur1 dirty1 blksize (offset + ?n) = Some blocks"
      using final_blocks_lowered[of offset cur blksize cur1 env cnmt1 dirty1] True sz b(1)
      by (simp add: n)
    have rd': "e_ncaReadContentFile env cur (min blksize (content_size cur - offset)) offset = Some buf"
      using rd by (simp add: n)
    have fb: "final_block env cnmt cur dirty buf (min blksize (content_size cur - offset)) offset
                = (buf1, cnmt1, cur1, dirty1)"
      using pb by (simp add: n patched_final_block)
    have all: "final_blocks env cnmt cur dirty blksize offset = Some ((buf1, ?n) # blocks)"
      using final_blocks_step[OF _ _ rd' fb] True rest by (simp add: n)
    have sum: "?n + (content_size cur - (offset + ?n)) = content_size cur - offset"
      using le True by arith
    have off: "nsp_off + ?n + (content_size cur - (offset + ?n)) = nsp_off + (content_size cur - offset)"
      using le True by arith
    show ?thesis
      apply (rule exI[of _ "(buf1, ?n) # blocks"])
      using b sz all sum off
      by (simp add: sha256ContextUpdate_def)
  qed
qed

lemma prepare_nca_content_size:
  "prepare_nca env i cnmt cur tr = Inr (cnmt1, cur1, tr1) \<Longrightarrow> content_size cur1 = content_size cur"
  by (auto simp: prepare_nca_def split: if_splits option.splits)

text \<open>
  C1. Part 1, the block loop of lines 504-557, for any positive block size: when
  the loop ends, the calls it has added to the trace are the sends of the
  finished blocks of the unit, in order, and the hash context has absorbed the
  bytes of the same blocks. A finished block is the block read with the
  re-encrypted header bytes and then the pending content-type patch written
  into it by the collaborators, so it is the patched bytes that are hashed and
  sent. Part 2, one iteration of the loop of lines 481-578: the trace is
  extended by the preparation of the meta unit, the announce of the unit, the
  sends of its finished blocks and the finalization; the hash handed to
  \<^verbatim>\<open>ncaUpdateContentIdAndHash\<close> is the digest of the concatenation of the bytes
  of exactly these blocks; the blocks cover the unit's size; and the unit's
  final identifier is the one derived from that hash.
\<close>

theorem content_id_is_hash_of_patched_bytes_sent:
  "(\<forall>cnmt cur dirty sha blksize offset nsp_off tr cnmt' cur' sha' nsp_off' tr'.
      stream_blocks env cnmt cur dirty sha blksize offset nsp_off tr = Inr (cnmt', cur', sha', nsp_off', tr')
      \<and> 0 < blksize \<longrightarrow>
      (\<exists>blocks. final_blocks env cnmt cur dirty blksize offset = Some blocks
         \<and> tr' = tr @ map send_block blocks
         \<and> sha' = sha @ concat (map block_bytes blocks)))
   \<and> (\<forall>s i s'. write_nca env s i = Inr s' \<and> i < length (nca_ctx s) \<longrightarrow>
       (\<exists>cnmt1 cur1 tr1 blocks cur2.
           prepare_nca env i (cnmt_ctx s) (nca_ctx s ! i) (trace s) = Inr (cnmt1, cur1, tr1)
         \<and> final_blocks env cnmt1 cur1 (e_ncaIsHeaderDirty env cur1) BLOCK_SIZE 0 = Some blocks
         \<and> trace s' = tr1 @ [UsbSendFilePropertiesCommon (content_size (nca_ctx s ! i))
                                (pfsGetEntryNameByIndexFromFileContext (pfs_file_ctx s) i)]
                        @ map send_block blocks
                        @ [NcaUpdateContentIdAndHash i (e_sha256 env (concat (map block_bytes blocks)))]
         \<and> sum_list (map snd blocks) = content_size (nca_ctx s ! i)
         \<and> content_id_str (nca_ctx s' ! i)
             = fst (e_ncaUpdateContentIdAndHash env cur2 (e_sha256 env (concat (map block_bytes blocks))))))"
proof (intro conjI allI impI)
  fix cnmt cur dirty sha blksize offset nsp_off tr cnmt' cur' sha' nsp_off' tr'
  assume "stream_blocks env cnmt cur dirty sha blksize offset nsp_off tr = Inr (cnmt', cur', sha', nsp_off', tr')
      \<and> 0 < blksize"
  then have sb: "stream_blocks env cnmt cur dirty sha blksize offset nsp_off tr = Inr (cnmt', cur', sha', nsp_off', tr')"
    and pos: "0 < blksize"
    by simp_all
  from stream_blocks_sends[OF sb pos]
  show "\<exists>blocks. final_blocks env cnmt cur dirty blksize offset = Some blocks
         \<and> tr' = tr @ map send_block blocks
         \<and> sha' = sha @ concat (map block_bytes blocks)"
    by blast
next
  fix s i s'
  assume a: "write_nca env s i = Inr s' \<and> i < length (nca_ctx s)"
  then have run: "write_nca env s i = Inr s'" and i: "i < length (nca_ctx s)"
    by simp_all
  let ?cur = "nca_ctx s ! i"
  from run obtain cnmt1 cur1 tr1 where prep: "prepare_nca env i (cnmt_ctx s) ?cur (trace s) = Inr (cnmt1, cur1, tr1)"
    by (cases "prepare_nca env i (cnmt_ctx s) ?cur (trace s)") (auto simp: write_nca_def)
  have sz1: "content_size cur1 = content_size ?cur"
    using prep by (rule prepare_nca_content_size)
  let ?name = "pfsGetEntryNameByIndexFromFileContext (pfs_file_ctx s) i"
  let ?c = "UsbSendFilePropertiesCommon (content_size cur1) ?name"
  from run prep obtain cnmt2 cur2 sha nsp_off tr2 where
    sb: "stream_blocks env cnmt1 cur1 (e_ncaIsHeaderDirty env cur1) sha256ContextCreate BLOCK_SIZE 0
           (nsp_offset s) (tr1 @ [?c]) = Inr (cnmt2, cur2, sha, nsp_off, tr2)"
    by (cases "stream_blocks env cnmt1 cur1 (e_ncaIsHeaderDirty env cur1) sha256ContextCreate BLOCK_SIZE 0
           (nsp_offset s) (tr1 @ [?c])")
       (auto simp: write_nca_def Let_def split: if_splits)
  have "0 < BLOCK_SIZE" by (simp add: BLOCK_SIZE_def)
  from stream_blocks_sends[OF sb this] obtain blocks where
    fb: "final_blocks env cnmt1 cur1 (e_ncaIsHeaderDirty env cur1) BLOCK_SIZE 0 = Some blocks"
    and tr2: "tr2 = (tr1 @ [?c]) @ map send_block blocks"
    and sha: "sha = sha256ContextCreate @ concat (map block_bytes blocks)"
    and total: "sum_list (map snd blocks) = content_size cur1 - 0"
    by blast
  from run prep sb i have
    "trace s' = tr2 @ [NcaUpdateContentIdAndHash i (sha256ContextGetHash env sha)]"
    "content_id_str (nca_ctx s' ! i) = fst (e_ncaUpdateContentIdAndHash env cur2 (sha256ContextGetHash env sha))"
    by (auto simp: write_nca_def Let_def split: if_splits option.splits prod.splits)
  with prep fb tr2 sha sz1 total
  show "\<exists>cnmt1 cur1 tr1 blocks cur2.
           prepare_nca env i (cnmt_ctx s) (nca_ctx s ! i) (trace s) = Inr (cnmt1, cur1, tr1)
         \<and> final_blocks env cnmt1 cur1 (e_ncaIsHeaderDirty env cur1) BLOCK_SIZE 0 = Some blocks
         \<and> trace s' = tr1 @ [UsbSendFilePropertiesCommon (content_size (nca_ctx s ! i))
                                (pfsGetEntryNameByIndexFromFileContext (pfs_file_ctx s) i)]
                        @ map send_block blocks
                        @ [NcaUpdateContentIdAndHash i (e_sha256 env (concat (map block_bytes blocks)))]
         \<and> sum_list (map snd blocks) = content_size (nca_ctx s ! i)
         \<and> content_id_str (nca_ctx s' ! i)
             = fst (e_ncaUpdateContentIdAndHash env cur2 (e_sha256 env (concat (map block_bytes blocks))))"
    by (auto simp: sha256ContextGetHash_def sha256ContextCreate_def)
qed


subsection \<open>A small title\<close>

text \<open>
  A title on the SD card with one program unit and its meta unit, of three bytes
  each, and collaborators that always succeed. The unit whose descriptor holds
  the byte 3 comes with a personalized ticket; the one whose descriptor holds the
  byte 4 has a rights identifier and no title key. Reading a unit gives bytes 5;
  the re-encrypted header puts 6 in the first byte of a block and the patch of
  the meta unit puts 8 in the second. The digest of a stream is the stream.
\<close>

definition demo_meta :: NcmContentInfo where
  "demo_meta = \<lparr>ci_content_type = NcmContentType_Meta, ci_id_offset = 0, ci_rest = [1]\<rparr>"

definition demo_program :: "byte \<Rightarrow> NcmContentInfo" where
  "demo_program k = \<lparr>ci_content_type = NcmContentType_Program, ci_id_offset = 0, ci_rest = [k]\<rparr>"

definition demo_title :: "byte \<Rightarrow> TitleInfo" where
  "demo_title k = \<lparr>storage_id = NcmStorageId_SdCard, version_value = 0,
                    content_infos = [demo_program k, demo_meta]\<rparr>"

definition demo_opts :: options where
  "demo_opts = \<lparr>set_download_type = False, remove_console_data = False,
                 remove_titlekey_crypto = False, change_acid_rsa = False\<rparr>"

definition demo_id :: "bytes \<Rightarrow> string" where
  "demo_id r = (if r = [1] then ''00000000000000000000000000000001''
                else ''00000000000000000000000000000002'')"

definition demo_tik :: Ticket where
  "demo_tik = \<lparr>tik_size = 2, tik_data = [1, 2], rights_id_str = ''0100000000000000000000000000000F''\<rparr>"

definition demo_env :: env where
  "demo_env = \<lparr>
     e_alloc_ok = (\<lambda>_. True),
     e_titleGenerateFileName = (\<lambda>_. Some ''title''),
     e_utilsGeneratePath = (\<lambda>n e. Some (n @ e)),
     e_ncaOpen = (\<lambda>sid hfs ci t.
        Some (\<lparr>content_id_str = demo_id (ci_rest ci), content_type = NcmContentType_Data,
                content_size = 3, rights_id_available = (ci_rest ci = [3] \<or> ci_rest ci = [4]),
                titlekey_retrieved = (ci_rest ci = [3]), header_written = False,
                content_type_ctx = None, content_type_ctx_patch = False,
                content_type_ctx_data_idx = 0, nca_rest = ci_rest ci\<rparr>,
              if ci_rest ci = [3] then demo_tik else t)),
     e_cnmtInitializeContext = (\<lambda>c.
        Some (\<lparr>authoring_tool_xml = [], authoring_tool_xml_size = 0, cnmt_rest = []\<rparr>, nca_rest c)),
     e_ncaSetDownloadDistributionType = nca_rest,
     e_ncaRemoveTitlekeyCrypto = (\<lambda>c. Some (nca_rest c)),
     e_programInfoInitializeContext = (\<lambda>c.
        Some (\<lparr>pi_authoring_tool_xml = [], pi_authoring_tool_xml_size = 0, pi_rest = []\<rparr>, nca_rest c)),
     e_programInfoGenerateNcaPatch = (\<lambda>p c. Some (p, True, nca_rest c)),
     e_programInfoGenerateAuthoringToolXml = (\<lambda>p.
        Some (p\<lparr>pi_authoring_tool_xml := [7, 7], pi_authoring_tool_xml_size := 2\<rparr>)),
     e_nacpInitializeContext = (\<lambda>c. None),
     e_cnmtGetRequiredTitleVersion = (\<lambda>_. 0),
     e_nacpGenerateAuthoringToolXml = (\<lambda>n _ _. Some n),
     e_nacpGetLanguageString = (\<lambda>_. ''AmericanEnglish''),
     e_legalInfoInitializeContext = (\<lambda>c. None),
     e_ncaEncryptHeader = (\<lambda>c. Some (nca_rest c)),
     e_cnmtGenerateAuthoringToolXml = (\<lambda>c ncas n.
        Some (c\<lparr>authoring_tool_xml := [9, 9, 9, of_nat (length (cnmt_rest c))],
                authoring_tool_xml_size := 4, cnmt_rest := 0 # cnmt_rest c\<rparr>)),
     e_tikGetCommonBlock = (\<lambda>d.
        Some \<lparr>titlekey_type = TikTitleKeyType_Personalized, rights_id = [15], issuer = ''Root''\<rparr>),
     e_tikConvertPersonalizedTicketToCommonTicket = (\<lambda>t. Some (t\<lparr>tik_data := [3, 4]\<rparr>, [7], 1)),
     e_certRetrieveRawCertificateChainFromGameCardByRightsId = (\<lambda>_. Some ([8, 8, 8], 3)),
     e_certGenerateRawCertificateChainBySignatureIssuer = (\<lambda>_. Some ([8, 8], 2)),
     e_pfs_add_ok = (\<lambda>_ _ _. True),
     e_pfs_fixed_header_size = 16,
     e_pfs_entry_record_size = 24,
     e_pfs_alignment = 32,
     e_pfs_header_bytes = (\<lambda>_. []),
     e_time = 100,
     e_usb = (\<lambda>_ _. True),
     e_cnmtGenerateNcaPatch = (\<lambda>c n. Some (c, True, nca_rest n)),
     e_ncaIsHeaderDirty = (\<lambda>_. True),
     e_ncaReadContentFile = (\<lambda>c n off. Some (take n [5, 5, 5, 5])),
     e_ncaWriteEncryptedHeaderDataToMemoryBuffer = (\<lambda>c b n off. (b[0 := 6], True, nca_rest c)),
     e_cnmtWriteNcaPatch = (\<lambda>c n b sz off. (b[1 := 8], c, False, nca_rest n)),
     e_programInfoWriteNcaPatch = (\<lambda>p n b sz off. (b, p, False, nca_rest n)),
     e_sha256 = (\<lambda>b. b),
     e_ncaUpdateContentIdAndHash = (\<lambda>c h.
        (if h = [6, 5, 5] then ''0000000000000000000000000000000A''
         else ''0000000000000000000000000000000B'', nca_rest c)),
     e_cnmtUpdateContentInfo = (\<lambda>c n. Some c)
   \<rparr>"

definition demo_start :: dump_state where
  "demo_start = \<lparr>nca_ctx = [zero_nca_ctx, zero_nca_ctx],
     cnmt_ctx = \<lparr>authoring_tool_xml = [], authoring_tool_xml_size = 0, cnmt_rest = []\<rparr>,
     program_idx = 0, control_idx = 0, legal_info_idx = 0,
     tik = \<lparr>tik_size = 0, tik_data = [], rights_id_str = []\<rparr>,
     retrieve_tik_cert = False, raw_cert_chain = [], raw_cert_chain_size = 0,
     pfs_file_ctx = pfsInitializeFileContext,
     nsp_header_size = 0, nsp_size = 0, nsp_offset = 0,
     path = ''title.nsp'', trace = []\<rparr>"

lemma demo_sel [simp]:
  "e_alloc_ok demo_env = (\<lambda>_. True)"
  "e_titleGenerateFileName demo_env = (\<lambda>_. Some ''title'')"
  "e_utilsGeneratePath demo_env = (\<lambda>n e. Some (n @ e))"
  "e_ncaOpen demo_env = (\<lambda>sid hfs ci t.
        Some (\<lparr>content_id_str = demo_id (ci_rest ci), content_type = NcmContentType_Data,
                content_size = 3, rights_id_available = (ci_rest ci = [3] \<or> ci_rest ci = [4]),
                titlekey_retrieved = (ci_rest ci = [3]), header_written = False,
                content_type_ctx = None, content_type_ctx_patch = False,
                content_type_ctx_data_idx = 0, nca_rest = ci_rest ci\<rparr>,
              if ci_rest ci = [3] then demo_tik else t))"
  "e_cnmtInitializeContext demo_env = (\<lambda>c.
        Some (\<lparr>authoring_tool_xml = [], authoring_tool_xml_size = 0, cnmt_rest = []\<rparr>, nca_rest c))"
  "e_ncaSetDownloadDistributionType demo_env = nca_rest"
  "e_ncaRemoveTitlekeyCrypto demo_env = (\<lambda>c. Some (nca_rest c))"
  "e_programInfoInitializeContext demo_env = (\<lambda>c.
        Some (\<lparr>pi_authoring_tool_xml = [], pi_authoring_tool_xml_size = 0, pi_rest = []\<rparr>, nca_rest c))"
  "e_programInfoGenerateNcaPatch demo_env = (\<lambda>p c. Some (p, True, nca_rest c))"
  "e_programInfoGenerateAuthoringToolXml demo_env = (\<lambda>p.
        Some (p\<lparr>pi_authoring_tool_xml := [7, 7], pi_authoring_tool_xml_size := 2\<rparr>))"
  "e_ncaEncryptHeader demo_env = (\<lambda>c. Some (nca_rest c))"
  "e_cnmtGenerateAuthoringToolXml demo_env = (\<lambda>c ncas n.
        Some (c\<lparr>authoring_tool_xml := [9, 9, 9, of_nat (length (cnmt_rest c))],
                authoring_tool_xml_size := 4, cnmt_rest := 0 # cnmt_rest c\<rparr>))"
  "e_tikGetCommonBlock demo_env = (\<lambda>d.
        Some \<lparr>titlekey_type = TikTitleKeyType_Personalized, rights_id = [15], issuer = ''Root''\<rparr>)"
  "e_tikConvertPersonalizedTicketToCommonTicket demo_env = (\<lambda>t. Some (t\<lparr>tik_data := [3, 4]\<rparr>, [7], 1))"
  "e_certRetrieveRawCertificateChainFromGameCardByRightsId demo_env = (\<lambda>_. Some ([8, 8, 8], 3))"
  "e_certGenerateRawCertificateChainBySignatureIssuer demo_env = (\<lambda>_. Some ([8, 8], 2))"
  "e_pfs_add_ok demo_env = (\<lambda>_ _ _. True)"
  "e_pfs_fixed_header_size demo_env = 16"
  "e_pfs_entry_record_size demo_env = 24"
  "e_pfs_alignment demo_env = 32"
  "e_pfs_header_bytes demo_env = (\<lambda>_. [])"
  "e_time demo_env = 100"
  "e_usb demo_env = (\<lambda>_ _. True)"
  "e_cnmtGenerateNcaPatch demo_env = (\<lambda>c n. Some (c, True, nca_rest n))"
  "e_ncaIsHeaderDirty demo_env = (\<lambda>_. True)"
  "e_ncaReadContentFile demo_env = (\<lambda>c n off. Some (take n [5, 5, 5, 5]))"
  "e_ncaWriteEncryptedHeaderDataToMemoryBuffer demo_env = (\<lambda>c b n off. (b[0 := 6], True, nca_rest c))"
  "e_cnmtWriteNcaPatch demo_env = (\<lambda>c n b sz off. (b[1 := 8], c, False, nca_rest n))"
  "e_programInfoWriteNcaPatch demo_env = (\<lambda>p n b sz off. (b, p, False, nca_rest n))"
  "e_sha256 demo_env = (\<lambda>b. b)"
  "e_ncaUpdateContentIdAndHash demo_env = (\<lambda>c h.
        (if h = [6, 5, 5] then ''0000000000000000000000000000000A''
         else ''0000000000000000000000000000000B'', nca_rest c))"
  "e_cnmtUpdateContentInfo demo_env = (\<lambda>c n. Some c)"
  by (simp_all add: demo_env_def)

lemmas run_defs =
  nspDump_def allocate_def titleGetContentCountByType_def content_count_def
  pfsInitializeFileContext_def zero_nca_ctx_def layout_def init_meta_def log_def set_nca_def
  ncaInitializeContext_def titleGetContentInfoByTypeAndIdOffset_def hfs_of_def
  init_contents_def init_content_def transform_content_def process_content_def program_case_def
  generate_cnmt_xml_def resolve_credentials_def add_entries_def add_nca_info_def add_entry_def
  pfsAddEntryInformationToFileContext_def entry_count_def nca_entry_name_def add_cnmt_xml_info_def
  set_data_idx_def add_ctx_data_info_def add_tik_cert_info_def write_header_1_def
  pfsWriteFileContextHeaderToMemoryBuffer_def pfs_header_size_def align_up_def BLOCK_SIZE_def
  connect_def usb_wait.simps send_file_properties_def stream_def write_nca_def prepare_nca_def
  pfsGetEntryNameByIndexFromFileContext_def sha256ContextCreate_def sha256ContextUpdate_def
  sha256ContextGetHash_def stream_blocks.simps next_blksize_def patched_def patch_block_def
  pfsUpdateEntryNameFromFileContext_def write_cnmt_xml_def send_and_rename_def send_entry_def
  write_ctx_data_def write_tik_cert_def write_header_2_def upt_rec Let_def

lemmas demo_defs =
  demo_title_def demo_opts_def demo_meta_def demo_program_def demo_id_def demo_tik_def demo_start_def

text \<open>The state of the small title when its first unit is about to be streamed.\<close>

definition demo_ready :: dump_state where
  "demo_ready =
     (case steps [layout demo_env demo_opts (demo_title 2), connect demo_env,
                  send_file_properties demo_env] demo_start of
        Inr s \<Rightarrow> s
      | Inl e \<Rightarrow> demo_start)"

text \<open>The state of the small title when its meta unit is about to be streamed,
  and the meta unit as the block loop finds it, its patch pending.\<close>

definition demo_meta_ready :: dump_state where
  "demo_meta_ready = (case write_nca demo_env demo_ready 0 of Inr s \<Rightarrow> s | Inl e \<Rightarrow> demo_ready)"

definition demo_meta_unit :: NcaContext where
  "demo_meta_unit = (nca_ctx demo_meta_ready ! 1)\<lparr>content_type_ctx_patch := True\<rparr>"

theorem content_id_is_hash_of_patched_bytes_sent_witness:
  "e_ncaReadContentFile demo_env demo_meta_unit 2 0 = Some [5, 5]
   \<and> e_ncaReadContentFile demo_env demo_meta_unit 1 2 = Some [5]
   \<and> (\<exists>cnmt' cur'.
         stream_blocks demo_env (cnmt_ctx demo_meta_ready) demo_meta_unit True [] 2 0 0 []
           = Inr (cnmt', cur', [6, 8, 5], 3, [UsbSendFileData [6, 8] 2, UsbSendFileData [5] 1]))
   \<and> (\<exists>blocks. final_blocks demo_env (cnmt_ctx demo_meta_ready) demo_meta_unit True 2 0 = Some blocks
         \<and> [UsbSendFileData [6, 8] 2, UsbSendFileData [5] 1] = [] @ map send_block blocks
         \<and> [6, 8, 5] = [] @ concat (map block_bytes blocks))
   \<and> final_blocks demo_env (cnmt_ctx demo_meta_ready) demo_meta_unit True 2 0 = Some [([6, 8], 2), ([5], 1)]
   \<and> content_type (nca_ctx demo_meta_ready ! 1) = NcmContentType_Meta
   \<and> e_ncaReadContentFile demo_env (nca_ctx demo_meta_ready ! 1) 3 0 = Some [5, 5, 5]
   \<and> (\<exists>s'. write_nca demo_env demo_meta_ready 1 = Inr s' \<and> 1 < length (nca_ctx demo_meta_ready)
       \<and> (\<exists>cnmt1 cur1 tr1 blocks cur2.
             prepare_nca demo_env 1 (cnmt_ctx demo_meta_ready) (nca_ctx demo_meta_ready ! 1)
               (trace demo_meta_ready) = Inr (cnmt1, cur1, tr1)
           \<and> final_blocks demo_env cnmt1 cur1 (e_ncaIsHeaderDirty demo_env cur1) BLOCK_SIZE 0 = Some blocks
           \<and> trace s' = tr1 @ [UsbSendFilePropertiesCommon (content_size (nca_ctx demo_meta_ready ! 1))
                                  (pfsGetEntryNameByIndexFromFileContext (pfs_file_ctx demo_meta_ready) 1)]
                          @ map send_block blocks
                          @ [NcaUpdateContentIdAndHash 1 (e_sha256 demo_env (concat (map block_bytes blocks)))]
           \<and> sum_list (map snd blocks) = content_size (nca_ctx demo_meta_ready ! 1)
           \<and> content_id_str (nca_ctx s' ! 1)
               = fst (e_ncaUpdateContentIdAndHash demo_env cur2
                        (e_sha256 demo_env (concat (map block_bytes blocks)))))
       \<and> drop (length (trace demo_meta_ready)) (trace s')
           = [CnmtGenerateNcaPatch, NcaEncryptHeader 1,
              UsbSendFilePropertiesCommon 3 (Some ''00000000000000000000000000000001.cnmt.nca''),
              UsbSendFileData [6, 8, 5] 3, NcaUpdateContentIdAndHash 1 [6, 8, 5]]
       \<and> content_id_str (nca_ctx s' ! 1) = ''0000000000000000000000000000000B'')"
proof -
  have rd: "e_ncaReadContentFile demo_env demo_meta_unit 2 0 = Some [5, 5]"
    "e_ncaReadContentFile demo_env demo_meta_unit 1 2 = Some [5]"
    "e_ncaReadContentFile demo_env (nca_ctx demo_meta_ready ! 1) 3 0 = Some [5, 5, 5]"
    by simp_all
  have sb: "\<exists>cnmt' cur'.
         stream_blocks demo_env (cnmt_ctx demo_meta_ready) demo_meta_unit True [] 2 0 0 []
           = Inr (cnmt', cur', [6, 8, 5], 3, [UsbSendFileData [6, 8] 2, UsbSendFileData [5] 1])"
    by (simp add: demo_meta_unit_def demo_meta_ready_def demo_ready_def run_defs demo_defs)
  have fb: "final_blocks demo_env (cnmt_ctx demo_meta_ready) demo_meta_unit True 2 0 = Some [([6, 8], 2), ([5], 1)]"
    by (simp add: demo_meta_unit_def demo_meta_ready_def demo_ready_def run_defs demo_defs
                  final_blocks.simps final_block_def header_bytes_written_def patch_bytes_written_def)
  have ty: "content_type (nca_ctx demo_meta_ready ! 1) = NcmContentType_Meta"
    by (simp add: demo_meta_ready_def demo_ready_def run_defs demo_defs)
  have r: "\<exists>s'. write_nca demo_env demo_meta_ready 1 = Inr s'
       \<and> drop (length (trace demo_meta_ready)) (trace s')
           = [CnmtGenerateNcaPatch, NcaEncryptHeader 1,
              UsbSendFilePropertiesCommon 3 (Some ''00000000000000000000000000000001.cnmt.nca''),
              UsbSendFileData [6, 8, 5] 3, NcaUpdateContentIdAndHash 1 [6, 8, 5]]
       \<and> content_id_str (nca_ctx s' ! 1) = ''0000000000000000000000000000000B''"
    by (simp add: demo_meta_ready_def demo_ready_def run_defs demo_defs)
  have l: "1 < length (nca_ctx demo_meta_ready)"
    by (simp add: demo_meta_ready_def demo_ready_def run_defs demo_defs)
  from sb obtain cnmt' cur' where sb':
    "stream_blocks demo_env (cnmt_ctx demo_meta_ready) demo_meta_unit True [] 2 0 0 []
           = Inr (cnmt', cur', [6, 8, 5], 3, [UsbSendFileData [6, 8] 2, UsbSendFileData [5] 1])"
    by blast
  from r obtain s' where s': "write_nca demo_env demo_meta_ready 1 = Inr s'"
     "drop (length (trace demo_meta_ready)) (trace s')
           = [CnmtGenerateNcaPatch, NcaEncryptHeader 1,
              UsbSendFilePropertiesCommon 3 (Some ''00000000000000000000000000000001.cnmt.nca''),
              UsbSendFileData [6, 8, 5] 3, NcaUpdateContentIdAndHash 1 [6, 8, 5]]"
     "content_id_str (nca_ctx s' ! 1) = ''0000000000000000000000000000000B''"
    by blast
  note inst = content_id_is_hash_of_patched_bytes_sent[of demo_env]
  have two: "0 < (2::nat)" by simp
  from inst[THEN conjunct1, rule_format, OF conjI[OF sb' two]]
  have p1: "\<exists>blocks. final_blocks demo_env (cnmt_ctx demo_meta_ready) demo_meta_unit True 2 0 = Some blocks
         \<and> [UsbSendFileData [6, 8] 2, UsbSendFileData [5] 1] = [] @ map send_block blocks
         \<and> [6, 8, 5] = [] @ concat (map block_bytes blocks)" .
  from inst[THEN conjunct2, rule_format, OF conjI[OF s'(1) l]]
  have p2: "\<exists>cnmt1 cur1 tr1 blocks cur2.
             prepare_nca demo_env 1 (cnmt_ctx demo_meta_ready) (nca_ctx demo_meta_ready ! 1)
               (trace demo_meta_ready) = Inr (cnmt1, cur1, tr1)
           \<and> final_blocks demo_env cnmt1 cur1 (e_ncaIsHeaderDirty demo_env cur1) BLOCK_SIZE 0 = Some blocks
           \<and> trace s' = tr1 @ [UsbSendFilePropertiesCommon (content_size (nca_ctx demo_meta_ready ! 1))
                                  (pfsGetEntryNameByIndexFromFileContext (pfs_file_ctx demo_meta_ready) 1)]
                          @ map send_block blocks
                          @ [NcaUpdateContentIdAndHash 1 (e_sha256 demo_env (concat (map block_bytes blocks)))]
           \<and> sum_list (map snd blocks) = content_size (nca_ctx demo_meta_ready ! 1)
           \<and> content_id_str (nca_ctx s' ! 1)
               = fst (e_ncaUpdateContentIdAndHash demo_env cur2
                        (e_sha256 demo_env (concat (map block_bytes blocks))))" .
  from rd sb fb ty p1 p2 s' l show ?thesis
    by blast
qed


subsection \<open>The entry table that the layout builds\<close>

text \<open>The expected table, written from the naming convention of the package:
  one entry per unit, the title-meta XML, the data of each metadata context, and
  the ticket and the certificate chain when they are resolved.\<close>

definition nca_entry :: "NcaContext \<Rightarrow> PartitionFileSystemEntry" where
  "nca_entry c = \<lparr>pfs_entry_name = nca_entry_name c, pfs_entry_size = content_size c\<rparr>"

definition icon_entry :: "env \<Rightarrow> NcaContext \<Rightarrow> NacpIconContext \<Rightarrow> PartitionFileSystemEntry" where
  "icon_entry env c icon =
     \<lparr>pfs_entry_name = content_id_str c @ ''.nx.'' @ e_nacpGetLanguageString env (language icon) @ ''.jpg'',
      pfs_entry_size = icon_size icon\<rparr>"

definition ctx_data_entries :: "env \<Rightarrow> NcaContext \<Rightarrow> PartitionFileSystemEntry list" where
  "ctx_data_entries env c =
     (case content_type_ctx c of
        None \<Rightarrow> []
      | Some (ProgramInfoCtx p) \<Rightarrow>
          [\<lparr>pfs_entry_name = content_id_str c @ ''.programinfo.xml'',
            pfs_entry_size = pi_authoring_tool_xml_size p\<rparr>]
      | Some (NacpCtx n) \<Rightarrow>
          map (icon_entry env c) (icon_ctx n) @
          [\<lparr>pfs_entry_name = content_id_str c @ ''.nacp.xml'',
            pfs_entry_size = nacp_authoring_tool_xml_size n\<rparr>]
      | Some (LegalInfoCtx l) \<Rightarrow>
          [\<lparr>pfs_entry_name = content_id_str c @ ''.legalinfo.xml'',
            pfs_entry_size = li_authoring_tool_xml_size l\<rparr>])"

definition cnmt_xml_entry :: "dump_state \<Rightarrow> PartitionFileSystemEntry" where
  "cnmt_xml_entry s =
     \<lparr>pfs_entry_name = content_id_str (last (nca_ctx s)) @ ''.cnmt.xml'',
      pfs_entry_size = authoring_tool_xml_size (cnmt_ctx s)\<rparr>"

definition tik_cert_entries :: "dump_state \<Rightarrow> PartitionFileSystemEntry list" where
  "tik_cert_entries s =
     (if retrieve_tik_cert s
      then [\<lparr>pfs_entry_name = rights_id_str (tik s) @ ''.tik'', pfs_entry_size = tik_size (tik s)\<rparr>,
            \<lparr>pfs_entry_name = rights_id_str (tik s) @ ''.cert'', pfs_entry_size = raw_cert_chain_size s\<rparr>]
      else [])"

definition expected_entries :: "env \<Rightarrow> dump_state \<Rightarrow> PartitionFileSystemEntry list" where
  "expected_entries env s =
     map nca_entry (nca_ctx s) @ [cnmt_xml_entry s]
     @ concat (map (ctx_data_entries env) (butlast (nca_ctx s)))
     @ tik_cert_entries s"

text \<open>A metadata context has the kind of its unit: the tag of \<open>content_type_ctx\<close>
  is the one that the \<^verbatim>\<open>switch\<close> on \<^verbatim>\<open>content_type\<close> casts to.\<close>

definition ctx_matches :: "NcaContext \<Rightarrow> bool" where
  "ctx_matches c =
     (case content_type_ctx c of
        None \<Rightarrow> True
      | Some (ProgramInfoCtx p) \<Rightarrow> content_type c = NcmContentType_Program
      | Some (NacpCtx n) \<Rightarrow> content_type c = NcmContentType_Control
      | Some (LegalInfoCtx l) \<Rightarrow> content_type c = NcmContentType_LegalInformation)"

text \<open>Two arrays of units that differ at most in the recorded entry indices.\<close>

definition forget_idx :: "NcaContext \<Rightarrow> NcaContext" where
  "forget_idx c = c\<lparr>content_type_ctx_data_idx := 0\<rparr>"

definition same_units :: "NcaContext list \<Rightarrow> NcaContext list \<Rightarrow> bool" where
  "same_units xs ys = (map forget_idx xs = map forget_idx ys)"

text \<open>What an operation on the table leaves alone.\<close>

definition table_frame :: "dump_state \<Rightarrow> dump_state \<Rightarrow> bool" where
  "table_frame s s' =
     (s' = s\<lparr>pfs_file_ctx := pfs_file_ctx s', nca_ctx := nca_ctx s'\<rparr>
      \<and> same_units (nca_ctx s') (nca_ctx s))"

definition added :: "dump_state \<Rightarrow> dump_state \<Rightarrow> PartitionFileSystemEntry list \<Rightarrow> bool" where
  "added s s' new =
     (table_frame s s'
      \<and> pfs_entries (pfs_file_ctx s') = pfs_entries (pfs_file_ctx s) @ new
      \<and> fs_size (pfs_file_ctx s') = fs_size (pfs_file_ctx s) + sum_list (map pfs_entry_size new))"

lemma same_units_refl [simp]: "same_units xs xs"
  by (simp add: same_units_def)

lemma same_units_trans: "same_units xs ys \<Longrightarrow> same_units ys zs \<Longrightarrow> same_units xs zs"
  by (simp add: same_units_def)

lemma same_units_length: "same_units xs ys \<Longrightarrow> length xs = length ys"
  by (metis same_units_def length_map)

lemma same_units_nth:
  "same_units xs ys \<Longrightarrow> i < length ys \<Longrightarrow> forget_idx (xs ! i) = forget_idx (ys ! i)"
  by (metis same_units_def length_map nth_map)

lemma same_units_update:
  "i < length xs \<Longrightarrow> same_units (xs[i := (xs ! i)\<lparr>content_type_ctx_data_idx := k\<rparr>]) xs"
  by (simp add: same_units_def forget_idx_def map_update list_eq_iff_nth_eq nth_list_update)

lemma forget_idx_fields:
  "forget_idx a = forget_idx b \<Longrightarrow>
     content_id_str a = content_id_str b \<and> content_type a = content_type b
     \<and> content_size a = content_size b \<and> content_type_ctx a = content_type_ctx b
     \<and> rights_id_available a = rights_id_available b \<and> titlekey_retrieved a = titlekey_retrieved b"
  by (cases a, cases b) (simp add: forget_idx_def)

lemma nca_entry_forget: "forget_idx a = forget_idx b \<Longrightarrow> nca_entry a = nca_entry b"
  by (drule forget_idx_fields) (simp add: nca_entry_def nca_entry_name_def)

lemma ctx_data_entries_forget:
  "forget_idx a = forget_idx b \<Longrightarrow> ctx_data_entries env a = ctx_data_entries env b"
  by (drule forget_idx_fields)
     (auto simp: ctx_data_entries_def icon_entry_def split: option.splits type_ctx.splits)

lemma added_refl [simp]: "added s s []"
  by (simp add: added_def table_frame_def)

lemma added_trans:
  "added s s1 xs \<Longrightarrow> added s1 s2 ys \<Longrightarrow> added s s2 (xs @ ys)"
  unfolding added_def table_frame_def
  by (cases s, cases s1, cases s2) (auto intro: same_units_trans)

lemma added_frame_fields:
  "added s s' new \<Longrightarrow>
     trace s' = trace s \<and> tik s' = tik s \<and> cnmt_ctx s' = cnmt_ctx s
     \<and> retrieve_tik_cert s' = retrieve_tik_cert s \<and> raw_cert_chain s' = raw_cert_chain s
     \<and> raw_cert_chain_size s' = raw_cert_chain_size s \<and> path s' = path s
     \<and> nsp_offset s' = nsp_offset s \<and> nsp_size s' = nsp_size s
     \<and> nsp_header_size s' = nsp_header_size s
     \<and> length (nca_ctx s') = length (nca_ctx s)"
  unfolding added_def table_frame_def
  by (cases s, cases s') (auto dest: same_units_length)

lemma added_same_units: "added s s' new \<Longrightarrow> same_units (nca_ctx s') (nca_ctx s)"
  by (simp add: added_def table_frame_def)

lemma add_entry_added:
  "add_entry env entry_name entry_size s = Inr (idx, s') \<Longrightarrow>
   added s s' [\<lparr>pfs_entry_name = entry_name, pfs_entry_size = entry_size\<rparr>]
   \<and> nca_ctx s' = nca_ctx s \<and> idx = entry_count (pfs_file_ctx s)"
  by (cases s)
     (auto simp: add_entry_def pfsAddEntryInformationToFileContext_def added_def table_frame_def
           split: option.splits if_splits)

lemma add_entry_failed:
  "add_entry env entry_name entry_size s = Inl e \<Longrightarrow> e = (''pfs add entry failed'', trace s)"
  by (auto simp: add_entry_def split: option.splits)

lemma set_data_idx_added:
  "i < length (nca_ctx s) \<Longrightarrow> added s (set_data_idx i k s) []"
  by (cases s) (simp add: set_data_idx_def set_nca_def added_def table_frame_def same_units_update)

lemma add_nca_info_added:
  "add_nca_info env s i = Inr s' \<Longrightarrow> added s s' [nca_entry (nca_ctx s ! i)] \<and> nca_ctx s' = nca_ctx s"
  by (auto simp: add_nca_info_def Let_def nca_entry_def split: sum.splits dest: add_entry_added)

lemma add_nca_infos_added:
  "for_each (add_nca_info env) idxs s = Inr s' \<Longrightarrow>
   added s s' (map (\<lambda>i. nca_entry (nca_ctx s ! i)) idxs) \<and> nca_ctx s' = nca_ctx s"
proof (induction idxs arbitrary: s)
  case Nil
  then show ?case by simp
next
  case (Cons i idxs)
  from Cons.prems obtain s1 where s1: "add_nca_info env s i = Inr s1"
    and rest: "for_each (add_nca_info env) idxs s1 = Inr s'"
    by (cases "add_nca_info env s i") auto
  from add_nca_info_added[OF s1] Cons.IH[OF rest] show ?case
    using added_trans[of s s1 "[nca_entry (nca_ctx s ! i)]" s' "map (\<lambda>i. nca_entry (nca_ctx s ! i)) idxs"]
    by simp
qed

lemma add_cnmt_xml_info_added:
  assumes "add_cnmt_xml_info env title_info s = Inr s'"
    and "length (nca_ctx s) = content_count title_info" and "0 < content_count title_info"
  shows "added s s' [cnmt_xml_entry s]"
proof -
  let ?m = "content_count title_info - 1"
  from assms(1) obtain idx s1 where
    a: "add_entry env (content_id_str (nca_ctx s ! ?m) @ ''.cnmt.xml'') (authoring_tool_xml_size (cnmt_ctx s)) s
          = Inr (idx, s1)"
    and s': "s' = set_data_idx ?m idx s1"
    by (auto simp: add_cnmt_xml_info_def Let_def split: sum.splits)
  have ne: "nca_ctx s \<noteq> []"
    using assms(2,3) by auto
  have l: "last (nca_ctx s) = nca_ctx s ! ?m"
    using last_conv_nth[OF ne] assms(2) by simp
  from add_entry_added[OF a] have 1: "added s s1 [cnmt_xml_entry s]" and n: "nca_ctx s1 = nca_ctx s"
    by (simp_all add: cnmt_xml_entry_def l)
  have "added s1 s' []"
    unfolding s' using assms(2,3) n by (intro set_data_idx_added) simp
  with 1 show ?thesis using added_trans by fastforce
qed

lemma icon_entry_forget: "forget_idx a = forget_idx b \<Longrightarrow> icon_entry env a = icon_entry env b"
  by (drule forget_idx_fields) (simp add: icon_entry_def fun_eq_iff)

lemma add_icon_info_added:
  assumes "add_icon_info env i s (j, icon) = Inr s'" and "i < length (nca_ctx s)"
  shows "added s s' [icon_entry env (nca_ctx s ! i) icon]"
proof -
  from assms(1) obtain idx s1 where
    a: "add_entry env (content_id_str (nca_ctx s ! i) @ ''.nx.'' @ e_nacpGetLanguageString env (language icon) @ ''.jpg'')
          (icon_size icon) s = Inr (idx, s1)"
    and s': "s' = (if j = 0 then set_data_idx i idx s1 else s1)"
    by (auto simp: add_icon_info_def split: sum.splits)
  from add_entry_added[OF a] have 1: "added s s1 [icon_entry env (nca_ctx s ! i) icon]"
    and n: "nca_ctx s1 = nca_ctx s"
    by (simp_all add: icon_entry_def)
  have "added s1 s' []"
    unfolding s' using assms(2) n by (auto intro: set_data_idx_added)
  with 1 show ?thesis using added_trans by fastforce
qed

lemma add_icon_infos_added:
  "for_each (add_icon_info env i) (enumerate k icons) s = Inr s' \<Longrightarrow> i < length (nca_ctx s) \<Longrightarrow>
   added s s' (map (icon_entry env (nca_ctx s ! i)) icons)"
proof (induction icons arbitrary: k s)
  case Nil
  then show ?case by simp
next
  case (Cons icon icons)
  from Cons.prems(1) obtain s1 where s1: "add_icon_info env i s (k, icon) = Inr s1"
    and rest: "for_each (add_icon_info env i) (enumerate (Suc k) icons) s1 = Inr s'"
    by (cases "add_icon_info env i s (k, icon)") auto
  from add_icon_info_added[OF s1 Cons.prems(2)]
  have 1: "added s s1 [icon_entry env (nca_ctx s ! i) icon]" .
  from added_same_units[OF 1] have su: "same_units (nca_ctx s1) (nca_ctx s)" .
  have len: "i < length (nca_ctx s1)"
    using same_units_length[OF su] Cons.prems(2) by simp
  have eq: "icon_entry env (nca_ctx s1 ! i) = icon_entry env (nca_ctx s ! i)"
    using same_units_nth[OF su Cons.prems(2)] by (rule icon_entry_forget)
  from Cons.IH[OF rest len] have "added s1 s' (map (icon_entry env (nca_ctx s ! i)) icons)"
    by (simp add: eq)
  with 1 show ?case
    using added_trans[of s s1 "[icon_entry env (nca_ctx s ! i) icon]" s'] by simp
qed

lemma add_ctx_data_info_added:
  assumes "add_ctx_data_info env s i = Inr s'" and i: "i < length (nca_ctx s)"
  shows "added s s' (ctx_data_entries env (nca_ctx s ! i)) \<and> ctx_matches (nca_ctx s ! i)"
proof (cases "content_type_ctx (nca_ctx s ! i)")
  case None
  with assms show ?thesis
    by (simp add: add_ctx_data_info_def ctx_data_entries_def ctx_matches_def)
next
  case (Some tc)
  show ?thesis
  proof (cases tc)
    case (ProgramInfoCtx p)
    with Some assms(1) obtain idx s1 where
      a: "add_entry env (content_id_str (nca_ctx s ! i) @ ''.programinfo.xml'') (pi_authoring_tool_xml_size p) s
            = Inr (idx, s1)"
      and s': "s' = set_data_idx i idx s1"
      and t: "content_type (nca_ctx s ! i) = NcmContentType_Program"
      by (auto simp: add_ctx_data_info_def Let_def split: sum.splits NcmContentType.splits)
    from add_entry_added[OF a] have 1: "added s s1 (ctx_data_entries env (nca_ctx s ! i))"
      and n: "nca_ctx s1 = nca_ctx s"
      by (simp_all add: ctx_data_entries_def Some ProgramInfoCtx)
    have "added s1 s' []" unfolding s' using i n by (auto intro: set_data_idx_added)
    with 1 t Some ProgramInfoCtx show ?thesis
      using added_trans by (fastforce simp: ctx_matches_def)
  next
    case (NacpCtx n)
    with Some assms(1) obtain s1 idx s2 where
      icons: "for_each (add_icon_info env i) (enumerate 0 (icon_ctx n)) s = Inr s1"
      and a: "add_entry env (content_id_str (nca_ctx s ! i) @ ''.nacp.xml'') (nacp_authoring_tool_xml_size n) s1
            = Inr (idx, s2)"
      and s': "s' = s2"
      and t: "content_type (nca_ctx s ! i) = NcmContentType_Control"
      by (auto simp: add_ctx_data_info_def Let_def split: sum.splits NcmContentType.splits)
    from add_icon_infos_added[OF icons i]
    have 1: "added s s1 (map (icon_entry env (nca_ctx s ! i)) (icon_ctx n))" .
    from add_entry_added[OF a]
    have 2: "added s1 s2 [\<lparr>pfs_entry_name = content_id_str (nca_ctx s ! i) @ ''.nacp.xml'',
                            pfs_entry_size = nacp_authoring_tool_xml_size n\<rparr>]"
      by simp
    from added_trans[OF 1 2] t Some NacpCtx s' show ?thesis
      by (simp add: ctx_data_entries_def ctx_matches_def)
  next
    case (LegalInfoCtx l)
    with Some assms(1) obtain idx s1 where
      a: "add_entry env (content_id_str (nca_ctx s ! i) @ ''.legalinfo.xml'') (li_authoring_tool_xml_size l) s
            = Inr (idx, s1)"
      and s': "s' = set_data_idx i idx s1"
      and t: "content_type (nca_ctx s ! i) = NcmContentType_LegalInformation"
      by (auto simp: add_ctx_data_info_def Let_def split: sum.splits NcmContentType.splits)
    from add_entry_added[OF a] have 1: "added s s1 (ctx_data_entries env (nca_ctx s ! i))"
      and n: "nca_ctx s1 = nca_ctx s"
      by (simp_all add: ctx_data_entries_def Some LegalInfoCtx)
    have "added s1 s' []" unfolding s' using i n by (auto intro: set_data_idx_added)
    with 1 t Some LegalInfoCtx show ?thesis
      using added_trans by (fastforce simp: ctx_matches_def)
  qed
qed

lemma ctx_matches_forget: "forget_idx a = forget_idx b \<Longrightarrow> ctx_matches a = ctx_matches b"
  by (drule forget_idx_fields)
     (auto simp: ctx_matches_def split: option.splits type_ctx.splits)

lemma last_forget:
  assumes "map forget_idx xs = map forget_idx ys"
  shows "forget_idx (last xs) = forget_idx (last ys)"
proof (cases "xs = []")
  case True
  with assms have "ys = []" by simp
  with True show ?thesis by simp
next
  case False
  with assms have "ys \<noteq> []" by auto
  with False assms show ?thesis
    using last_map[of xs forget_idx] last_map[of ys forget_idx] by simp
qed

lemma add_ctx_data_infos_added:
  "for_each (add_ctx_data_info env) idxs s = Inr s' \<Longrightarrow> \<forall>i\<in>set idxs. i < length (nca_ctx s) \<Longrightarrow>
   added s s' (concat (map (\<lambda>i. ctx_data_entries env (nca_ctx s ! i)) idxs))
   \<and> (\<forall>i\<in>set idxs. ctx_matches (nca_ctx s ! i))"
proof (induction idxs arbitrary: s)
  case Nil
  then show ?case by simp
next
  case (Cons i idxs)
  from Cons.prems(1) obtain s1 where s1: "add_ctx_data_info env s i = Inr s1"
    and rest: "for_each (add_ctx_data_info env) idxs s1 = Inr s'"
    by (cases "add_ctx_data_info env s i") auto
  from Cons.prems(2) have i: "i < length (nca_ctx s)" by simp
  from add_ctx_data_info_added[OF s1 i]
  have 1: "added s s1 (ctx_data_entries env (nca_ctx s ! i))" and m: "ctx_matches (nca_ctx s ! i)"
    by simp_all
  from added_same_units[OF 1] have su: "same_units (nca_ctx s1) (nca_ctx s)" .
  have len: "\<forall>k\<in>set idxs. k < length (nca_ctx s1)"
    using same_units_length[OF su] Cons.prems(2) by simp
  have eq: "\<And>k. k \<in> set idxs \<Longrightarrow> forget_idx (nca_ctx s1 ! k) = forget_idx (nca_ctx s ! k)"
    using same_units_nth[OF su] Cons.prems(2) by simp
  have eq1: "map (\<lambda>k. ctx_data_entries env (nca_ctx s1 ! k)) idxs
           = map (\<lambda>k. ctx_data_entries env (nca_ctx s ! k)) idxs"
    using eq by (auto intro: ctx_data_entries_forget)
  have eq2: "\<And>k. k \<in> set idxs \<Longrightarrow> ctx_matches (nca_ctx s1 ! k) = ctx_matches (nca_ctx s ! k)"
    using eq ctx_matches_forget by blast
  from Cons.IH[OF rest len]
  have 2: "added s1 s' (concat (map (\<lambda>k. ctx_data_entries env (nca_ctx s ! k)) idxs))"
    and m2: "\<forall>k\<in>set idxs. ctx_matches (nca_ctx s ! k)"
    using eq1 eq2 by simp_all
  from added_trans[OF 1 2] m m2 show ?case by simp
qed

lemma add_tik_cert_info_added:
  "add_tik_cert_info env s = Inr s' \<Longrightarrow> added s s' (tik_cert_entries s)"
proof (cases "retrieve_tik_cert s")
  case False
  assume "add_tik_cert_info env s = Inr s'"
  with False show ?thesis by (simp add: add_tik_cert_info_def tik_cert_entries_def)
next
  case True
  assume "add_tik_cert_info env s = Inr s'"
  with True obtain i1 s1 i2 where
    a1: "add_entry env (rights_id_str (tik s) @ ''.tik'') (tik_size (tik s)) s = Inr (i1, s1)"
    and a2: "add_entry env (rights_id_str (tik s1) @ ''.cert'') (raw_cert_chain_size s1) s1 = Inr (i2, s')"
    by (auto simp: add_tik_cert_info_def split: sum.splits)
  from add_entry_added[OF a1]
  have 1: "added s s1 [\<lparr>pfs_entry_name = rights_id_str (tik s) @ ''.tik'', pfs_entry_size = tik_size (tik s)\<rparr>]"
    by simp
  from added_frame_fields[OF 1] have f: "tik s1 = tik s" "raw_cert_chain_size s1 = raw_cert_chain_size s"
    by simp_all
  from add_entry_added[OF a2] f
  have 2: "added s1 s' [\<lparr>pfs_entry_name = rights_id_str (tik s) @ ''.cert'',
                         pfs_entry_size = raw_cert_chain_size s\<rparr>]"
    by simp
  from added_trans[OF 1 2] True show ?thesis by (simp add: tik_cert_entries_def)
qed

lemma map_nth_upt_take: "k \<le> length xs \<Longrightarrow> map (\<lambda>i. f (xs ! i)) [0..<k] = map f (take k xs)"
  by (simp add: list_eq_iff_nth_eq)

lemma nca_entry_forget_idx: "nca_entry (forget_idx c) = nca_entry c"
  by (rule nca_entry_forget) (simp add: forget_idx_def)

lemma ctx_data_entries_forget_idx: "ctx_data_entries env (forget_idx c) = ctx_data_entries env c"
  by (rule ctx_data_entries_forget) (simp add: forget_idx_def)

lemma same_units_expected:
  assumes "added s s' new"
  shows "map nca_entry (nca_ctx s') = map nca_entry (nca_ctx s)"
    and "map (ctx_data_entries env) (butlast (nca_ctx s')) = map (ctx_data_entries env) (butlast (nca_ctx s))"
    and "cnmt_xml_entry s' = cnmt_xml_entry s"
    and "tik_cert_entries s' = tik_cert_entries s"
proof -
  from added_same_units[OF assms] have su: "map forget_idx (nca_ctx s') = map forget_idx (nca_ctx s)"
    by (simp add: same_units_def)
  have fields: "tik s' = tik s" "cnmt_ctx s' = cnmt_ctx s" "retrieve_tik_cert s' = retrieve_tik_cert s"
    "raw_cert_chain_size s' = raw_cert_chain_size s"
    using added_frame_fields[OF assms] by simp_all
  have "map nca_entry (nca_ctx s') = map nca_entry (map forget_idx (nca_ctx s'))"
    by (simp add: comp_def nca_entry_forget_idx)
  also have "\<dots> = map nca_entry (map forget_idx (nca_ctx s))"
    by (simp only: su)
  also have "\<dots> = map nca_entry (nca_ctx s)"
    by (simp add: comp_def nca_entry_forget_idx)
  finally show "map nca_entry (nca_ctx s') = map nca_entry (nca_ctx s)" .
  have sub: "map forget_idx (butlast (nca_ctx s')) = map forget_idx (butlast (nca_ctx s))"
    using su by (simp add: map_butlast)
  have "map (ctx_data_entries env) (butlast (nca_ctx s'))
        = map (ctx_data_entries env) (map forget_idx (butlast (nca_ctx s')))"
    by (simp add: comp_def ctx_data_entries_forget_idx)
  also have "\<dots> = map (ctx_data_entries env) (map forget_idx (butlast (nca_ctx s)))"
    by (simp only: sub)
  also have "\<dots> = map (ctx_data_entries env) (butlast (nca_ctx s))"
    by (simp add: comp_def ctx_data_entries_forget_idx)
  finally show "map (ctx_data_entries env) (butlast (nca_ctx s')) = map (ctx_data_entries env) (butlast (nca_ctx s))" .
  have "forget_idx (last (nca_ctx s')) = forget_idx (last (nca_ctx s))"
    using su by (rule last_forget)
  then show "cnmt_xml_entry s' = cnmt_xml_entry s"
    using fields by (auto dest: forget_idx_fields simp: cnmt_xml_entry_def)
  show "tik_cert_entries s' = tik_cert_entries s"
    using fields by (simp add: tik_cert_entries_def)
qed

lemma expected_entries_added:
  "added s s' new \<Longrightarrow> expected_entries env s' = expected_entries env s"
  by (simp add: expected_entries_def same_units_expected)

lemma add_entries_added:
  assumes run: "add_entries env title_info s = Inr s'"
    and len: "length (nca_ctx s) = content_count title_info" and pos: "0 < content_count title_info"
  shows "added s s' (expected_entries env s)"
    and "\<forall>c\<in>set (butlast (nca_ctx s)). ctx_matches c"
proof -
  let ?n = "content_count title_info"
  from run obtain s1 s2 s3 where
    1: "for_each (add_nca_info env) [0..<?n] s = Inr s1"
    and 2: "add_cnmt_xml_info env title_info s1 = Inr s2"
    and 3: "for_each (add_ctx_data_info env) [0..<?n - 1] s2 = Inr s3"
    and 4: "add_tik_cert_info env s3 = Inr s'"
    by (auto simp: add_entries_def split: sum.splits)
  from add_nca_infos_added[OF 1]
  have a1: "added s s1 (map nca_entry (nca_ctx s))" and n1: "nca_ctx s1 = nca_ctx s"
    using len map_nth_upt_take[of "length (nca_ctx s)" "nca_ctx s" nca_entry] by simp_all
  from add_cnmt_xml_info_added[OF 2] n1 len pos
  have a2: "added s1 s2 [cnmt_xml_entry s1]" by simp
  have len2: "length (nca_ctx s2) = ?n"
    using added_frame_fields[OF a2] n1 len by simp
  have bl: "butlast (nca_ctx s2) = take (?n - 1) (nca_ctx s2)"
    using len2 by (simp add: butlast_conv_take)
  have idx: "\<forall>i\<in>set [0..<?n - 1]. i < length (nca_ctx s2)"
    using len2 by auto
  have tk: "map (\<lambda>i. ctx_data_entries env (nca_ctx s2 ! i)) [0..<?n - 1]
            = map (ctx_data_entries env) (butlast (nca_ctx s2))"
    using map_nth_upt_take[of "?n - 1" "nca_ctx s2" "ctx_data_entries env"] bl len2 by simp
  from add_ctx_data_infos_added[OF 3 idx]
  have a3': "added s2 s3 (concat (map (\<lambda>i. ctx_data_entries env (nca_ctx s2 ! i)) [0..<?n - 1]))"
    and m3': "\<forall>i\<in>set [0..<?n - 1]. ctx_matches (nca_ctx s2 ! i)"
    by blast+
  from a3' have a3: "added s2 s3 (concat (map (ctx_data_entries env) (butlast (nca_ctx s2))))"
    by (simp only: tk)
  from m3' have m3: "\<forall>i<?n - 1. ctx_matches (nca_ctx s2 ! i)"
    by simp
  from add_tik_cert_info_added[OF 4] have a4: "added s3 s' (tik_cert_entries s3)" .
  have a12: "added s s2 (map nca_entry (nca_ctx s) @ [cnmt_xml_entry s1])"
    by (rule added_trans[OF a1 a2])
  have e1: "cnmt_xml_entry s1 = cnmt_xml_entry s"
    by (rule same_units_expected(3)[OF a1])
  have e2: "map (ctx_data_entries env) (butlast (nca_ctx s2)) = map (ctx_data_entries env) (butlast (nca_ctx s))"
    by (rule same_units_expected(2)[OF a12])
  have a123: "added s s3 ((map nca_entry (nca_ctx s) @ [cnmt_xml_entry s1])
                          @ concat (map (ctx_data_entries env) (butlast (nca_ctx s2))))"
    by (rule added_trans[OF a12 a3])
  have e3: "tik_cert_entries s3 = tik_cert_entries s"
    by (rule same_units_expected(4)[OF a123])
  from added_trans[OF a123 a4] show "added s s' (expected_entries env s)"
    by (simp add: expected_entries_def e1 e2 e3)
  have su: "same_units (nca_ctx s2) (nca_ctx s)"
    by (rule added_same_units[OF a12])
  show "\<forall>c\<in>set (butlast (nca_ctx s)). ctx_matches c"
  proof
    fix c assume "c \<in> set (butlast (nca_ctx s))"
    then obtain i where "i < length (butlast (nca_ctx s))" and "butlast (nca_ctx s) ! i = c"
      unfolding in_set_conv_nth by blast
    then have i: "i < ?n - 1" and c: "c = nca_ctx s ! i"
      using len by (simp_all add: nth_butlast)
    from i len have "forget_idx (nca_ctx s2 ! i) = forget_idx (nca_ctx s ! i)"
      using same_units_nth[OF su, of i] by simp
    with m3 i c show "ctx_matches c"
      using ctx_matches_forget[of "nca_ctx s2 ! i" "nca_ctx s ! i"] by simp
  qed
qed

subsection \<open>What each phase adds to the trace\<close>

datatype call_kind = Setup | XmlGen | Credential | Poll | Transfer | Finalize

fun kind :: "call \<Rightarrow> call_kind" where
  "kind (NcaInitializeContext t k) = Setup"
| "kind CnmtInitializeContext = Setup"
| "kind (NcaSetDownloadDistributionType j) = Setup"
| "kind (NcaRemoveTitlekeyCrypto j) = Setup"
| "kind (ProgramInfoInitializeContext j) = Setup"
| "kind (ProgramInfoGenerateNcaPatch j) = Setup"
| "kind (ProgramInfoGenerateAuthoringToolXml j) = Setup"
| "kind (NacpInitializeContext j) = Setup"
| "kind (NacpGenerateAuthoringToolXml j) = Setup"
| "kind (LegalInfoInitializeContext j) = Setup"
| "kind (NcaEncryptHeader j) = Setup"
| "kind (CnmtGenerateAuthoringToolXml ids) = XmlGen"
| "kind TikGetCommonBlock = Credential"
| "kind TikConvertPersonalizedTicketToCommonTicket = Credential"
| "kind (CertRetrieveRawCertificateChainFromGameCardByRightsId r) = Credential"
| "kind (CertGenerateRawCertificateChainBySignatureIssuer i) = Credential"
| "kind UsbIsReady = Poll"
| "kind (UtilsSleep n) = Poll"
| "kind (UsbSendFileProperties n p h) = Transfer"
| "kind (UsbSendFilePropertiesCommon n name) = Transfer"
| "kind (UsbSendFileData d n) = Transfer"
| "kind (UsbSendNspHeader d n) = Transfer"
| "kind CnmtGenerateNcaPatch = Setup"
| "kind (NcaUpdateContentIdAndHash i h) = Finalize"

text \<open>The trace at the end of a phase, whether it fails or not.\<close>

definition trace_of :: "('a \<Rightarrow> dump_state) \<Rightarrow> failure + 'a \<Rightarrow> call list" where
  "trace_of g r = (case r of Inl (m, tr) \<Rightarrow> tr | Inr x \<Rightarrow> trace (g x))"

definition ext :: "call_kind set \<Rightarrow> call list \<Rightarrow> call list \<Rightarrow> bool" where
  "ext K tr tr' = (\<exists>new. tr' = tr @ new \<and> (\<forall>c\<in>set new. kind c \<in> K))"

lemma trace_of_simps [simp]:
  "trace_of g (Inl e) = snd e"
  "trace_of g (Inr x) = trace (g x)"
  by (simp_all add: trace_of_def split: prod.splits)

lemma ext_refl [simp]: "ext K tr tr"
  by (simp add: ext_def)

lemma ext_trans: "ext K a b \<Longrightarrow> ext K b c \<Longrightarrow> ext K a c"
  by (fastforce simp: ext_def)

lemma ext_mono: "ext K a b \<Longrightarrow> K \<subseteq> K' \<Longrightarrow> ext K' a b"
  by (fastforce simp: ext_def)

lemma ext_snoc: "kind c \<in> K \<Longrightarrow> ext K tr (tr @ [c])"
  by (simp add: ext_def)

lemma ext_snoc2: "kind c \<in> K \<Longrightarrow> kind d \<in> K \<Longrightarrow> ext K tr (tr @ [c, d])"
  by (simp add: ext_def)


lemma ext_none:
  "ext K tr tr' \<Longrightarrow> k \<notin> K \<Longrightarrow> \<forall>c\<in>set tr. kind c \<noteq> k \<Longrightarrow> \<forall>c\<in>set tr'. kind c \<noteq> k"
  by (auto simp: ext_def)

lemma ext_filter:
  "ext K tr tr' \<Longrightarrow> k \<notin> K \<Longrightarrow> filter (\<lambda>c. kind c = k) tr' = filter (\<lambda>c. kind c = k) tr"
  by (auto simp: ext_def filter_empty_conv)

lemma for_each_ext:
  assumes "\<And>s x. x \<in> set xs \<Longrightarrow> ext K (trace (g s)) (trace_of g (f s x))"
  shows "ext K (trace (g s)) (trace_of g (for_each f xs s))"
  using assms
proof (induction xs arbitrary: s)
  case Nil
  then show ?case by simp
next
  case (Cons x xs)
  have step: "ext K (trace (g s)) (trace_of g (f s x))"
    using Cons.prems by simp
  show ?case
  proof (cases "f s x")
    case (Inl e)
    with step show ?thesis by simp
  next
    case (Inr s1)
    have "ext K (trace (g s1)) (trace_of g (for_each f xs s1))"
      using Cons.IH Cons.prems by simp
    with step Inr show ?thesis
      by (auto intro: ext_trans)
  qed
qed

lemma steps_ext:
  assumes "\<And>s f. f \<in> set fs \<Longrightarrow> ext K (trace s) (trace_of id (f s))"
  shows "ext K (trace s) (trace_of id (steps fs s))"
  unfolding steps_def using for_each_ext[of fs K id "\<lambda>s f. f s" s] assms by simp

text \<open>Pass 1.\<close>

lemma init_meta_ext: "ext {Setup} (trace s) (trace_of id (init_meta env title_info s))"
  by (auto simp: init_meta_def log_def set_nca_def Let_def ext_def split: option.splits)

lemma transform_content_ext:
  "ext {Setup} (trace s) (trace_of snd (transform_content env opts j (cur, s)))"
  by (auto simp: transform_content_def log_def Let_def ext_def split: option.splits)

lemma program_case_ext:
  "ext {Setup} (trace s) (trace_of snd (program_case env opts j (cur, s)))"
  by (auto simp: program_case_def log_def Let_def ext_def split: option.splits)

lemma control_case_ext:
  "ext {Setup} (trace s) (trace_of snd (control_case env title_info j (cur, s)))"
  by (auto simp: control_case_def log_def Let_def ext_def split: option.splits)

lemma legal_info_case_ext:
  "ext {Setup} (trace s) (trace_of snd (legal_info_case env j (cur, s)))"
  by (auto simp: legal_info_case_def log_def Let_def ext_def split: option.splits)

lemma process_content_ext:
  "ext {Setup} (trace s) (trace_of snd (process_content env opts title_info j content_info (cur, s)))"
proof -
  let ?r = "(case ci_content_type content_info of
              NcmContentType_Program \<Rightarrow> program_case env opts j (cur, s)
            | NcmContentType_Control \<Rightarrow> control_case env title_info j (cur, s)
            | NcmContentType_LegalInformation \<Rightarrow> legal_info_case env j (cur, s)
            | _ \<Rightarrow> Inr (cur, s))"
  have 1: "ext {Setup} (trace s) (trace_of snd ?r)"
    using program_case_ext[of s env opts j cur] control_case_ext[of s env title_info j cur]
      legal_info_case_ext[of s env j cur]
    by (cases "ci_content_type content_info") simp_all
  show ?thesis
  proof (cases ?r)
    case (Inl e)
    with 1 show ?thesis by (simp add: process_content_def)
  next
    case (Inr cs)
    obtain cur1 s1 where cs: "cs = (cur1, s1)" by (cases cs)
    have "ext {Setup} (trace s1)
            (trace_of snd (case e_ncaEncryptHeader env cur1 of
                             None \<Rightarrow> Inl (''encrypt nca header failed'', trace (log (NcaEncryptHeader j) s1))
                           | Some r \<Rightarrow> Inr (cur1\<lparr>nca_rest := r\<rparr>, log (NcaEncryptHeader j) s1)))"
      by (auto simp: log_def ext_def split: option.splits)
    with 1 Inr cs show ?thesis
      by (auto simp: process_content_def Let_def intro: ext_trans)
  qed
qed

lemma init_content_ext:
  "ext {Setup} (trace (snd js)) (trace_of snd (init_content env opts title_info js content_info))"
proof -
  obtain j s where js: "js = (j, s)" by (cases js)
  show ?thesis
  proof (cases "ci_content_type content_info = NcmContentType_Meta")
    case True
    with js show ?thesis by (simp add: init_content_def)
  next
    case False
    let ?c = "NcaInitializeContext (ci_content_type content_info) (ci_id_offset content_info)"
    show ?thesis
    proof (cases "ncaInitializeContext env (storage_id title_info) (hfs_of title_info) (Some content_info) (tik s)")
      case None
      with False js show ?thesis
        by (simp add: init_content_def log_def ext_snoc)
    next
      case (Some ct)
      obtain cur tik' where ct: "ct = (cur, tik')" by (cases ct)
      let ?s1 = "(log ?c s)\<lparr>tik := tik'\<rparr>"
      have 0: "ext {Setup} (trace s) (trace ?s1)"
        by (simp add: log_def ext_snoc)
      show ?thesis
      proof (cases "rights_id_available cur \<and> \<not> titlekey_retrieved cur")
        case True
        with False js Some ct 0 show ?thesis
          by (simp add: init_content_def set_nca_def Let_def)
      next
        case skip: False
        have 1: "ext {Setup} (trace ?s1) (trace_of snd (transform_content env opts j (cur, ?s1)))"
          by (rule transform_content_ext)
        show ?thesis
        proof (cases "transform_content env opts j (cur, ?s1)")
          case (Inl e)
          with False js Some ct skip 0 1 show ?thesis
            by (auto simp: init_content_def Let_def intro: ext_trans)
        next
          case (Inr cs)
          obtain cur1 s2 where cs: "cs = (cur1, s2)" by (cases cs)
          have 2: "ext {Setup} (trace s2)
                     (trace_of snd (process_content env opts title_info j content_info (cur1, s2)))"
            by (rule process_content_ext)
          have 02: "ext {Setup} (trace s) (trace s2)"
            using 0 1 Inr cs by (auto intro: ext_trans)
          show ?thesis
          proof (cases "process_content env opts title_info j content_info (cur1, s2)")
            case (Inl e)
            with False js Some ct skip Inr cs 02 2 show ?thesis
              by (auto simp: init_content_def Let_def intro: ext_trans)
          next
            case inr: (Inr cs')
            obtain cur2 s3 where cs': "cs' = (cur2, s3)" by (cases cs')
            from 02 2 inr cs' have "ext {Setup} (trace s) (trace s3)"
              by (auto intro: ext_trans)
            with False js Some ct skip Inr cs inr cs' show ?thesis
              by (auto simp: init_content_def Let_def set_nca_def)
          qed
        qed
      qed
    qed
  qed
qed

lemma init_contents_ext:
  "ext {Setup} (trace s) (trace_of id (init_contents env opts title_info s))"
proof -
  have "ext {Setup} (trace (snd (0::nat, s)))
          (trace_of snd (for_each (init_content env opts title_info) (content_infos title_info) (0, s)))"
    by (rule for_each_ext) (rule init_content_ext)
  then show ?thesis
    by (auto simp: init_contents_def split: sum.splits)
qed

lemma generate_cnmt_xml_ext:
  "ext {XmlGen} (trace s) (trace_of id (generate_cnmt_xml env title_info label s))"
  by (auto simp: generate_cnmt_xml_def log_def Let_def ext_def split: option.splits)


lemma resolve_credentials_stripped:
  "remove_titlekey_crypto opts \<Longrightarrow>
   resolve_credentials env opts title_info s = Inr (s\<lparr>retrieve_tik_cert := False\<rparr>)"
  by (simp add: resolve_credentials_def)



lemma set_data_idx_trace [simp]: "trace (set_data_idx i k s) = trace s"
  by (simp add: set_data_idx_def set_nca_def)







subsection \<open>The connection poll\<close>




lemma usb_wait_ext: "ext {Poll} tr (snd (usb_wait env start now tr))"
proof (induction env start now tr rule: usb_wait.induct)
  case (1 env start now tr)
  show ?case
  proof (cases "now - start \<ge> 10 \<or> e_usb env tr UsbIsReady")
    case True
    then show ?thesis
      by (subst usb_wait.simps) (auto simp: ext_snoc)
  next
    case False
    then have "ext {Poll} (tr @ [UsbIsReady, UtilsSleep 1])
                 (snd (usb_wait env start (now + 1) (tr @ [UsbIsReady, UtilsSleep 1])))"
      using "1.IH" by simp
    moreover have "ext {Poll} tr (tr @ [UsbIsReady, UtilsSleep 1])"
      by (simp add: ext_snoc2)
    ultimately show ?thesis
      using False by (subst usb_wait.simps) (auto intro: ext_trans)
  qed
qed

lemma connect_ext: "ext {Poll} (trace s) (trace_of id (connect env s))"
  using usb_wait_ext[of "trace s" env "e_time env" "e_time env"]
  by (auto simp: connect_def split: prod.splits)






subsection \<open>The unit array after pass 1\<close>

lemma set_nca_simps [simp]:
  "nca_ctx (set_nca i c s) = (nca_ctx s)[i := c]"
  "pfs_file_ctx (set_nca i c s) = pfs_file_ctx s"
  "trace (set_nca i c s) = trace s"
  "tik (set_nca i c s) = tik s"
  "cnmt_ctx (set_nca i c s) = cnmt_ctx s"
  by (simp_all add: set_nca_def)

lemma log_simps [simp]:
  "nca_ctx (log c s) = nca_ctx s"
  "pfs_file_ctx (log c s) = pfs_file_ctx s"
  "trace (log c s) = trace s @ [c]"
  "tik (log c s) = tik s"
  "cnmt_ctx (log c s) = cnmt_ctx s"
  by (simp_all add: log_def)

lemma ncaInitializeContext_kind:
  "ncaInitializeContext env sid hfs (Some ci) t = Some (cur, t') \<Longrightarrow>
   content_type cur = ci_content_type ci \<and> content_type_ctx cur = None"
  by (auto simp: ncaInitializeContext_def split: option.splits)

lemma find_meta:
  "titleGetContentInfoByTypeAndIdOffset title_info NcmContentType_Meta 0 = Some ci \<Longrightarrow>
   ci \<in> set (content_infos title_info) \<and> ci_content_type ci = NcmContentType_Meta"
  by (auto simp: titleGetContentInfoByTypeAndIdOffset_def find_Some_iff)

lemma init_meta_units:
  assumes "init_meta env title_info s = Inr s'"
  shows "\<forall>k. k \<noteq> content_count title_info - 1 \<longrightarrow> nca_ctx s' ! k = nca_ctx s ! k"
    and "length (nca_ctx s') = length (nca_ctx s)"
    and "pfs_file_ctx s' = pfs_file_ctx s"
    and "\<exists>ci\<in>set (content_infos title_info). ci_content_type ci = NcmContentType_Meta"
    and "content_count title_info - 1 < length (nca_ctx s) \<Longrightarrow>
           content_type (nca_ctx s' ! (content_count title_info - 1)) = NcmContentType_Meta"
proof -
  from assms obtain ci meta tik' cnmt r where
    f: "titleGetContentInfoByTypeAndIdOffset title_info NcmContentType_Meta 0 = Some ci"
    and o: "ncaInitializeContext env (storage_id title_info) (hfs_of title_info) (Some ci) (tik s) = Some (meta, tik')"
    and s': "s' = set_nca (content_count title_info - 1) (meta\<lparr>nca_rest := r\<rparr>)
                   ((log CnmtInitializeContext ((log (NcaInitializeContext NcmContentType_Meta 0) s)\<lparr>tik := tik'\<rparr>))
                      \<lparr>cnmt_ctx := cnmt\<rparr>)"
    by (auto simp: init_meta_def Let_def ncaInitializeContext_def split: option.splits)
  from find_meta[OF f] show "\<exists>ci\<in>set (content_infos title_info). ci_content_type ci = NcmContentType_Meta"
    by blast
  show "length (nca_ctx s') = length (nca_ctx s)" by (simp add: s')
  show "pfs_file_ctx s' = pfs_file_ctx s" by (simp add: s')
  show "\<forall>k. k \<noteq> content_count title_info - 1 \<longrightarrow> nca_ctx s' ! k = nca_ctx s ! k"
    by (simp add: s')
  assume "content_count title_info - 1 < length (nca_ctx s)"
  with ncaInitializeContext_kind[OF o] find_meta[OF f]
  show "content_type (nca_ctx s' ! (content_count title_info - 1)) = NcmContentType_Meta"
    by (simp add: s')
qed

text \<open>What the per-unit collaborators leave alone: the unit's kind, size and flags
  of access. Its identifier is as \<^verbatim>\<open>ncaInitializeContext\<close> gave it.\<close>

definition same_unit :: "NcaContext \<Rightarrow> NcaContext \<Rightarrow> bool" where
  "same_unit a b =
     (content_id_str a = content_id_str b \<and> content_type a = content_type b
      \<and> content_size a = content_size b \<and> rights_id_available a = rights_id_available b
      \<and> titlekey_retrieved a = titlekey_retrieved b)"

lemma same_unit_refl [simp]: "same_unit a a"
  by (simp add: same_unit_def)

lemma same_unit_trans: "same_unit a b \<Longrightarrow> same_unit b c \<Longrightarrow> same_unit a c"
  by (simp add: same_unit_def)

lemma transform_content_unit:
  "transform_content env opts j (cur, s) = Inr (cur', s') \<Longrightarrow>
   same_unit cur' cur \<and> content_type_ctx cur' = content_type_ctx cur
   \<and> nca_ctx s' = nca_ctx s \<and> pfs_file_ctx s' = pfs_file_ctx s \<and> tik s' = tik s
   \<and> cnmt_ctx s' = cnmt_ctx s"
  by (auto simp: transform_content_def Let_def same_unit_def split: if_splits option.splits)

lemma program_case_unit:
  "program_case env opts j (cur, s) = Inr (cur', s') \<Longrightarrow>
   same_unit cur' cur \<and> (\<exists>p. content_type_ctx cur' = Some (ProgramInfoCtx p))
   \<and> nca_ctx s' = nca_ctx s \<and> pfs_file_ctx s' = pfs_file_ctx s \<and> tik s' = tik s
   \<and> cnmt_ctx s' = cnmt_ctx s"
  by (auto simp: program_case_def Let_def same_unit_def split: if_splits option.splits sum.splits)

lemma control_case_unit:
  "control_case env title_info j (cur, s) = Inr (cur', s') \<Longrightarrow>
   same_unit cur' cur \<and> (\<exists>n. content_type_ctx cur' = Some (NacpCtx n))
   \<and> nca_ctx s' = nca_ctx s \<and> pfs_file_ctx s' = pfs_file_ctx s \<and> tik s' = tik s
   \<and> cnmt_ctx s' = cnmt_ctx s"
  by (auto simp: control_case_def Let_def same_unit_def split: if_splits option.splits)

lemma legal_info_case_unit:
  "legal_info_case env j (cur, s) = Inr (cur', s') \<Longrightarrow>
   same_unit cur' cur \<and> (\<exists>l. content_type_ctx cur' = Some (LegalInfoCtx l))
   \<and> nca_ctx s' = nca_ctx s \<and> pfs_file_ctx s' = pfs_file_ctx s \<and> tik s' = tik s
   \<and> cnmt_ctx s' = cnmt_ctx s"
  by (auto simp: legal_info_case_def Let_def same_unit_def split: if_splits option.splits)

text \<open>The metadata context that the \<^verbatim>\<open>switch\<close> of lines 225-297 creates for a
  unit of a kind.\<close>

definition ctx_for :: "NcmContentType \<Rightarrow> type_ctx option \<Rightarrow> bool" where
  "ctx_for t tc =
     (case t of
        NcmContentType_Program \<Rightarrow> (\<exists>p. tc = Some (ProgramInfoCtx p))
      | NcmContentType_Control \<Rightarrow> (\<exists>n. tc = Some (NacpCtx n))
      | NcmContentType_LegalInformation \<Rightarrow> (\<exists>l. tc = Some (LegalInfoCtx l))
      | _ \<Rightarrow> tc = None)"

lemma process_content_unit:
  assumes "process_content env opts title_info j content_info (cur, s) = Inr (cur', s')"
    and "content_type_ctx cur = None"
  shows "same_unit cur' cur \<and> ctx_for (ci_content_type content_info) (content_type_ctx cur')
   \<and> nca_ctx s' = nca_ctx s \<and> pfs_file_ctx s' = pfs_file_ctx s \<and> tik s' = tik s
   \<and> cnmt_ctx s' = cnmt_ctx s"
proof -
  let ?r = "(case ci_content_type content_info of
              NcmContentType_Program \<Rightarrow> program_case env opts j (cur, s)
            | NcmContentType_Control \<Rightarrow> control_case env title_info j (cur, s)
            | NcmContentType_LegalInformation \<Rightarrow> legal_info_case env j (cur, s)
            | _ \<Rightarrow> Inr (cur, s))"
  from assms(1) obtain cur1 s1 where r: "?r = Inr (cur1, s1)"
    by (cases ?r) (auto simp: process_content_def)
  have 1: "same_unit cur1 cur \<and> ctx_for (ci_content_type content_info) (content_type_ctx cur1)
     \<and> nca_ctx s1 = nca_ctx s \<and> pfs_file_ctx s1 = pfs_file_ctx s \<and> tik s1 = tik s
     \<and> cnmt_ctx s1 = cnmt_ctx s"
    using r assms(2) program_case_unit[of env opts j cur s cur1 s1]
      control_case_unit[of env title_info j cur s cur1 s1] legal_info_case_unit[of env j cur s cur1 s1]
    by (cases "ci_content_type content_info") (auto simp: ctx_for_def)
  from assms(1) r obtain rr where "cur' = cur1\<lparr>nca_rest := rr\<rparr>" "s' = log (NcaEncryptHeader j) s1"
    by (auto simp: process_content_def Let_def split: option.splits)
  with 1 show ?thesis
    by (auto simp: same_unit_def)
qed

text \<open>A slot that the loop of lines 190-306 has filled from a content descriptor:
  the unit has the kind of the descriptor; it owns the metadata context of its
  kind, or none when its rights material is unavailable.\<close>

definition skipped :: "NcaContext \<Rightarrow> bool" where
  "skipped c = (rights_id_available c \<and> \<not> titlekey_retrieved c)"

definition unit_ok :: "NcmContentInfo \<Rightarrow> NcaContext \<Rightarrow> bool" where
  "unit_ok ci c =
     (content_type c = ci_content_type ci
      \<and> (if skipped c then content_type_ctx c = None
          else ctx_for (content_type c) (content_type_ctx c)))"

definition non_meta :: "NcmContentInfo list \<Rightarrow> NcmContentInfo list" where
  "non_meta cis = filter (\<lambda>ci. ci_content_type ci \<noteq> NcmContentType_Meta) cis"

lemma init_content_unit:
  assumes "init_content env opts title_info (j, s) ci = Inr (j', s')"
  shows "pfs_file_ctx s' = pfs_file_ctx s \<and> cnmt_ctx s' = cnmt_ctx s
    \<and> (if ci_content_type ci = NcmContentType_Meta then j' = j \<and> nca_ctx s' = nca_ctx s
        else j' = j + 1 \<and> (\<exists>c. nca_ctx s' = (nca_ctx s)[j := c] \<and> unit_ok ci c))"
proof (cases "ci_content_type ci = NcmContentType_Meta")
  case True
  with assms show ?thesis by (simp add: init_content_def)
next
  case False
  let ?s1 = "log (NcaInitializeContext (ci_content_type ci) (ci_id_offset ci)) s"
  from assms False obtain cur tik' where
    o: "ncaInitializeContext env (storage_id title_info) (hfs_of title_info) (Some ci) (tik s) = Some (cur, tik')"
    by (auto simp: init_content_def Let_def split: option.splits)
  note k = ncaInitializeContext_kind[OF o]
  show ?thesis
  proof (cases "skipped cur")
    case True
    with assms False o have "j' = j + 1" "s' = set_nca j cur (?s1\<lparr>tik := tik'\<rparr>)"
      by (auto simp: init_content_def Let_def skipped_def)
    with True k False show ?thesis
      by (auto simp: unit_ok_def)
  next
    case ns: False
    from assms False o ns obtain cur1 s2 cur2 s3 where
      t: "transform_content env opts j (cur, ?s1\<lparr>tik := tik'\<rparr>) = Inr (cur1, s2)"
      and p: "process_content env opts title_info j ci (cur1, s2) = Inr (cur2, s3)"
      and r: "j' = j + 1" "s' = set_nca j cur2 s3"
      by (auto simp: init_content_def Let_def skipped_def split: sum.splits)
    from transform_content_unit[OF t] k
    have 1: "same_unit cur1 cur" "content_type_ctx cur1 = None" "nca_ctx s2 = nca_ctx s"
      "pfs_file_ctx s2 = pfs_file_ctx s" "cnmt_ctx s2 = cnmt_ctx s"
      by simp_all
    from process_content_unit[OF p 1(2)]
    have 2: "same_unit cur2 cur1" "ctx_for (ci_content_type ci) (content_type_ctx cur2)"
      "nca_ctx s3 = nca_ctx s2" "pfs_file_ctx s3 = pfs_file_ctx s2" "cnmt_ctx s3 = cnmt_ctx s2"
      by simp_all
    from same_unit_trans[OF 2(1) 1(1)] have su: "same_unit cur2 cur" .
    with ns k 2(2) have "unit_ok ci cur2"
      by (auto simp: unit_ok_def skipped_def same_unit_def)
    with r 1 2 False show ?thesis
      by auto
  qed
qed

lemma init_contents_loop:
  "for_each (init_content env opts title_info) cis (j, s) = Inr (j', s') \<Longrightarrow>
   j' = j + length (non_meta cis)
   \<and> length (nca_ctx s') = length (nca_ctx s)
   \<and> pfs_file_ctx s' = pfs_file_ctx s \<and> cnmt_ctx s' = cnmt_ctx s
   \<and> (\<forall>k. k < j \<or> j' \<le> k \<longrightarrow> nca_ctx s' ! k = nca_ctx s ! k)
   \<and> (\<forall>k. j \<le> k \<and> k < j' \<and> k < length (nca_ctx s) \<longrightarrow> unit_ok (non_meta cis ! (k - j)) (nca_ctx s' ! k))"
proof (induction cis arbitrary: j s)
  case Nil
  then show ?case by (auto simp: non_meta_def)
next
  case (Cons ci cis)
  from Cons.prems obtain j1 s1 where
    1: "init_content env opts title_info (j, s) ci = Inr (j1, s1)"
    and rest: "for_each (init_content env opts title_info) cis (j1, s1) = Inr (j', s')"
    by (cases "init_content env opts title_info (j, s) ci") auto
  note u = init_content_unit[OF 1]
  note ih = Cons.IH[OF rest]
  show ?case
  proof (cases "ci_content_type ci = NcmContentType_Meta")
    case True
    with u have "j1 = j" "nca_ctx s1 = nca_ctx s" "pfs_file_ctx s1 = pfs_file_ctx s" "cnmt_ctx s1 = cnmt_ctx s"
      by simp_all
    with ih True show ?thesis
      by (simp add: non_meta_def)
  next
    case False
    with u obtain c where j1: "j1 = j + 1" and c: "nca_ctx s1 = (nca_ctx s)[j := c]" "unit_ok ci c"
      and f: "pfs_file_ctx s1 = pfs_file_ctx s" "cnmt_ctx s1 = cnmt_ctx s"
      by auto
    have nm: "non_meta (ci # cis) = ci # non_meta cis"
      using False by (simp add: non_meta_def)
    from ih j1 c f have a: "j' = j + length (non_meta (ci # cis))"
      "length (nca_ctx s') = length (nca_ctx s)"
      "pfs_file_ctx s' = pfs_file_ctx s" "cnmt_ctx s' = cnmt_ctx s"
      by (simp_all add: nm)
    have b: "\<forall>k. k < j \<or> j' \<le> k \<longrightarrow> nca_ctx s' ! k = nca_ctx s ! k"
    proof (intro allI impI)
      fix k assume k: "k < j \<or> j' \<le> k"
      with a(1) j1 have k1: "k < j1 \<or> j' \<le> k" and kj: "k \<noteq> j" by (auto simp: nm)
      from ih k1 have "nca_ctx s' ! k = nca_ctx s1 ! k" by blast
      also have "\<dots> = nca_ctx s ! k" using c(1) kj by simp
      finally show "nca_ctx s' ! k = nca_ctx s ! k" .
    qed
    have d: "\<forall>k. j \<le> k \<and> k < j' \<and> k < length (nca_ctx s) \<longrightarrow> unit_ok (non_meta (ci # cis) ! (k - j)) (nca_ctx s' ! k)"
    proof (intro allI impI)
      fix k assume k: "j \<le> k \<and> k < j' \<and> k < length (nca_ctx s)"
      show "unit_ok (non_meta (ci # cis) ! (k - j)) (nca_ctx s' ! k)"
      proof (cases "k = j")
        case True
        with j1 have "k < j1 \<or> j' \<le> k" by simp
        with ih have "nca_ctx s' ! k = nca_ctx s1 ! k" by blast
        with True c k show ?thesis by (simp add: nm)
      next
        case False
        with k j1 have k1: "j1 \<le> k \<and> k < j' \<and> k < length (nca_ctx s1)" by (simp add: c)
        with ih have "unit_ok (non_meta cis ! (k - j1)) (nca_ctx s' ! k)" by blast
        moreover from False k j1 have "k - j = Suc (k - j1)" by arith
        ultimately show ?thesis by (simp add: nm)
      qed
    qed
    from a b d show ?thesis by blast
  qed
qed

lemma init_contents_units:
  assumes "init_contents env opts title_info s = Inr s'"
  shows "length (nca_ctx s') = length (nca_ctx s)"
    and "pfs_file_ctx s' = pfs_file_ctx s" and "cnmt_ctx s' = cnmt_ctx s"
    and "\<forall>k. length (non_meta (content_infos title_info)) \<le> k \<longrightarrow> nca_ctx s' ! k = nca_ctx s ! k"
    and "\<forall>k. k < length (non_meta (content_infos title_info)) \<and> k < length (nca_ctx s)
           \<longrightarrow> unit_ok (non_meta (content_infos title_info) ! k) (nca_ctx s' ! k)"
proof -
  from assms obtain j' where
    l: "for_each (init_content env opts title_info) (content_infos title_info) (0, s) = Inr (j', s')"
    by (auto simp: init_contents_def split: sum.splits)
  note r = init_contents_loop[OF l]
  from r show "length (nca_ctx s') = length (nca_ctx s)" "pfs_file_ctx s' = pfs_file_ctx s"
    "cnmt_ctx s' = cnmt_ctx s"
    by simp_all
  from r show "\<forall>k. length (non_meta (content_infos title_info)) \<le> k \<longrightarrow> nca_ctx s' ! k = nca_ctx s ! k"
    by simp
  from r show "\<forall>k. k < length (non_meta (content_infos title_info)) \<and> k < length (nca_ctx s)
           \<longrightarrow> unit_ok (non_meta (content_infos title_info) ! k) (nca_ctx s' ! k)"
    by simp
qed

lemma non_meta_length:
  "\<exists>ci\<in>set cis. ci_content_type ci = NcmContentType_Meta \<Longrightarrow> length (non_meta cis) < length cis"
proof -
  assume "\<exists>ci\<in>set cis. ci_content_type ci = NcmContentType_Meta"
  then obtain ci where "ci \<in> set cis" "\<not> ci_content_type ci \<noteq> NcmContentType_Meta" by auto
  then show ?thesis
    unfolding non_meta_def by (rule length_filter_less)
qed

subsection \<open>The state that pass 1 leaves\<close>

lemma allocate_state:
  "allocate env title_info = Inr s0 \<Longrightarrow>
   nca_ctx s0 = replicate (content_count title_info) zero_nca_ctx
   \<and> pfs_file_ctx s0 = pfsInitializeFileContext \<and> trace s0 = []
   \<and> tik s0 = \<lparr>tik_size = 0, tik_data = [], rights_id_str = []\<rparr>
   \<and> nsp_offset s0 = 0 \<and> retrieve_tik_cert s0 = False"
  by (auto simp: allocate_def split: if_splits option.splits)

lemma layout_phases:
  assumes "layout env opts title_info s0 = Inr s"
  obtains s1 s2 s3 s4 s5 where
    "init_meta env title_info s0 = Inr s1"
    "init_contents env opts title_info s1 = Inr s2"
    "generate_cnmt_xml env title_info ''cnmt xml #1 failed'' s2 = Inr s3"
    "resolve_credentials env opts title_info s3 = Inr s4"
    "add_entries env title_info s4 = Inr s5"
    "write_header_1 env s5 = Inr s"
  using assms by (auto simp: layout_def split: sum.splits)

lemma init_meta_slot:
  assumes "init_meta env title_info s = Inr s'"
    and "content_count title_info - 1 < length (nca_ctx s)"
  shows "\<exists>ci meta t'.
           titleGetContentInfoByTypeAndIdOffset title_info NcmContentType_Meta 0 = Some ci
         \<and> e_ncaOpen env (storage_id title_info) (hfs_of title_info) ci (tik s) = Some (meta, t')
         \<and> same_unit (nca_ctx s' ! (content_count title_info - 1)) (meta\<lparr>content_type := NcmContentType_Meta\<rparr>)
         \<and> content_type_ctx (nca_ctx s' ! (content_count title_info - 1)) = None"
proof -
  from assms(1) obtain ci meta tik' cnmt r where
    f: "titleGetContentInfoByTypeAndIdOffset title_info NcmContentType_Meta 0 = Some ci"
    and o: "e_ncaOpen env (storage_id title_info) (hfs_of title_info) ci (tik s) = Some (meta, tik')"
    and s': "s' = set_nca (content_count title_info - 1)
                   (meta\<lparr>content_type := ci_content_type ci, content_type_ctx := None, nca_rest := r\<rparr>)
                   ((log CnmtInitializeContext ((log (NcaInitializeContext NcmContentType_Meta 0) s)\<lparr>tik := tik'\<rparr>))
                      \<lparr>cnmt_ctx := cnmt\<rparr>)"
    by (auto simp: init_meta_def Let_def ncaInitializeContext_def split: option.splits)
  from find_meta[OF f] have "ci_content_type ci = NcmContentType_Meta" by simp
  with f o s' assms(2) show ?thesis
    by (auto simp: same_unit_def)
qed

lemma generate_cnmt_xml_frame:
  "generate_cnmt_xml env title_info label s = Inr s' \<Longrightarrow>
   nca_ctx s' = nca_ctx s \<and> pfs_file_ctx s' = pfs_file_ctx s \<and> tik s' = tik s
   \<and> retrieve_tik_cert s' = retrieve_tik_cert s
   \<and> trace s' = trace s @ [CnmtGenerateAuthoringToolXml (map content_id_str (nca_ctx s))]
   \<and> e_cnmtGenerateAuthoringToolXml env (cnmt_ctx s) (nca_ctx s) (content_count title_info) = Some (cnmt_ctx s')"
  by (auto simp: generate_cnmt_xml_def log_def Let_def split: option.splits)

lemma resolve_credentials_frame:
  "resolve_credentials env opts title_info s = Inr s' \<Longrightarrow>
   nca_ctx s' = nca_ctx s \<and> pfs_file_ctx s' = pfs_file_ctx s \<and> cnmt_ctx s' = cnmt_ctx s
   \<and> retrieve_tik_cert s' = (\<not> remove_titlekey_crypto opts \<and> tik_size (tik s) > 0)"
  by (auto simp: resolve_credentials_def log_def Let_def split: if_splits option.splits)

lemma write_header_1_frame:
  "write_header_1 env s = Inr s' \<Longrightarrow>
   nca_ctx s' = nca_ctx s \<and> pfs_file_ctx s' = pfs_file_ctx s \<and> cnmt_ctx s' = cnmt_ctx s
   \<and> tik s' = tik s \<and> retrieve_tik_cert s' = retrieve_tik_cert s
   \<and> raw_cert_chain_size s' = raw_cert_chain_size s \<and> raw_cert_chain s' = raw_cert_chain s
   \<and> trace s' = trace s \<and> path s' = path s \<and> nsp_offset s' = nsp_offset s
   \<and> nsp_header_size s' = pfs_header_size env (pfs_file_ctx s)
   \<and> nsp_size s' = pfs_header_size env (pfs_file_ctx s) + fs_size (pfs_file_ctx s)
   \<and> pfs_header_size env (pfs_file_ctx s) \<le> BLOCK_SIZE"
  by (auto simp: write_header_1_def pfsWriteFileContextHeaderToMemoryBuffer_def split: if_splits)

lemma expected_entries_cong:
  "nca_ctx s' = nca_ctx s \<Longrightarrow> cnmt_ctx s' = cnmt_ctx s \<Longrightarrow> tik s' = tik s \<Longrightarrow>
   retrieve_tik_cert s' = retrieve_tik_cert s \<Longrightarrow> raw_cert_chain_size s' = raw_cert_chain_size s \<Longrightarrow>
   expected_entries env s' = expected_entries env s"
  by (simp add: expected_entries_def cnmt_xml_entry_def tik_cert_entries_def)

text \<open>The table that pass 1 leaves is the expected table of the state it leaves.\<close>

lemma layout_table:
  assumes a: "allocate env title_info = Inr s0" and l: "layout env opts title_info s0 = Inr s"
  shows "length (nca_ctx s) = content_count title_info"
    and "0 < content_count title_info"
    and "pfs_entries (pfs_file_ctx s) = expected_entries env s"
    and "fs_size (pfs_file_ctx s) = sum_list (map pfs_entry_size (expected_entries env s))"
    and "nsp_header_size s = pfs_header_size env (pfs_file_ctx s)"
    and "nsp_size s = nsp_header_size s + fs_size (pfs_file_ctx s)"
    and "\<forall>c\<in>set (butlast (nca_ctx s)). ctx_matches c"
    and "pfs_header_size env (pfs_file_ctx s) \<le> BLOCK_SIZE"
proof -
  from l obtain s1 s2 s3 s4 s5 where
    1: "init_meta env title_info s0 = Inr s1"
    and 2: "init_contents env opts title_info s1 = Inr s2"
    and 3: "generate_cnmt_xml env title_info ''cnmt xml #1 failed'' s2 = Inr s3"
    and 4: "resolve_credentials env opts title_info s3 = Inr s4"
    and 5: "add_entries env title_info s4 = Inr s5"
    and 6: "write_header_1 env s5 = Inr s"
    by (rule layout_phases)
  note a0 = allocate_state[OF a]
  note m = init_meta_units[OF 1]
  note c = init_contents_units[OF 2]
  note g = generate_cnmt_xml_frame[OF 3]
  note r = resolve_credentials_frame[OF 4]
  note h = write_header_1_frame[OF 6]
  from m(4) show pos: "0 < content_count title_info"
    by (auto simp: content_count_def)
  from g have g1: "nca_ctx s3 = nca_ctx s2" "pfs_file_ctx s3 = pfs_file_ctx s2"
    by simp_all
  have len4: "length (nca_ctx s4) = content_count title_info"
    using a0 m(2) c(1) g1 r by simp
  have pfs4: "pfs_file_ctx s4 = pfsInitializeFileContext"
    using a0 m(3) c(2) g1 r by simp
  note e = add_entries_added[OF 5 len4 pos]
  note f = added_frame_fields[OF e(1)]
  from h have s: "nca_ctx s = nca_ctx s5" "pfs_file_ctx s = pfs_file_ctx s5" "cnmt_ctx s = cnmt_ctx s5"
    "tik s = tik s5" "retrieve_tik_cert s = retrieve_tik_cert s5" "raw_cert_chain_size s = raw_cert_chain_size s5"
    "nsp_header_size s = pfs_header_size env (pfs_file_ctx s5)"
    "nsp_size s = pfs_header_size env (pfs_file_ctx s5) + fs_size (pfs_file_ctx s5)"
    by simp_all
  have ee: "expected_entries env s = expected_entries env s4"
    using expected_entries_cong[of s s5 env] s expected_entries_added[OF e(1), of env] by simp
  show "length (nca_ctx s) = content_count title_info"
    using s f len4 by simp
  show "pfs_entries (pfs_file_ctx s) = expected_entries env s"
    using e(1) pfs4 s ee by (simp add: added_def pfsInitializeFileContext_def)
  show "fs_size (pfs_file_ctx s) = sum_list (map pfs_entry_size (expected_entries env s))"
    using e(1) pfs4 s ee by (simp add: added_def pfsInitializeFileContext_def)
  show "nsp_header_size s = pfs_header_size env (pfs_file_ctx s)"
    using s by simp
  show "nsp_size s = nsp_header_size s + fs_size (pfs_file_ctx s)"
    using s by simp
  have su: "map forget_idx (nca_ctx s) = map forget_idx (nca_ctx s4)"
    using added_same_units[OF e(1)] s by (simp add: same_units_def)
  show "\<forall>c\<in>set (butlast (nca_ctx s)). ctx_matches c"
  proof
    fix c assume "c \<in> set (butlast (nca_ctx s))"
    then obtain i where i: "i < length (butlast (nca_ctx s))" "c = butlast (nca_ctx s) ! i"
      by (auto simp: in_set_conv_nth)
    from su have len: "length (nca_ctx s) = length (nca_ctx s4)"
      by (rule map_eq_imp_length_eq)
    from i len have i4: "i < length (butlast (nca_ctx s4))" by simp
    from i len have ii: "i < length (nca_ctx s)" "i < length (nca_ctx s4)" by simp_all
    have "forget_idx (nca_ctx s ! i) = map forget_idx (nca_ctx s) ! i"
      using ii by simp
    also have "\<dots> = map forget_idx (nca_ctx s4) ! i"
      by (simp only: su)
    also have "\<dots> = forget_idx (nca_ctx s4 ! i)"
      using ii by simp
    finally have "forget_idx c = forget_idx (butlast (nca_ctx s4) ! i)"
      using i i4 by (simp add: nth_butlast)
    moreover from e(2) i4 have "ctx_matches (butlast (nca_ctx s4) ! i)"
      using nth_mem[OF i4] by blast
    ultimately show "ctx_matches c"
      using ctx_matches_forget by blast
  qed
  show "pfs_header_size env (pfs_file_ctx s) \<le> BLOCK_SIZE"
    using h s by simp
qed

lemma same_units_nth_fields:
  assumes "same_units xs ys" and "i < length xs"
  shows "content_id_str (xs ! i) = content_id_str (ys ! i)"
    and "content_type (xs ! i) = content_type (ys ! i)"
    and "content_size (xs ! i) = content_size (ys ! i)"
    and "content_type_ctx (xs ! i) = content_type_ctx (ys ! i)"
    and "rights_id_available (xs ! i) = rights_id_available (ys ! i)"
    and "titlekey_retrieved (xs ! i) = titlekey_retrieved (ys ! i)"
proof -
  from assms have len: "length ys = length xs"
    by (simp add: same_units_length)
  have "forget_idx (xs ! i) = map forget_idx xs ! i"
    using assms(2) by simp
  also have "\<dots> = map forget_idx ys ! i"
    using assms(1) by (simp only: same_units_def)
  also have "\<dots> = forget_idx (ys ! i)"
    using assms(2) len by simp
  finally have f: "forget_idx (xs ! i) = forget_idx (ys ! i)" .
  from forget_idx_fields[OF f]
  show "content_id_str (xs ! i) = content_id_str (ys ! i)"
    and "content_type (xs ! i) = content_type (ys ! i)"
    and "content_size (xs ! i) = content_size (ys ! i)"
    and "content_type_ctx (xs ! i) = content_type_ctx (ys ! i)"
    by simp_all
  from f have "rights_id_available (forget_idx (xs ! i)) = rights_id_available (forget_idx (ys ! i))"
    "titlekey_retrieved (forget_idx (xs ! i)) = titlekey_retrieved (forget_idx (ys ! i))"
    by simp_all
  then show "rights_id_available (xs ! i) = rights_id_available (ys ! i)"
    and "titlekey_retrieved (xs ! i) = titlekey_retrieved (ys ! i)"
    by (simp_all add: forget_idx_def)
qed

lemma unit_ok_cong:
  "content_type a = content_type b \<Longrightarrow> content_type_ctx a = content_type_ctx b \<Longrightarrow>
   rights_id_available a = rights_id_available b \<Longrightarrow> titlekey_retrieved a = titlekey_retrieved b \<Longrightarrow>
   unit_ok ci a = unit_ok ci b"
  by (simp add: unit_ok_def skipped_def)

text \<open>The units after pass 1, slot by slot.\<close>

lemma layout_units:
  assumes a: "allocate env title_info = Inr s0" and l: "layout env opts title_info s0 = Inr s"
  shows "\<exists>ci meta t'.
           titleGetContentInfoByTypeAndIdOffset title_info NcmContentType_Meta 0 = Some ci
         \<and> e_ncaOpen env (storage_id title_info) (hfs_of title_info) ci (tik s0) = Some (meta, t')
         \<and> content_type (nca_ctx s ! (content_count title_info - 1)) = NcmContentType_Meta
         \<and> content_id_str (nca_ctx s ! (content_count title_info - 1)) = content_id_str meta
         \<and> content_size (nca_ctx s ! (content_count title_info - 1)) = content_size meta"
    and "length (non_meta (content_infos title_info)) < content_count title_info"
    and "\<forall>k<length (non_meta (content_infos title_info)).
           unit_ok (non_meta (content_infos title_info) ! k) (nca_ctx s ! k)"
proof -
  from l obtain s1 s2 s3 s4 s5 where
    1: "init_meta env title_info s0 = Inr s1"
    and 2: "init_contents env opts title_info s1 = Inr s2"
    and 3: "generate_cnmt_xml env title_info ''cnmt xml #1 failed'' s2 = Inr s3"
    and 4: "resolve_credentials env opts title_info s3 = Inr s4"
    and 5: "add_entries env title_info s4 = Inr s5"
    and 6: "write_header_1 env s5 = Inr s"
    by (rule layout_phases)
  let ?n = "content_count title_info"
  note a0 = allocate_state[OF a]
  note m = init_meta_units[OF 1]
  note c = init_contents_units[OF 2]
  note g = generate_cnmt_xml_frame[OF 3]
  note r = resolve_credentials_frame[OF 4]
  note h = write_header_1_frame[OF 6]
  note t = layout_table[OF a l]
  from t(2) a0 have in0: "?n - 1 < length (nca_ctx s0)" by simp
  from non_meta_length[OF m(4)] show nm: "length (non_meta (content_infos title_info)) < ?n"
    by (simp add: content_count_def)
  have len1: "length (nca_ctx s1) = ?n" using m(2) a0 by simp
  have len4: "length (nca_ctx s4) = ?n" using len1 c(1) g r by simp
  note e = add_entries_added[OF 5 len4 t(2)]
  have su: "same_units (nca_ctx s) (nca_ctx s4)"
    using added_same_units[OF e(1)] h by simp
  have n42: "nca_ctx s4 = nca_ctx s2" using g r by simp
  from init_meta_slot[OF 1 in0] obtain ci meta t' where
    f: "titleGetContentInfoByTypeAndIdOffset title_info NcmContentType_Meta 0 = Some ci"
    and o: "e_ncaOpen env (storage_id title_info) (hfs_of title_info) ci (tik s0) = Some (meta, t')"
    and u: "same_unit (nca_ctx s1 ! (?n - 1)) (meta\<lparr>content_type := NcmContentType_Meta\<rparr>)"
    by blast
  have "nca_ctx s2 ! (?n - 1) = nca_ctx s1 ! (?n - 1)"
    using c(4) nm by simp
  with n42 have k: "nca_ctx s4 ! (?n - 1) = nca_ctx s1 ! (?n - 1)" by simp
  have lt: "?n - 1 < length (nca_ctx s)" using t(1) t(2) by simp
  note sf = same_units_nth_fields[OF su lt]
  from sf(1,2,3) k u
  have "content_type (nca_ctx s ! (?n - 1)) = NcmContentType_Meta
         \<and> content_id_str (nca_ctx s ! (?n - 1)) = content_id_str meta
         \<and> content_size (nca_ctx s ! (?n - 1)) = content_size meta"
    by (simp add: same_unit_def)
  with f o show "\<exists>ci meta t'.
           titleGetContentInfoByTypeAndIdOffset title_info NcmContentType_Meta 0 = Some ci
         \<and> e_ncaOpen env (storage_id title_info) (hfs_of title_info) ci (tik s0) = Some (meta, t')
         \<and> content_type (nca_ctx s ! (content_count title_info - 1)) = NcmContentType_Meta
         \<and> content_id_str (nca_ctx s ! (content_count title_info - 1)) = content_id_str meta
         \<and> content_size (nca_ctx s ! (content_count title_info - 1)) = content_size meta"
    by blast
  show "\<forall>k<length (non_meta (content_infos title_info)).
           unit_ok (non_meta (content_infos title_info) ! k) (nca_ctx s ! k)"
  proof (intro allI impI)
    fix k assume k: "k < length (non_meta (content_infos title_info))"
    with nm len1 have k1: "k < length (nca_ctx s1)" by simp
    from c(5) k k1 have ok: "unit_ok (non_meta (content_infos title_info) ! k) (nca_ctx s2 ! k)"
      by blast
    from k nm t(1) have ks: "k < length (nca_ctx s)" by simp
    note kf = same_units_nth_fields[OF su ks]
    have "unit_ok (non_meta (content_infos title_info) ! k) (nca_ctx s ! k)
          = unit_ok (non_meta (content_infos title_info) ! k) (nca_ctx s2 ! k)"
      using kf n42 by (intro unit_ok_cong) simp_all
    with ok show "unit_ok (non_meta (content_infos title_info) ! k) (nca_ctx s ! k)"
      by simp
  qed
qed

lemma expected_entries_nth:
  assumes "0 < length (nca_ctx s)"
  shows "\<forall>k<length (nca_ctx s). expected_entries env s ! k = nca_entry (nca_ctx s ! k)"
    and "expected_entries env s ! length (nca_ctx s) = cnmt_xml_entry s"
    and "length (nca_ctx s) < length (expected_entries env s)"
  by (simp_all add: expected_entries_def nth_append)

text \<open>
  C10. After pass 1 of a run (lines 166-443), whatever the place of the meta
  descriptor in the title's list of content descriptors: the unit in the last
  slot, index \<^verbatim>\<open>content_count - 1\<close>, is the one opened from the title's meta
  descriptor (its kind is Meta, its identifier and size are those that
  \<^verbatim>\<open>ncaInitializeContext\<close> read for that descriptor); the first
  \<^verbatim>\<open>content_count\<close> entries of the table are the content archives of the slots,
  in slot order, so that the entry of the meta unit, named \<^verbatim>\<open>.cnmt.nca\<close>, is the
  last of them; and the entry right after it is the title-meta XML.
\<close>

theorem meta_unit_is_last_content_entry:
  assumes "allocate env title_info = Inr s0" and "layout env opts title_info s0 = Inr s"
  shows "\<exists>ci meta t'.
           titleGetContentInfoByTypeAndIdOffset title_info NcmContentType_Meta 0 = Some ci
         \<and> e_ncaOpen env (storage_id title_info) (hfs_of title_info) ci (tik s0) = Some (meta, t')
         \<and> length (nca_ctx s) = content_count title_info
         \<and> 0 < content_count title_info
         \<and> content_type (nca_ctx s ! (content_count title_info - 1)) = NcmContentType_Meta
         \<and> content_id_str (nca_ctx s ! (content_count title_info - 1)) = content_id_str meta
         \<and> content_size (nca_ctx s ! (content_count title_info - 1)) = content_size meta
         \<and> content_count title_info < entry_count (pfs_file_ctx s)
         \<and> (\<forall>k<content_count title_info.
               pfs_entries (pfs_file_ctx s) ! k
                 = \<lparr>pfs_entry_name = content_id_str (nca_ctx s ! k) @ ''.''
                       @ (if content_type (nca_ctx s ! k) = NcmContentType_Meta then ''cnmt.nca'' else ''nca''),
                    pfs_entry_size = content_size (nca_ctx s ! k)\<rparr>)
         \<and> pfs_entries (pfs_file_ctx s) ! (content_count title_info - 1)
             = \<lparr>pfs_entry_name = content_id_str meta @ ''.cnmt.nca'', pfs_entry_size = content_size meta\<rparr>
         \<and> pfs_entries (pfs_file_ctx s) ! content_count title_info
             = \<lparr>pfs_entry_name = content_id_str meta @ ''.cnmt.xml'',
                pfs_entry_size = authoring_tool_xml_size (cnmt_ctx s)\<rparr>"
proof -
  let ?n = "content_count title_info"
  note t = layout_table[OF assms]
  from layout_units(1)[OF assms] obtain ci meta t' where
    f: "titleGetContentInfoByTypeAndIdOffset title_info NcmContentType_Meta 0 = Some ci"
    and o: "e_ncaOpen env (storage_id title_info) (hfs_of title_info) ci (tik s0) = Some (meta, t')"
    and u: "content_type (nca_ctx s ! (?n - 1)) = NcmContentType_Meta"
      "content_id_str (nca_ctx s ! (?n - 1)) = content_id_str meta"
      "content_size (nca_ctx s ! (?n - 1)) = content_size meta"
    by blast
  have pos: "0 < length (nca_ctx s)" using t(1) t(2) by simp
  note x = expected_entries_nth[OF pos, of env]
  have all: "\<forall>k<?n. pfs_entries (pfs_file_ctx s) ! k
                 = \<lparr>pfs_entry_name = content_id_str (nca_ctx s ! k) @ ''.''
                       @ (if content_type (nca_ctx s ! k) = NcmContentType_Meta then ''cnmt.nca'' else ''nca''),
                    pfs_entry_size = content_size (nca_ctx s ! k)\<rparr>"
    using x(1) t(1) t(3) by (simp add: nca_entry_def nca_entry_name_def)
  have ne: "nca_ctx s \<noteq> []" using pos by auto
  have lastn: "last (nca_ctx s) = nca_ctx s ! (?n - 1)"
    using last_conv_nth[OF ne] t(1) by simp
  have m: "pfs_entries (pfs_file_ctx s) ! (?n - 1)
             = \<lparr>pfs_entry_name = content_id_str meta @ ''.cnmt.nca'', pfs_entry_size = content_size meta\<rparr>"
    using all t(2) u by simp
  have xml: "pfs_entries (pfs_file_ctx s) ! ?n
             = \<lparr>pfs_entry_name = content_id_str meta @ ''.cnmt.xml'',
                pfs_entry_size = authoring_tool_xml_size (cnmt_ctx s)\<rparr>"
    using x(2) t(1) t(3) u lastn by (simp add: cnmt_xml_entry_def)
  have cnt: "?n < entry_count (pfs_file_ctx s)"
    using x(3) t(1) t(3) by (simp add: entry_count_def)
  from f o t(1) t(2) u cnt all m xml show ?thesis
    by blast
qed

text \<open>The small title with its descriptors in the other order: the meta
  descriptor comes first.\<close>

definition demo_title_meta_first :: TitleInfo where
  "demo_title_meta_first = \<lparr>storage_id = NcmStorageId_SdCard, version_value = 0,
                             content_infos = [demo_meta, demo_program 2]\<rparr>"

theorem meta_unit_is_last_content_entry_witness:
  "\<exists>s. layout demo_env demo_opts demo_title_meta_first demo_start = Inr s
     \<and> allocate demo_env demo_title_meta_first = Inr demo_start
     \<and> content_infos demo_title_meta_first ! 0 = demo_meta
     \<and> (\<exists>ci meta t'.
           titleGetContentInfoByTypeAndIdOffset demo_title_meta_first NcmContentType_Meta 0 = Some ci
         \<and> e_ncaOpen demo_env (storage_id demo_title_meta_first) (hfs_of demo_title_meta_first) ci
              (tik demo_start) = Some (meta, t')
         \<and> length (nca_ctx s) = content_count demo_title_meta_first
         \<and> 0 < content_count demo_title_meta_first
         \<and> content_type (nca_ctx s ! (content_count demo_title_meta_first - 1)) = NcmContentType_Meta
         \<and> content_id_str (nca_ctx s ! (content_count demo_title_meta_first - 1)) = content_id_str meta
         \<and> content_size (nca_ctx s ! (content_count demo_title_meta_first - 1)) = content_size meta
         \<and> content_count demo_title_meta_first < entry_count (pfs_file_ctx s)
         \<and> (\<forall>k<content_count demo_title_meta_first.
               pfs_entries (pfs_file_ctx s) ! k
                 = \<lparr>pfs_entry_name = content_id_str (nca_ctx s ! k) @ ''.''
                       @ (if content_type (nca_ctx s ! k) = NcmContentType_Meta then ''cnmt.nca'' else ''nca''),
                    pfs_entry_size = content_size (nca_ctx s ! k)\<rparr>)
         \<and> pfs_entries (pfs_file_ctx s) ! (content_count demo_title_meta_first - 1)
             = \<lparr>pfs_entry_name = content_id_str meta @ ''.cnmt.nca'', pfs_entry_size = content_size meta\<rparr>
         \<and> pfs_entries (pfs_file_ctx s) ! content_count demo_title_meta_first
             = \<lparr>pfs_entry_name = content_id_str meta @ ''.cnmt.xml'',
                pfs_entry_size = authoring_tool_xml_size (cnmt_ctx s)\<rparr>)
     \<and> map content_type (nca_ctx s) = [NcmContentType_Program, NcmContentType_Meta]
     \<and> map pfs_entry_name (pfs_entries (pfs_file_ctx s))
         = [''00000000000000000000000000000002.nca'', ''00000000000000000000000000000001.cnmt.nca'',
            ''00000000000000000000000000000001.cnmt.xml'', ''00000000000000000000000000000002.programinfo.xml'']"
proof -
  have al: "allocate demo_env demo_title_meta_first = Inr demo_start"
    by (simp add: demo_title_meta_first_def run_defs demo_defs)
  have r: "\<exists>s. layout demo_env demo_opts demo_title_meta_first demo_start = Inr s
     \<and> map content_type (nca_ctx s) = [NcmContentType_Program, NcmContentType_Meta]
     \<and> map pfs_entry_name (pfs_entries (pfs_file_ctx s))
         = [''00000000000000000000000000000002.nca'', ''00000000000000000000000000000001.cnmt.nca'',
            ''00000000000000000000000000000001.cnmt.xml'', ''00000000000000000000000000000002.programinfo.xml'']"
    by (simp add: demo_title_meta_first_def run_defs demo_defs)
  from r obtain s where s: "layout demo_env demo_opts demo_title_meta_first demo_start = Inr s"
     "map content_type (nca_ctx s) = [NcmContentType_Program, NcmContentType_Meta]"
     "map pfs_entry_name (pfs_entries (pfs_file_ctx s))
         = [''00000000000000000000000000000002.nca'', ''00000000000000000000000000000001.cnmt.nca'',
            ''00000000000000000000000000000001.cnmt.xml'', ''00000000000000000000000000000002.programinfo.xml'']"
    by (elim exE conjE) (rule that)
  have first: "content_infos demo_title_meta_first ! 0 = demo_meta"
    by (simp add: demo_title_meta_first_def)
  have p: "\<exists>ci meta t'.
           titleGetContentInfoByTypeAndIdOffset demo_title_meta_first NcmContentType_Meta 0 = Some ci
         \<and> e_ncaOpen demo_env (storage_id demo_title_meta_first) (hfs_of demo_title_meta_first) ci
              (tik demo_start) = Some (meta, t')
         \<and> length (nca_ctx s) = content_count demo_title_meta_first
         \<and> 0 < content_count demo_title_meta_first
         \<and> content_type (nca_ctx s ! (content_count demo_title_meta_first - 1)) = NcmContentType_Meta
         \<and> content_id_str (nca_ctx s ! (content_count demo_title_meta_first - 1)) = content_id_str meta
         \<and> content_size (nca_ctx s ! (content_count demo_title_meta_first - 1)) = content_size meta
         \<and> content_count demo_title_meta_first < entry_count (pfs_file_ctx s)
         \<and> (\<forall>k<content_count demo_title_meta_first.
               pfs_entries (pfs_file_ctx s) ! k
                 = \<lparr>pfs_entry_name = content_id_str (nca_ctx s ! k) @ ''.''
                       @ (if content_type (nca_ctx s ! k) = NcmContentType_Meta then ''cnmt.nca'' else ''nca''),
                    pfs_entry_size = content_size (nca_ctx s ! k)\<rparr>)
         \<and> pfs_entries (pfs_file_ctx s) ! (content_count demo_title_meta_first - 1)
             = \<lparr>pfs_entry_name = content_id_str meta @ ''.cnmt.nca'', pfs_entry_size = content_size meta\<rparr>
         \<and> pfs_entries (pfs_file_ctx s) ! content_count demo_title_meta_first
             = \<lparr>pfs_entry_name = content_id_str meta @ ''.cnmt.xml'',
                pfs_entry_size = authoring_tool_xml_size (cnmt_ctx s)\<rparr>"
    by (rule meta_unit_is_last_content_entry[OF al s(1)])
  show ?thesis
    apply (rule exI[of _ s])
    apply (intro conjI)
         apply (rule s(1))
        apply (rule al)
       apply (rule first)
      apply (rule p)
     apply (rule s(2))
    apply (rule s(3))
    done
qed

subsection \<open>What pass 2 changes\<close>

text \<open>The unit of a slot keeps its kind, its size, its flags of access and the
  index of its data entry while it is streamed; its identifier changes once,
  when the unit is finalized.\<close>

definition same_slot :: "NcaContext \<Rightarrow> NcaContext \<Rightarrow> bool" where
  "same_slot a b =
     (content_type a = content_type b \<and> content_size a = content_size b
      \<and> rights_id_available a = rights_id_available b
      \<and> titlekey_retrieved a = titlekey_retrieved b
      \<and> content_type_ctx_data_idx a = content_type_ctx_data_idx b
      \<and> (content_type_ctx a = None) = (content_type_ctx b = None))"

lemma same_slot_refl [simp]: "same_slot a a"
  by (simp add: same_slot_def)

lemma same_slot_trans: "same_slot a b \<Longrightarrow> same_slot b c \<Longrightarrow> same_slot a c"
  by (simp add: same_slot_def)

lemma patch_block_slot:
  "patch_block env cnmt cur buf blksize offset = (b, cnmt', cur') \<Longrightarrow>
   same_slot cur' cur \<and> content_id_str cur' = content_id_str cur"
  by (auto simp: patch_block_def Let_def same_slot_def
           split: if_splits prod.splits NcmContentType.splits option.splits type_ctx.splits)

lemma patched_slot:
  "patched env cnmt cur dirty buf n offset = (buf1, cnmt1, cur1, dirty1) \<Longrightarrow>
   same_slot cur1 cur \<and> content_id_str cur1 = content_id_str cur"
  by (auto simp: patched_def split: if_splits prod.splits dest: patch_block_slot)

lemma stream_blocks_slot:
  "stream_blocks env cnmt cur dirty sha blksize offset nsp_off tr = Inr (cnmt', cur', sha', nsp_off', tr') \<Longrightarrow>
   same_slot cur' cur \<and> content_id_str cur' = content_id_str cur"
proof (induction env cnmt cur dirty sha blksize offset nsp_off tr rule: stream_blocks.induct)
  case (1 env cnmt cur dirty sha blksize offset nsp_off tr)
  show ?case
  proof (cases "offset < content_size cur \<and> 0 < blksize")
    case False
    with "1.prems" show ?thesis
      by (auto simp: stream_blocks_done)
  next
    case True
    let ?n = "next_blksize cur offset blksize"
    from True "1.prems"(1) obtain buf where rd: "e_ncaReadContentFile env cur ?n offset = Some buf"
      by (cases "e_ncaReadContentFile env cur ?n offset") (simp_all add: stream_blocks_read_failed)
    obtain buf1 cnmt1 cur1 dirty1 where pb: "patched env cnmt cur dirty buf ?n offset = (buf1, cnmt1, cur1, dirty1)"
      by (cases "patched env cnmt cur dirty buf ?n offset") auto
    from "1.prems"(1) have rec: "stream_blocks env cnmt1 cur1 dirty1 (sha256ContextUpdate sha buf1 ?n) ?n
                  (offset + ?n) (nsp_off + ?n) (tr @ [UsbSendFileData buf1 ?n])
                = Inr (cnmt', cur', sha', nsp_off', tr')"
      and ok: "e_usb env tr (UsbSendFileData buf1 ?n)"
      using True rd pb by (simp_all add: stream_blocks_step[OF _ _ rd pb] split: if_splits)
    have "same_slot cur' cur1 \<and> content_id_str cur' = content_id_str cur1"
    proof (rule "1.IH"[OF True rd pb[symmetric] refl refl _ rec])
      show "\<not> \<not> e_usb env tr (UsbSendFileData buf1 ?n)"
        using ok by simp
    qed
    with patched_slot[OF pb] show ?thesis
      by (auto intro: same_slot_trans)
  qed
qed

lemma prepare_nca_slot:
  "prepare_nca env i cnmt cur tr = Inr (cnmt1, cur1, tr1) \<Longrightarrow>
   same_slot cur1 cur \<and> content_id_str cur1 = content_id_str cur
   \<and> tr1 = tr @ (if content_type cur = NcmContentType_Meta then [CnmtGenerateNcaPatch, NcaEncryptHeader i] else [])"
  by (auto simp: prepare_nca_def same_slot_def split: if_splits option.splits)

text \<open>One unit streamed (lines 481-578): the calls added, the unit finalized,
  and the one name that is replaced.\<close>

lemma write_nca_result:
  assumes run: "write_nca env s i = Inr s'"
  shows "\<exists>cnmt1 cur1 tr1 blocks cur2 cur3.
           prepare_nca env i (cnmt_ctx s) (nca_ctx s ! i) (trace s) = Inr (cnmt1, cur1, tr1)
         \<and> final_blocks env cnmt1 cur1 (e_ncaIsHeaderDirty env cur1) BLOCK_SIZE 0 = Some blocks
         \<and> trace s' = tr1 @ [UsbSendFilePropertiesCommon (content_size (nca_ctx s ! i))
                                (pfsGetEntryNameByIndexFromFileContext (pfs_file_ctx s) i)]
                        @ map send_block blocks
                        @ [NcaUpdateContentIdAndHash i (e_sha256 env (concat (map block_bytes blocks)))]
         \<and> sum_list (map snd blocks) = content_size (nca_ctx s ! i)
         \<and> same_slot cur3 (nca_ctx s ! i)
         \<and> nca_ctx s' = (nca_ctx s)[i := cur3]
         \<and> content_id_str cur3
             = fst (e_ncaUpdateContentIdAndHash env cur2 (e_sha256 env (concat (map block_bytes blocks))))
         \<and> pfsUpdateEntryNameFromFileContext (pfs_file_ctx s) i (content_id_str cur3) = Some (pfs_file_ctx s')
         \<and> nsp_offset s' = nsp_offset s + content_size (nca_ctx s ! i)"
    and "tik s' = tik s \<and> retrieve_tik_cert s' = retrieve_tik_cert s
         \<and> raw_cert_chain s' = raw_cert_chain s \<and> raw_cert_chain_size s' = raw_cert_chain_size s
         \<and> nsp_size s' = nsp_size s \<and> nsp_header_size s' = nsp_header_size s \<and> path s' = path s"
proof -
  let ?cur = "nca_ctx s ! i"
  from run obtain cnmt1 cur1 tr1 where prep: "prepare_nca env i (cnmt_ctx s) ?cur (trace s) = Inr (cnmt1, cur1, tr1)"
    by (cases "prepare_nca env i (cnmt_ctx s) ?cur (trace s)") (auto simp: write_nca_def)
  note p = prepare_nca_slot[OF prep]
  have sz1: "content_size cur1 = content_size ?cur"
    using p by (simp add: same_slot_def)
  let ?name = "pfsGetEntryNameByIndexFromFileContext (pfs_file_ctx s) i"
  let ?c = "UsbSendFilePropertiesCommon (content_size cur1) ?name"
  from run prep obtain cnmt2 cur2 sha nsp_off tr2 where
    sb: "stream_blocks env cnmt1 cur1 (e_ncaIsHeaderDirty env cur1) sha256ContextCreate BLOCK_SIZE 0
           (nsp_offset s) (tr1 @ [?c]) = Inr (cnmt2, cur2, sha, nsp_off, tr2)"
    by (cases "stream_blocks env cnmt1 cur1 (e_ncaIsHeaderDirty env cur1) sha256ContextCreate BLOCK_SIZE 0
           (nsp_offset s) (tr1 @ [?c])")
       (auto simp: write_nca_def Let_def split: if_splits)
  have "0 < BLOCK_SIZE" by (simp add: BLOCK_SIZE_def)
  from stream_blocks_sends[OF sb this] obtain blocks where
    fb: "final_blocks env cnmt1 cur1 (e_ncaIsHeaderDirty env cur1) BLOCK_SIZE 0 = Some blocks"
    and tr2: "tr2 = (tr1 @ [?c]) @ map send_block blocks"
    and sha: "sha = sha256ContextCreate @ concat (map block_bytes blocks)"
    and total: "sum_list (map snd blocks) = content_size cur1 - 0"
    and off: "nsp_off = nsp_offset s + (content_size cur1 - 0)"
    by blast
  note sl = stream_blocks_slot[OF sb]
  let ?h = "e_sha256 env (concat (map block_bytes blocks))"
  obtain cid r where up: "e_ncaUpdateContentIdAndHash env cur2 ?h = (cid, r)"
    by (cases "e_ncaUpdateContentIdAndHash env cur2 ?h")
  let ?cur3 = "cur2\<lparr>content_id_str := cid, nca_rest := r\<rparr>"
  have h: "sha256ContextGetHash env sha = ?h"
    using sha by (simp add: sha256ContextGetHash_def sha256ContextCreate_def)
  from run prep sb up h obtain cnmt3 pfs where
    pfs: "pfsUpdateEntryNameFromFileContext (pfs_file_ctx s) i cid = Some pfs"
    and s': "s' = s\<lparr>nca_ctx := (nca_ctx s)[i := ?cur3], cnmt_ctx := cnmt3,
                     pfs_file_ctx := pfs, nsp_offset := nsp_off,
                     trace := tr2 @ [NcaUpdateContentIdAndHash i ?h]\<rparr>"
    by (auto simp: write_nca_def Let_def split: if_splits option.splits)
  have slot: "same_slot ?cur3 ?cur"
    using sl p by (simp add: same_slot_def)
  have tr: "trace s' = tr1 @ [UsbSendFilePropertiesCommon (content_size ?cur) ?name]
                        @ map send_block blocks @ [NcaUpdateContentIdAndHash i ?h]"
    using s' tr2 sz1 by simp
  have "prepare_nca env i (cnmt_ctx s) ?cur (trace s) = Inr (cnmt1, cur1, tr1)
         \<and> final_blocks env cnmt1 cur1 (e_ncaIsHeaderDirty env cur1) BLOCK_SIZE 0 = Some blocks
         \<and> trace s' = tr1 @ [UsbSendFilePropertiesCommon (content_size ?cur) ?name]
                        @ map send_block blocks @ [NcaUpdateContentIdAndHash i ?h]
         \<and> sum_list (map snd blocks) = content_size ?cur
         \<and> same_slot ?cur3 ?cur
         \<and> nca_ctx s' = (nca_ctx s)[i := ?cur3]
         \<and> content_id_str ?cur3 = fst (e_ncaUpdateContentIdAndHash env cur2 ?h)
         \<and> pfsUpdateEntryNameFromFileContext (pfs_file_ctx s) i (content_id_str ?cur3) = Some (pfs_file_ctx s')
         \<and> nsp_offset s' = nsp_offset s + content_size ?cur"
    using prep fb tr total sz1 slot s' up pfs off by simp
  then show "\<exists>cnmt1 cur1 tr1 blocks cur2 cur3.
           prepare_nca env i (cnmt_ctx s) (nca_ctx s ! i) (trace s) = Inr (cnmt1, cur1, tr1)
         \<and> final_blocks env cnmt1 cur1 (e_ncaIsHeaderDirty env cur1) BLOCK_SIZE 0 = Some blocks
         \<and> trace s' = tr1 @ [UsbSendFilePropertiesCommon (content_size (nca_ctx s ! i))
                                (pfsGetEntryNameByIndexFromFileContext (pfs_file_ctx s) i)]
                        @ map send_block blocks
                        @ [NcaUpdateContentIdAndHash i (e_sha256 env (concat (map block_bytes blocks)))]
         \<and> sum_list (map snd blocks) = content_size (nca_ctx s ! i)
         \<and> same_slot cur3 (nca_ctx s ! i)
         \<and> nca_ctx s' = (nca_ctx s)[i := cur3]
         \<and> content_id_str cur3
             = fst (e_ncaUpdateContentIdAndHash env cur2 (e_sha256 env (concat (map block_bytes blocks))))
         \<and> pfsUpdateEntryNameFromFileContext (pfs_file_ctx s) i (content_id_str cur3) = Some (pfs_file_ctx s')
         \<and> nsp_offset s' = nsp_offset s + content_size (nca_ctx s ! i)"
    by blast
  show "tik s' = tik s \<and> retrieve_tik_cert s' = retrieve_tik_cert s
         \<and> raw_cert_chain s' = raw_cert_chain s \<and> raw_cert_chain_size s' = raw_cert_chain_size s
         \<and> nsp_size s' = nsp_size s \<and> nsp_header_size s' = nsp_header_size s \<and> path s' = path s"
    using s' by simp
qed

text \<open>What a renaming of entries leaves of the table: the payload size, the
  declared sizes in order, and of every name its length and what follows its
  first 32 characters.\<close>

definition keeps_table ::
  "PartitionFileSystemFileContext \<Rightarrow> PartitionFileSystemFileContext \<Rightarrow> bool" where
  "keeps_table p p' =
     (fs_size p' = fs_size p
      \<and> map pfs_entry_size (pfs_entries p') = map pfs_entry_size (pfs_entries p)
      \<and> map (\<lambda>e. length (pfs_entry_name e)) (pfs_entries p')
          = map (\<lambda>e. length (pfs_entry_name e)) (pfs_entries p)
      \<and> map (\<lambda>e. drop 32 (pfs_entry_name e)) (pfs_entries p')
          = map (\<lambda>e. drop 32 (pfs_entry_name e)) (pfs_entries p))"

definition long_names :: "PartitionFileSystemFileContext \<Rightarrow> bool" where
  "long_names p = (\<forall>e\<in>set (pfs_entries p). 32 \<le> length (pfs_entry_name e))"

lemma keeps_table_refl [simp]: "keeps_table p p"
  by (simp add: keeps_table_def)

lemma keeps_table_trans: "keeps_table p q \<Longrightarrow> keeps_table q r \<Longrightarrow> keeps_table p r"
  by (simp add: keeps_table_def)

lemma keeps_table_count: "keeps_table p p' \<Longrightarrow> entry_count p' = entry_count p"
  unfolding keeps_table_def entry_count_def by (metis length_map)

lemma long_names_lengths:
  "long_names p = (\<forall>n\<in>set (map (\<lambda>e. length (pfs_entry_name e)) (pfs_entries p)). 32 \<le> n)"
  by (auto simp: long_names_def)

lemma keeps_table_long: "keeps_table p p' \<Longrightarrow> long_names p \<Longrightarrow> long_names p'"
  unfolding long_names_lengths by (simp add: keeps_table_def)

lemma keeps_table_header: "keeps_table p p' \<Longrightarrow> pfs_header_size env p' = pfs_header_size env p"
proof -
  assume k: "keeps_table p p'"
  have "map (\<lambda>e. length (pfs_entry_name e) + 1) (pfs_entries p')
        = map (\<lambda>n. n + 1) (map (\<lambda>e. length (pfs_entry_name e)) (pfs_entries p'))"
    by simp
  also have "\<dots> = map (\<lambda>n. n + 1) (map (\<lambda>e. length (pfs_entry_name e)) (pfs_entries p))"
    using k by (simp only: keeps_table_def)
  also have "\<dots> = map (\<lambda>e. length (pfs_entry_name e) + 1) (pfs_entries p)"
    by simp
  finally show ?thesis
    using keeps_table_count[OF k] by (simp add: pfs_header_size_def)
qed

lemma map_update_same: "i < length xs \<Longrightarrow> f y = f (xs ! i) \<Longrightarrow> map f (xs[i := y]) = map f xs"
  by (simp add: map_update list_update_same_conv)

text \<open>Replacing the identifier at the start of a name by another of the same
  length.\<close>

lemma rename_keeps:
  assumes r: "pfsUpdateEntryNameFromFileContext p idx cid = Some p'"
    and c: "length cid = 32" and n: "long_names p"
  shows "keeps_table p p'"
proof -
  from r have i: "idx < length (pfs_entries p)"
    and p': "p' = p\<lparr>pfs_entries := (pfs_entries p)
             [idx := (pfs_entries p ! idx)\<lparr>pfs_entry_name :=
                cid @ drop (length cid) (pfs_entry_name (pfs_entries p ! idx))\<rparr>]\<rparr>"
    by (auto simp: pfsUpdateEntryNameFromFileContext_def entry_count_def split: if_splits)
  from n i have l: "32 \<le> length (pfs_entry_name (pfs_entries p ! idx))"
    by (simp add: long_names_def)
  show ?thesis
    unfolding keeps_table_def p'
    using i c l by (simp add: map_update_same)
qed

text \<open>The fields that pass 2 never writes before the final header.\<close>

definition pass2_frame :: "dump_state \<Rightarrow> dump_state \<Rightarrow> bool" where
  "pass2_frame s s' =
     (tik s' = tik s \<and> retrieve_tik_cert s' = retrieve_tik_cert s
      \<and> raw_cert_chain s' = raw_cert_chain s \<and> raw_cert_chain_size s' = raw_cert_chain_size s
      \<and> nsp_size s' = nsp_size s \<and> nsp_header_size s' = nsp_header_size s \<and> path s' = path s)"

lemma pass2_frame_refl [simp]: "pass2_frame s s"
  by (simp add: pass2_frame_def)

lemma pass2_frame_trans: "pass2_frame a b \<Longrightarrow> pass2_frame b c \<Longrightarrow> pass2_frame a c"
  by (simp add: pass2_frame_def)

lemma send_entry_result:
  "send_entry env entry_size tmp_name entry_data s = Inr s' \<Longrightarrow>
   s' = s\<lparr>trace := trace s @ [UsbSendFilePropertiesCommon entry_size tmp_name,
                                UsbSendFileData entry_data entry_size]\<rparr>"
  by (auto simp: send_entry_def Let_def split: if_splits)

lemma send_and_rename_result:
  assumes "send_and_rename env data_idx entry_size entry_data cid label s = Inr s'"
  shows "\<exists>pfs. pfsUpdateEntryNameFromFileContext (pfs_file_ctx s) data_idx cid = Some pfs
     \<and> s' = s\<lparr>trace := trace s @ [UsbSendFilePropertiesCommon entry_size
                                     (pfsGetEntryNameByIndexFromFileContext (pfs_file_ctx s) data_idx),
                                   UsbSendFileData entry_data entry_size],
              nsp_offset := nsp_offset s + entry_size, pfs_file_ctx := pfs\<rparr>"
proof -
  from assms obtain s1 where 1: "send_entry env entry_size
             (pfsGetEntryNameByIndexFromFileContext (pfs_file_ctx s) data_idx) entry_data s = Inr s1"
    by (auto simp: send_and_rename_def split: sum.splits)
  note e = send_entry_result[OF 1]
  from assms 1 e show ?thesis
    by (auto simp: send_and_rename_def split: option.splits)
qed

lemma send_and_rename_frame:
  assumes "send_and_rename env data_idx entry_size entry_data cid label s = Inr s'"
  shows "nca_ctx s' = nca_ctx s" and "cnmt_ctx s' = cnmt_ctx s" and "pass2_frame s s'"
    and "ext {Transfer} (trace s) (trace s')"
    and "pfsUpdateEntryNameFromFileContext (pfs_file_ctx s) data_idx cid = Some (pfs_file_ctx s')"
    and "nsp_offset s' = nsp_offset s + entry_size"
  using send_and_rename_result[OF assms]
  by (auto simp: pass2_frame_def ext_def)

text \<open>Lines 580-602.\<close>

lemma write_cnmt_xml_result:
  assumes "write_cnmt_xml env title_info s = Inr s'"
  shows "\<exists>cnmt. e_cnmtGenerateAuthoringToolXml env (cnmt_ctx s) (nca_ctx s) (content_count title_info) = Some cnmt
       \<and> cnmt_ctx s' = cnmt
       \<and> trace s' = trace s @
           [CnmtGenerateAuthoringToolXml (map content_id_str (nca_ctx s)),
            UsbSendFilePropertiesCommon (authoring_tool_xml_size cnmt)
              (pfsGetEntryNameByIndexFromFileContext (pfs_file_ctx s)
                 (content_type_ctx_data_idx (nca_ctx s ! (content_count title_info - 1)))),
            UsbSendFileData (authoring_tool_xml cnmt) (authoring_tool_xml_size cnmt)]
       \<and> pfsUpdateEntryNameFromFileContext (pfs_file_ctx s)
            (content_type_ctx_data_idx (nca_ctx s ! (content_count title_info - 1)))
            (content_id_str (nca_ctx s ! (content_count title_info - 1))) = Some (pfs_file_ctx s')
       \<and> nsp_offset s' = nsp_offset s + authoring_tool_xml_size cnmt"
    and "nca_ctx s' = nca_ctx s" and "pass2_frame s s'"
proof -
  from assms obtain s1 where
    1: "generate_cnmt_xml env title_info ''cnmt xml #2 failed'' s = Inr s1"
    and 2: "send_and_rename env (content_type_ctx_data_idx (nca_ctx s1 ! (content_count title_info - 1)))
              (authoring_tool_xml_size (cnmt_ctx s1)) (authoring_tool_xml (cnmt_ctx s1))
              (content_id_str (nca_ctx s1 ! (content_count title_info - 1)))
              ''pfs update entry name cnmt xml failed'' s1 = Inr s'"
    by (auto simp: write_cnmt_xml_def Let_def split: sum.splits)
  note g = generate_cnmt_xml_frame[OF 1]
  have g2: "pass2_frame s s1" "nsp_offset s1 = nsp_offset s"
    using 1 by (auto simp: generate_cnmt_xml_def log_def Let_def pass2_frame_def split: option.splits)
  from send_and_rename_result[OF 2] obtain pfs where
    r: "pfsUpdateEntryNameFromFileContext (pfs_file_ctx s1)
          (content_type_ctx_data_idx (nca_ctx s1 ! (content_count title_info - 1)))
          (content_id_str (nca_ctx s1 ! (content_count title_info - 1))) = Some pfs"
    and s': "s' = s1\<lparr>trace := trace s1 @ [UsbSendFilePropertiesCommon (authoring_tool_xml_size (cnmt_ctx s1))
                                     (pfsGetEntryNameByIndexFromFileContext (pfs_file_ctx s1)
                                        (content_type_ctx_data_idx (nca_ctx s1 ! (content_count title_info - 1)))),
                                   UsbSendFileData (authoring_tool_xml (cnmt_ctx s1)) (authoring_tool_xml_size (cnmt_ctx s1))],
              nsp_offset := nsp_offset s1 + authoring_tool_xml_size (cnmt_ctx s1), pfs_file_ctx := pfs\<rparr>"
    by blast
  show "nca_ctx s' = nca_ctx s" using s' g by simp
  show "pass2_frame s s'" using s' g2 by (simp add: pass2_frame_def)
  show "\<exists>cnmt. e_cnmtGenerateAuthoringToolXml env (cnmt_ctx s) (nca_ctx s) (content_count title_info) = Some cnmt
       \<and> cnmt_ctx s' = cnmt
       \<and> trace s' = trace s @
           [CnmtGenerateAuthoringToolXml (map content_id_str (nca_ctx s)),
            UsbSendFilePropertiesCommon (authoring_tool_xml_size cnmt)
              (pfsGetEntryNameByIndexFromFileContext (pfs_file_ctx s)
                 (content_type_ctx_data_idx (nca_ctx s ! (content_count title_info - 1)))),
            UsbSendFileData (authoring_tool_xml cnmt) (authoring_tool_xml_size cnmt)]
       \<and> pfsUpdateEntryNameFromFileContext (pfs_file_ctx s)
            (content_type_ctx_data_idx (nca_ctx s ! (content_count title_info - 1)))
            (content_id_str (nca_ctx s ! (content_count title_info - 1))) = Some (pfs_file_ctx s')
       \<and> nsp_offset s' = nsp_offset s + authoring_tool_xml_size cnmt"
    using s' g g2 r by simp
qed

text \<open>Lines 630-650: the icons of a control unit.\<close>

lemma write_icons_frame:
  assumes "for_each (write_icon env cid) icons (k, s) = Inr (k', s')" and "length cid = 32"
  shows "nca_ctx s' = nca_ctx s \<and> cnmt_ctx s' = cnmt_ctx s \<and> pass2_frame s s'
       \<and> ext {Transfer} (trace s) (trace s')
       \<and> (long_names (pfs_file_ctx s) \<longrightarrow> keeps_table (pfs_file_ctx s) (pfs_file_ctx s'))"
  using assms
proof (induction icons arbitrary: k s)
  case Nil
  then show ?case by simp
next
  case (Cons icon icons)
  from Cons.prems(1) obtain k1 s1 where
    1: "write_icon env cid (k, s) icon = Inr (k1, s1)"
    and rest: "for_each (write_icon env cid) icons (k1, s1) = Inr (k', s')"
    by (cases "write_icon env cid (k, s) icon") auto
  from 1 have sr: "send_and_rename env k (icon_size icon) (icon_data icon) cid
               ''pfs update entry name failed for icon'' s = Inr s1"
    by (auto simp: write_icon_def split: sum.splits)
  note f = send_and_rename_frame[OF sr]
  note ih = Cons.IH[OF rest Cons.prems(2)]
  have k: "long_names (pfs_file_ctx s) \<longrightarrow> keeps_table (pfs_file_ctx s) (pfs_file_ctx s')"
  proof
    assume n: "long_names (pfs_file_ctx s)"
    from rename_keeps[OF f(5) Cons.prems(2) n] have a: "keeps_table (pfs_file_ctx s) (pfs_file_ctx s1)" .
    from keeps_table_long[OF a n] ih have "keeps_table (pfs_file_ctx s1) (pfs_file_ctx s')" by simp
    with a show "keeps_table (pfs_file_ctx s) (pfs_file_ctx s')" by (rule keeps_table_trans)
  qed
  from f ih k show ?case
    by (auto intro: pass2_frame_trans ext_trans)
qed

text \<open>Lines 605-681.\<close>

lemma write_ctx_data_frame:
  assumes run: "write_ctx_data env s i = Inr s'"
    and c: "length (content_id_str (nca_ctx s ! i)) = 32"
  shows "nca_ctx s' = nca_ctx s" and "cnmt_ctx s' = cnmt_ctx s" and "pass2_frame s s'"
    and "ext {Transfer} (trace s) (trace s')"
    and "long_names (pfs_file_ctx s) \<Longrightarrow> keeps_table (pfs_file_ctx s) (pfs_file_ctx s')"
proof -
  let ?cur = "nca_ctx s ! i"
  have "nca_ctx s' = nca_ctx s \<and> cnmt_ctx s' = cnmt_ctx s \<and> pass2_frame s s'
       \<and> ext {Transfer} (trace s) (trace s')
       \<and> (long_names (pfs_file_ctx s) \<longrightarrow> keeps_table (pfs_file_ctx s) (pfs_file_ctx s'))"
  proof (cases "content_type_ctx ?cur")
    case None
    with run show ?thesis by (simp add: write_ctx_data_def)
  next
    case (Some tc)
    let ?pre = "(case content_type ?cur of
                 NcmContentType_Program \<Rightarrow>
                   (case tc of
                      ProgramInfoCtx p \<Rightarrow>
                        Inr (pi_authoring_tool_xml p, pi_authoring_tool_xml_size p,
                             content_type_ctx_data_idx ?cur, s)
                    | _ \<Rightarrow> Inl (bad_cast, trace s))
               | NcmContentType_Control \<Rightarrow>
                   (case tc of
                      NacpCtx n \<Rightarrow>
                        (case for_each (write_icon env (content_id_str ?cur)) (icon_ctx n)
                                (content_type_ctx_data_idx ?cur, s) of
                           Inl e \<Rightarrow> Inl e
                         | Inr (data_idx, s') \<Rightarrow>
                             Inr (nacp_authoring_tool_xml n, nacp_authoring_tool_xml_size n, data_idx, s'))
                    | _ \<Rightarrow> Inl (bad_cast, trace s))
               | NcmContentType_LegalInformation \<Rightarrow>
                   (case tc of
                      LegalInfoCtx l \<Rightarrow>
                        Inr (li_authoring_tool_xml l, li_authoring_tool_xml_size l,
                             content_type_ctx_data_idx ?cur, s)
                    | _ \<Rightarrow> Inl (bad_cast, trace s))
               | _ \<Rightarrow> Inr ([], 0, content_type_ctx_data_idx ?cur, s))"
    from run Some obtain xml xml_size data_idx s1 where
      pre: "?pre = Inr (xml, xml_size, data_idx, s1)"
      and sr: "send_and_rename env data_idx xml_size xml (content_id_str ?cur)
                 ''pfs update entry name failed for xml'' s1 = Inr s'"
      by (cases ?pre) (auto simp: write_ctx_data_def Let_def)
    have 1: "nca_ctx s1 = nca_ctx s \<and> cnmt_ctx s1 = cnmt_ctx s \<and> pass2_frame s s1
       \<and> ext {Transfer} (trace s) (trace s1)
       \<and> (long_names (pfs_file_ctx s) \<longrightarrow> keeps_table (pfs_file_ctx s) (pfs_file_ctx s1))"
    proof (cases "\<exists>n. content_type ?cur = NcmContentType_Control \<and> tc = NacpCtx n")
      case True
      then obtain n where n: "content_type ?cur = NcmContentType_Control" "tc = NacpCtx n" by blast
      with pre obtain k where "for_each (write_icon env (content_id_str ?cur)) (icon_ctx n)
                                (content_type_ctx_data_idx ?cur, s) = Inr (k, s1)"
        by (auto split: sum.splits)
      from write_icons_frame[OF this c] show ?thesis .
    next
      case False
      with pre have "s1 = s"
        by (auto split: NcmContentType.splits type_ctx.splits sum.splits)
      then show ?thesis by simp
    qed
    note f = send_and_rename_frame[OF sr]
    have k: "long_names (pfs_file_ctx s) \<longrightarrow> keeps_table (pfs_file_ctx s) (pfs_file_ctx s')"
    proof
      assume n: "long_names (pfs_file_ctx s)"
      with 1 have a: "keeps_table (pfs_file_ctx s) (pfs_file_ctx s1)" by simp
      from keeps_table_long[OF a n] have n1: "long_names (pfs_file_ctx s1)" .
      from rename_keeps[OF f(5) c n1] have "keeps_table (pfs_file_ctx s1) (pfs_file_ctx s')" .
      with a show "keeps_table (pfs_file_ctx s) (pfs_file_ctx s')" by (rule keeps_table_trans)
    qed
    from 1 f k show ?thesis
      by (auto intro: pass2_frame_trans ext_trans)
  qed
  then show "nca_ctx s' = nca_ctx s" and "cnmt_ctx s' = cnmt_ctx s" and "pass2_frame s s'"
    and "ext {Transfer} (trace s) (trace s')"
    and "long_names (pfs_file_ctx s) \<Longrightarrow> keeps_table (pfs_file_ctx s) (pfs_file_ctx s')"
    by simp_all
qed

text \<open>A counting loop, with an invariant that may mention the counter.\<close>

lemma for_each_upt_inv:
  assumes "for_each f [0..<n] s = Inr s'" and "P 0 s"
    and "\<And>k t t'. k < n \<Longrightarrow> P k t \<Longrightarrow> f t k = Inr t' \<Longrightarrow> P (Suc k) t'"
  shows "P n s'"
  using assms
proof (induction n arbitrary: s')
  case 0
  then show ?case by simp
next
  case (Suc n)
  from Suc.prems(1) obtain sm where
    m: "for_each f [0..<n] s = Inr sm" and l: "f sm n = Inr s'"
    by (auto simp: for_each_append split: sum.splits)
  have "P n sm"
  proof (rule Suc.IH[OF m Suc.prems(2)])
    fix k t t'
    assume "k < n" "P k t" "f t k = Inr t'"
    then show "P (Suc k) t'" using Suc.prems(3)[of k t t'] by simp
  qed
  with l show ?case using Suc.prems(3)[of n sm s'] by simp
qed

lemma for_each_upt_split:
  assumes "for_each f [0..<n] s = Inr s'" and "k < n"
  obtains sk sk' where "for_each f [0..<k] s = Inr sk" "f sk k = Inr sk'"
    "for_each f [Suc k..<n] sk' = Inr s'"
proof -
  from assms(2) have "[0..<n] = [0..<k] @ [k..<n]"
    using upt_add_eq_append[of 0 k "n - k"] by simp
  with assms(2) have "[0..<n] = [0..<k] @ k # [Suc k..<n]"
    by (simp add: upt_conv_Cons)
  with assms(1) show ?thesis
    using that by (auto simp: for_each_append split: sum.splits)
qed

lemma for_each_ok_ext:
  assumes "for_each f xs s = Inr s'"
    and "\<And>t x t'. x \<in> set xs \<Longrightarrow> f t x = Inr t' \<Longrightarrow> ext K (trace t) (trace t')"
  shows "ext K (trace s) (trace s')"
proof (rule for_each_inv[OF assms(1), where P = "\<lambda>t. ext K (trace s) (trace t)"])
  show "ext K (trace s) (trace s)" by simp
next
  fix t x t'
  assume "x \<in> set xs" "ext K (trace s) (trace t)" "f t x = Inr t'"
  then show "ext K (trace s) (trace t')"
    using assms(2)[of x t t'] by (auto intro: ext_trans)
qed

lemma ext_append: "\<forall>c\<in>set new. kind c \<in> K \<Longrightarrow> ext K tr (tr @ new)"
  by (auto simp: ext_def)

lemma send_block_kind [simp]: "kind (send_block b) = Transfer"
  by (simp add: send_block_def)

lemma write_nca_frame:
  assumes run: "write_nca env s i = Inr s'" and i: "i < length (nca_ctx s)"
  shows "length (nca_ctx s') = length (nca_ctx s)"
    and "\<forall>j. j \<noteq> i \<longrightarrow> nca_ctx s' ! j = nca_ctx s ! j"
    and "same_slot (nca_ctx s' ! i) (nca_ctx s ! i)"
    and "\<exists>c h. content_id_str (nca_ctx s' ! i) = fst (e_ncaUpdateContentIdAndHash env c h)"
    and "pfsUpdateEntryNameFromFileContext (pfs_file_ctx s) i (content_id_str (nca_ctx s' ! i))
           = Some (pfs_file_ctx s')"
    and "pass2_frame s s'"
    and "ext {Setup, Transfer, Finalize} (trace s) (trace s')"
    and "\<exists>h. filter (\<lambda>c. kind c = Finalize) (trace s')
           = filter (\<lambda>c. kind c = Finalize) (trace s) @ [NcaUpdateContentIdAndHash i h]"
proof -
  from write_nca_result(1)[OF run] obtain cnmt1 cur1 tr1 blocks cur2 cur3 where
    p: "prepare_nca env i (cnmt_ctx s) (nca_ctx s ! i) (trace s) = Inr (cnmt1, cur1, tr1)"
    and tr: "trace s' = tr1 @ [UsbSendFilePropertiesCommon (content_size (nca_ctx s ! i))
                                (pfsGetEntryNameByIndexFromFileContext (pfs_file_ctx s) i)]
                        @ map send_block blocks
                        @ [NcaUpdateContentIdAndHash i (e_sha256 env (concat (map block_bytes blocks)))]"
    and sl: "same_slot cur3 (nca_ctx s ! i)"
    and n: "nca_ctx s' = (nca_ctx s)[i := cur3]"
    and c: "content_id_str cur3
             = fst (e_ncaUpdateContentIdAndHash env cur2 (e_sha256 env (concat (map block_bytes blocks))))"
    and r: "pfsUpdateEntryNameFromFileContext (pfs_file_ctx s) i (content_id_str cur3) = Some (pfs_file_ctx s')"
    by blast
  note pp = prepare_nca_slot[OF p]
  show "length (nca_ctx s') = length (nca_ctx s)" using n by simp
  show "\<forall>j. j \<noteq> i \<longrightarrow> nca_ctx s' ! j = nca_ctx s ! j" using n by simp
  show "same_slot (nca_ctx s' ! i) (nca_ctx s ! i)" using n sl i by simp
  show "\<exists>c h. content_id_str (nca_ctx s' ! i) = fst (e_ncaUpdateContentIdAndHash env c h)"
    using n c i by auto
  show "pfsUpdateEntryNameFromFileContext (pfs_file_ctx s) i (content_id_str (nca_ctx s' ! i))
           = Some (pfs_file_ctx s')"
    using n r i by simp
  show "pass2_frame s s'"
    using write_nca_result(2)[OF run] by (simp add: pass2_frame_def)
  have full: "trace s' = trace s @ ((if content_type (nca_ctx s ! i) = NcmContentType_Meta
                               then [CnmtGenerateNcaPatch, NcaEncryptHeader i] else [])
           @ [UsbSendFilePropertiesCommon (content_size (nca_ctx s ! i))
                                (pfsGetEntryNameByIndexFromFileContext (pfs_file_ctx s) i)]
           @ map send_block blocks
           @ [NcaUpdateContentIdAndHash i (e_sha256 env (concat (map block_bytes blocks)))])"
    using tr pp by simp
  then show "ext {Setup, Transfer, Finalize} (trace s) (trace s')"
    unfolding ext_def by (intro exI conjI, assumption) auto
  have "filter (\<lambda>c. kind c = Finalize) (map send_block blocks) = []"
    by (simp add: filter_empty_conv)
  then show "\<exists>h. filter (\<lambda>c. kind c = Finalize) (trace s')
           = filter (\<lambda>c. kind c = Finalize) (trace s) @ [NcaUpdateContentIdAndHash i h]"
    using full by simp
qed

text \<open>Lines 481-578, the whole loop: the units of the slots already streamed are
  finalized, the others are untouched.\<close>

lemma write_ncas_units:
  assumes run: "for_each (write_nca env) [0..<n] s = Inr s'" and n: "n \<le> length (nca_ctx s)"
  shows "length (nca_ctx s') = length (nca_ctx s)"
    and "\<forall>j\<ge>n. nca_ctx s' ! j = nca_ctx s ! j"
    and "\<forall>j<n. same_slot (nca_ctx s' ! j) (nca_ctx s ! j)
               \<and> (\<exists>c h. content_id_str (nca_ctx s' ! j) = fst (e_ncaUpdateContentIdAndHash env c h))"
    and "pass2_frame s s'"
    and "ext {Setup, Transfer, Finalize} (trace s) (trace s')"
    and "length (filter (\<lambda>c. kind c = Finalize) (trace s'))
           = length (filter (\<lambda>c. kind c = Finalize) (trace s)) + n"
proof -
  let ?P = "\<lambda>k t. length (nca_ctx t) = length (nca_ctx s)
     \<and> (\<forall>j\<ge>k. nca_ctx t ! j = nca_ctx s ! j)
     \<and> (\<forall>j<k. same_slot (nca_ctx t ! j) (nca_ctx s ! j)
               \<and> (\<exists>c h. content_id_str (nca_ctx t ! j) = fst (e_ncaUpdateContentIdAndHash env c h)))
     \<and> pass2_frame s t
     \<and> ext {Setup, Transfer, Finalize} (trace s) (trace t)
     \<and> length (filter (\<lambda>c. kind c = Finalize) (trace t))
           = length (filter (\<lambda>c. kind c = Finalize) (trace s)) + k"
  have "?P n s'"
  proof (rule for_each_upt_inv[OF run, where P = ?P])
    show "?P 0 s" by simp
  next
    fix k t t'
    assume k: "k < n" and p: "?P k t" and w: "write_nca env t k = Inr t'"
    from p k n have kt: "k < length (nca_ctx t)" by simp
    note f = write_nca_frame[OF w kt]
    from f(8) obtain h where fin: "filter (\<lambda>c. kind c = Finalize) (trace t')
           = filter (\<lambda>c. kind c = Finalize) (trace t) @ [NcaUpdateContentIdAndHash k h]"
      by blast
    have a: "length (nca_ctx t') = length (nca_ctx s)" using f(1) p by simp
    have b: "\<forall>j\<ge>Suc k. nca_ctx t' ! j = nca_ctx s ! j"
      using f(2) p by auto
    have c: "\<forall>j<Suc k. same_slot (nca_ctx t' ! j) (nca_ctx s ! j)
               \<and> (\<exists>c h. content_id_str (nca_ctx t' ! j) = fst (e_ncaUpdateContentIdAndHash env c h))"
    proof (intro allI impI)
      fix j assume j: "j < Suc k"
      show "same_slot (nca_ctx t' ! j) (nca_ctx s ! j)
               \<and> (\<exists>c h. content_id_str (nca_ctx t' ! j) = fst (e_ncaUpdateContentIdAndHash env c h))"
      proof (cases "j = k")
        case True
        from p have "nca_ctx t ! k = nca_ctx s ! k" by simp
        with f(3) f(4) True show ?thesis by simp
      next
        case False
        with j have "j < k" by simp
        with p f(2) False show ?thesis by simp
      qed
    qed
    have d: "pass2_frame s t'" using p f(6) by (auto intro: pass2_frame_trans)
    have e: "ext {Setup, Transfer, Finalize} (trace s) (trace t')"
      using p f(7) by (auto intro: ext_trans)
    have g: "length (filter (\<lambda>c. kind c = Finalize) (trace t'))
           = length (filter (\<lambda>c. kind c = Finalize) (trace s)) + Suc k"
      using p fin by simp
    from a b c d e g show "?P (Suc k) t'" by blast
  qed
  then show "length (nca_ctx s') = length (nca_ctx s)"
    and "\<forall>j\<ge>n. nca_ctx s' ! j = nca_ctx s ! j"
    and "\<forall>j<n. same_slot (nca_ctx s' ! j) (nca_ctx s ! j)
               \<and> (\<exists>c h. content_id_str (nca_ctx s' ! j) = fst (e_ncaUpdateContentIdAndHash env c h))"
    and "pass2_frame s s'"
    and "ext {Setup, Transfer, Finalize} (trace s) (trace s')"
    and "length (filter (\<lambda>c. kind c = Finalize) (trace s'))
           = length (filter (\<lambda>c. kind c = Finalize) (trace s)) + n"
    by blast+
qed

lemma write_ncas_table:
  assumes run: "for_each (write_nca env) [0..<n] s = Inr s'" and n: "n \<le> length (nca_ctx s)"
    and ids: "\<forall>c h. length (fst (e_ncaUpdateContentIdAndHash env c h)) = 32"
    and names: "long_names (pfs_file_ctx s)"
  shows "keeps_table (pfs_file_ctx s) (pfs_file_ctx s')"
proof -
  let ?P = "\<lambda>k t. length (nca_ctx t) = length (nca_ctx s) \<and> keeps_table (pfs_file_ctx s) (pfs_file_ctx t)"
  have "?P n s'"
  proof (rule for_each_upt_inv[OF run, where P = ?P])
    show "?P 0 s" by simp
  next
    fix k t t'
    assume k: "k < n" and p: "?P k t" and w: "write_nca env t k = Inr t'"
    from p k n have kt: "k < length (nca_ctx t)" by simp
    note f = write_nca_frame[OF w kt]
    from f(4) ids have c: "length (content_id_str (nca_ctx t' ! k)) = 32" by auto
    from p names have nt: "long_names (pfs_file_ctx t)" by (auto intro: keeps_table_long)
    from rename_keeps[OF f(5) c nt] p f(1) show "?P (Suc k) t'"
      by (auto intro: keeps_table_trans)
  qed
  then show ?thesis by simp
qed

lemma write_ctx_datas_frame:
  assumes run: "for_each (write_ctx_data env) [0..<n] s = Inr s'"
    and ids: "\<forall>j<n. length (content_id_str (nca_ctx s ! j)) = 32"
  shows "nca_ctx s' = nca_ctx s" and "cnmt_ctx s' = cnmt_ctx s" and "pass2_frame s s'"
    and "ext {Transfer} (trace s) (trace s')"
    and "long_names (pfs_file_ctx s) \<Longrightarrow> keeps_table (pfs_file_ctx s) (pfs_file_ctx s')"
proof -
  let ?P = "\<lambda>k t. nca_ctx t = nca_ctx s \<and> cnmt_ctx t = cnmt_ctx s \<and> pass2_frame s t
       \<and> ext {Transfer} (trace s) (trace t)
       \<and> (long_names (pfs_file_ctx s) \<longrightarrow> keeps_table (pfs_file_ctx s) (pfs_file_ctx t))"
  have "?P n s'"
  proof (rule for_each_upt_inv[OF run, where P = ?P])
    show "?P 0 s" by simp
  next
    fix k t t'
    assume k: "k < n" and p: "?P k t" and w: "write_ctx_data env t k = Inr t'"
    from ids k p have c: "length (content_id_str (nca_ctx t ! k)) = 32" by simp
    note f = write_ctx_data_frame[OF w c]
    have kt: "long_names (pfs_file_ctx s) \<longrightarrow> keeps_table (pfs_file_ctx s) (pfs_file_ctx t')"
    proof
      assume l: "long_names (pfs_file_ctx s)"
      with p have a: "keeps_table (pfs_file_ctx s) (pfs_file_ctx t)" by simp
      from f(5)[OF keeps_table_long[OF a l]] a show "keeps_table (pfs_file_ctx s) (pfs_file_ctx t')"
        by (auto intro: keeps_table_trans)
    qed
    from p f(1,2,3,4) kt show "?P (Suc k) t'"
      by (auto intro: pass2_frame_trans ext_trans)
  qed
  then show "nca_ctx s' = nca_ctx s" and "cnmt_ctx s' = cnmt_ctx s" and "pass2_frame s s'"
    and "ext {Transfer} (trace s) (trace s')"
    and "long_names (pfs_file_ctx s) \<Longrightarrow> keeps_table (pfs_file_ctx s) (pfs_file_ctx s')"
    by simp_all
qed

lemma connect_result:
  "connect env s = Inr s' \<Longrightarrow> s' = s\<lparr>trace := trace s'\<rparr> \<and> ext {Poll} (trace s) (trace s')"
  using connect_ext[of s env]
  by (auto simp: connect_def split: prod.splits if_splits)

lemma send_file_properties_result:
  "send_file_properties env s = Inr s' \<Longrightarrow>
   s' = s\<lparr>trace := trace s @ [UsbSendFileProperties (nsp_size s) (path s) (nsp_header_size s mod 2 ^ 32)],
          nsp_offset := nsp_offset s + nsp_header_size s\<rparr>"
  by (auto simp: send_file_properties_def log_def Let_def split: if_splits)

lemma write_header_2_result:
  "write_header_2 env s = Inr s' \<Longrightarrow>
   s' = s\<lparr>nsp_header_size := pfs_header_size env (pfs_file_ctx s),
          trace := trace s @ [UsbSendNspHeader (e_pfs_header_bytes env (pfs_file_ctx s))
                                (pfs_header_size env (pfs_file_ctx s) mod 2 ^ 32)]\<rparr>
   \<and> pfs_header_size env (pfs_file_ctx s) \<le> BLOCK_SIZE"
  by (auto simp: write_header_2_def pfsWriteFileContextHeaderToMemoryBuffer_def Let_def split: if_splits)

text \<open>The states of a run that completes.\<close>

lemma nspDump_phases:
  assumes "nspDump env opts title_info = Inr sf"
  obtains s0 s1 s2 s3 sa sb sc sd where
    "allocate env title_info = Inr s0"
    "layout env opts title_info s0 = Inr s1"
    "connect env s1 = Inr s2"
    "send_file_properties env s2 = Inr s3"
    "for_each (write_nca env) [0..<content_count title_info] s3 = Inr sa"
    "write_cnmt_xml env title_info sa = Inr sb"
    "for_each (write_ctx_data env) [0..<content_count title_info - 1] sb = Inr sc"
    "write_tik_cert env sc = Inr sd"
    "write_header_2 env sd = Inr sf"
  using assms
  by (auto simp: nspDump_def stream_def split: if_splits sum.splits)

subsection \<open>Credentials\<close>

text \<open>The part of pass 1 that comes before the credentials are resolved.\<close>

definition open_units :: "env \<Rightarrow> options \<Rightarrow> TitleInfo \<Rightarrow> dump_state \<Rightarrow> failure + dump_state" where
  "open_units env opts title_info =
     steps [init_meta env title_info, init_contents env opts title_info,
            generate_cnmt_xml env title_info ''cnmt xml #1 failed'']"

lemma layout_split:
  assumes "layout env opts title_info s0 = Inr s"
  obtains s3 s4 s5 where
    "open_units env opts title_info s0 = Inr s3"
    "resolve_credentials env opts title_info s3 = Inr s4"
    "add_entries env title_info s4 = Inr s5"
    "write_header_1 env s5 = Inr s"
  using assms by (auto simp: layout_def open_units_def split: sum.splits)

lemma open_units_ext:
  "ext {Setup, XmlGen} (trace s) (trace_of id (open_units env opts title_info s))"
  unfolding open_units_def
proof (rule steps_ext)
  fix t f
  assume "f \<in> set [init_meta env title_info, init_contents env opts title_info,
            generate_cnmt_xml env title_info ''cnmt xml #1 failed'']"
  then consider "f = init_meta env title_info" | "f = init_contents env opts title_info"
    | "f = generate_cnmt_xml env title_info ''cnmt xml #1 failed''"
    by auto
  then show "ext {Setup, XmlGen} (trace t) (trace_of id (f t))"
  proof cases
    case 1
    then show ?thesis using init_meta_ext[of t env title_info] by (auto intro: ext_mono)
  next
    case 2
    then show ?thesis using init_contents_ext[of t env opts title_info] by (auto intro: ext_mono)
  next
    case 3
    then show ?thesis using generate_cnmt_xml_ext[of t env title_info] by (auto intro: ext_mono)
  qed
qed

text \<open>Lines 316-341, branch by branch.\<close>

lemma resolve_credentials_result:
  assumes "resolve_credentials env opts title_info s = Inr s'"
  shows "retrieve_tik_cert s' = (\<not> remove_titlekey_crypto opts \<and> 0 < tik_size (tik s))"
    and "\<not> retrieve_tik_cert s' \<Longrightarrow> trace s' = trace s \<and> tik s' = tik s"
    and "retrieve_tik_cert s' \<Longrightarrow>
           \<exists>blk. e_tikGetCommonBlock env (tik_data (tik s)) = Some blk
             \<and> (if remove_console_data opts \<and> titlekey_type blk = TikTitleKeyType_Personalized
                 then e_tikConvertPersonalizedTicketToCommonTicket env (tik s)
                        = Some (tik s', raw_cert_chain s', raw_cert_chain_size s')
                      \<and> trace s' = trace s @ [TikGetCommonBlock, TikConvertPersonalizedTicketToCommonTicket]
                 else if storage_id title_info = NcmStorageId_GameCard
                 then tik s' = tik s
                      \<and> e_certRetrieveRawCertificateChainFromGameCardByRightsId env (rights_id blk)
                           = Some (raw_cert_chain s', raw_cert_chain_size s')
                      \<and> trace s' = trace s @ [TikGetCommonBlock,
                             CertRetrieveRawCertificateChainFromGameCardByRightsId (rights_id blk)]
                 else tik s' = tik s
                      \<and> e_certGenerateRawCertificateChainBySignatureIssuer env (issuer blk)
                           = Some (raw_cert_chain s', raw_cert_chain_size s')
                      \<and> trace s' = trace s @ [TikGetCommonBlock,
                             CertGenerateRawCertificateChainBySignatureIssuer (issuer blk)])"
  using assms
  by (auto simp: resolve_credentials_def log_def Let_def split: if_splits option.splits)

lemma write_tik_cert_result:
  assumes "write_tik_cert env t = Inr t'"
  shows "nca_ctx t' = nca_ctx t \<and> pfs_file_ctx t' = pfs_file_ctx t \<and> cnmt_ctx t' = cnmt_ctx t
       \<and> nsp_header_size t' = nsp_header_size t \<and> nsp_size t' = nsp_size t
       \<and> trace t' = trace t @
          (if retrieve_tik_cert t
           then [UsbSendFilePropertiesCommon (tik_size (tik t))
                   (pfsGetEntryNameByIndexFromFileContext (pfs_file_ctx t) (entry_count (pfs_file_ctx t) - 2)),
                 UsbSendFileData (tik_data (tik t)) (tik_size (tik t)),
                 UsbSendFilePropertiesCommon (raw_cert_chain_size t)
                   (pfsGetEntryNameByIndexFromFileContext (pfs_file_ctx t) (entry_count (pfs_file_ctx t) - 1)),
                 UsbSendFileData (raw_cert_chain t) (raw_cert_chain_size t)]
           else [])"
  using assms
  by (auto simp: write_tik_cert_def send_entry_def Let_def split: if_splits sum.splits)

text \<open>The entries of the units and of their metadata, without the credentials.\<close>

definition content_entries :: "env \<Rightarrow> dump_state \<Rightarrow> PartitionFileSystemEntry list" where
  "content_entries env s =
     map nca_entry (nca_ctx s) @ [cnmt_xml_entry s]
     @ concat (map (ctx_data_entries env) (butlast (nca_ctx s)))"

lemma expected_entries_content:
  "expected_entries env s = content_entries env s @ tik_cert_entries s"
  by (simp add: expected_entries_def content_entries_def)

lemma open_units_frame:
  assumes "open_units env opts title_info s0 = Inr s3"
  shows "length (nca_ctx s3) = length (nca_ctx s0)" and "pfs_file_ctx s3 = pfs_file_ctx s0"
    and "ext {Setup, XmlGen} (trace s0) (trace s3)"
proof -
  from assms obtain s1 s2 where
    1: "init_meta env title_info s0 = Inr s1"
    and 2: "init_contents env opts title_info s1 = Inr s2"
    and 3: "generate_cnmt_xml env title_info ''cnmt xml #1 failed'' s2 = Inr s3"
    by (auto simp: open_units_def split: sum.splits)
  note m = init_meta_units[OF 1]
  note c = init_contents_units[OF 2]
  note g = generate_cnmt_xml_frame[OF 3]
  show "length (nca_ctx s3) = length (nca_ctx s0)" using m(2) c(1) g by simp
  show "pfs_file_ctx s3 = pfs_file_ctx s0" using m(3) c(2) g by simp
  show "ext {Setup, XmlGen} (trace s0) (trace s3)"
    using open_units_ext[of s0 env opts title_info] assms by simp
qed

lemma layout_states:
  assumes a: "allocate env title_info = Inr s0" and l: "layout env opts title_info s0 = Inr s"
  obtains s3 s4 where
    "open_units env opts title_info s0 = Inr s3"
    "resolve_credentials env opts title_info s3 = Inr s4"
    "tik s = tik s4" "raw_cert_chain s = raw_cert_chain s4"
    "raw_cert_chain_size s = raw_cert_chain_size s4"
    "retrieve_tik_cert s = retrieve_tik_cert s4"
    "trace s = trace s4" "cnmt_ctx s = cnmt_ctx s3"
    "same_units (nca_ctx s) (nca_ctx s3)"
    "\<forall>c\<in>set (trace s3). kind c \<in> {Setup, XmlGen}"
proof -
  from l obtain s3 s4 s5 where
    3: "open_units env opts title_info s0 = Inr s3"
    and 4: "resolve_credentials env opts title_info s3 = Inr s4"
    and 5: "add_entries env title_info s4 = Inr s5"
    and 6: "write_header_1 env s5 = Inr s"
    by (rule layout_split)
  note t = layout_table[OF a l]
  note a0 = allocate_state[OF a]
  note o = open_units_frame[OF 3]
  note r = resolve_credentials_frame[OF 4]
  note h = write_header_1_frame[OF 6]
  have len4: "length (nca_ctx s4) = content_count title_info"
    using o(1) r a0 by simp
  note e = add_entries_added[OF 5 len4 t(2)]
  note f = added_frame_fields[OF e(1)]
  have su: "same_units (nca_ctx s) (nca_ctx s3)"
    using added_same_units[OF e(1)] h r by simp
  have tr3: "\<forall>c\<in>set (trace s3). kind c \<in> {Setup, XmlGen}"
    using o(3) a0 by (auto simp: ext_def)
  show ?thesis
    using that[OF 3 4] f h r su tr3 by simp
qed

subsection \<open>The table between the two headers\<close>

lemma run_table:
  assumes run: "nspDump env opts title_info = Inr sf"
    and a: "allocate env title_info = Inr s0" and l: "layout env opts title_info s0 = Inr s1"
    and ids: "\<forall>c h. length (fst (e_ncaUpdateContentIdAndHash env c h)) = 32"
    and names: "long_names (pfs_file_ctx s1)"
  shows "keeps_table (pfs_file_ctx s1) (pfs_file_ctx sf)"
    and "nsp_header_size sf = nsp_header_size s1"
    and "nsp_size sf = nsp_size s1"
    and "\<exists>tr. trace sf = tr @ [UsbSendNspHeader (e_pfs_header_bytes env (pfs_file_ctx sf))
                                   (nsp_header_size s1 mod 2 ^ 32)]"
proof -
  from run obtain t0 t1 s2 s3 sa sb sc sd where
    p: "allocate env title_info = Inr t0"
       "layout env opts title_info t0 = Inr t1"
       "connect env t1 = Inr s2"
       "send_file_properties env s2 = Inr s3"
       "for_each (write_nca env) [0..<content_count title_info] s3 = Inr sa"
       "write_cnmt_xml env title_info sa = Inr sb"
       "for_each (write_ctx_data env) [0..<content_count title_info - 1] sb = Inr sc"
       "write_tik_cert env sc = Inr sd"
       "write_header_2 env sd = Inr sf"
    by (rule nspDump_phases)
  from p(1,2) a l have t: "t0 = s0" "t1 = s1" by simp_all
  note tab = layout_table[OF a l]
  let ?n = "content_count title_info"
  from connect_result[OF p(3)] t have s2: "pfs_file_ctx s2 = pfs_file_ctx s1" "nca_ctx s2 = nca_ctx s1"
    "nsp_header_size s2 = nsp_header_size s1" "nsp_size s2 = nsp_size s1"
    by (metis dump_state.select_convs dump_state.surjective dump_state.update_convs(15))+
  from send_file_properties_result[OF p(4)] s2
  have s3: "pfs_file_ctx s3 = pfs_file_ctx s1" "nca_ctx s3 = nca_ctx s1"
    "nsp_header_size s3 = nsp_header_size s1" "nsp_size s3 = nsp_size s1"
    by simp_all
  have n3: "?n \<le> length (nca_ctx s3)" using s3 tab(1) by simp
  note u = write_ncas_units[OF p(5) n3]
  have l3: "long_names (pfs_file_ctx s3)" using names s3 by simp
  note ka = write_ncas_table[OF p(5) n3 ids l3]
  note la = keeps_table_long[OF ka l3]
  have ida: "\<forall>j<?n. length (content_id_str (nca_ctx sa ! j)) = 32"
    using u(3) ids by auto
  note x = write_cnmt_xml_result[OF p(6)]
  from x(1) have rx: "pfsUpdateEntryNameFromFileContext (pfs_file_ctx sa)
            (content_type_ctx_data_idx (nca_ctx sa ! (?n - 1)))
            (content_id_str (nca_ctx sa ! (?n - 1))) = Some (pfs_file_ctx sb)"
    by blast
  have "length (content_id_str (nca_ctx sa ! (?n - 1))) = 32"
    using ida tab(2) by simp
  note kb = rename_keeps[OF rx this la]
  note lb = keeps_table_long[OF kb la]
  have idb: "\<forall>j<?n - 1. length (content_id_str (nca_ctx sb ! j)) = 32"
    using ida x(2) by simp
  note d = write_ctx_datas_frame[OF p(7) idb]
  note kc = d(5)[OF lb]
  note w = write_tik_cert_result[OF p(8)]
  note h = write_header_2_result[OF p(9)]
  have pf: "pfs_file_ctx sf = pfs_file_ctx sc"
    using h w by (metis dump_state.select_convs(10) dump_state.surjective dump_state.update_convs(11,15))
  have "keeps_table (pfs_file_ctx s3) (pfs_file_ctx sc)"
    using ka kb kc by (blast intro: keeps_table_trans)
  then show k: "keeps_table (pfs_file_ctx s1) (pfs_file_ctx sf)"
    using s3 pf by simp
  have hs: "nsp_header_size sf = pfs_header_size env (pfs_file_ctx sd)"
    using h by (metis dump_state.select_convs(11) dump_state.surjective dump_state.update_convs(11,15))
  have "pfs_file_ctx sd = pfs_file_ctx sf" using pf w by simp
  with hs keeps_table_header[OF k, of env] tab(5)
  show hh: "nsp_header_size sf = nsp_header_size s1" by simp
  have "nsp_size sf = nsp_size sd"
    using h by (metis dump_state.select_convs(12) dump_state.surjective dump_state.update_convs(11,15))
  also have "\<dots> = nsp_size s3"
    using w d(3) x(3) u(4) by (simp add: pass2_frame_def)
  finally show "nsp_size sf = nsp_size s1" using s3 by simp
  have "trace sf = trace sd @ [UsbSendNspHeader (e_pfs_header_bytes env (pfs_file_ctx sd))
                                (pfs_header_size env (pfs_file_ctx sd) mod 2 ^ 32)]"
    using h by (metis dump_state.select_convs(15) dump_state.surjective dump_state.update_convs(15))
  with hs hh \<open>pfs_file_ctx sd = pfs_file_ctx sf\<close>
  show "\<exists>tr. trace sf = tr @ [UsbSendNspHeader (e_pfs_header_bytes env (pfs_file_ctx sf))
                                   (nsp_header_size s1 mod 2 ^ 32)]"
    by auto
qed


end
